(* ===== verification/Cpp_Prelude.thy ===== *)
theory Cpp_Prelude
  imports Main "HOL-Library.Sublist" "HOL-Library.List_Lexorder" "HOL-Library.Char_ord"
begin

text \<open>
  The vocabulary of the development: what can go wrong in the C++ code (\<open>fault\<close>), results
  that may be a fault (\<open>'a res\<close>) with their sequencing \<open>bind_res\<close>, and the operations of
  \<^verbatim>\<open>std::string\<close> the source uses (\<^verbatim>\<open>find\<close>, \<^verbatim>\<open>substr\<close>, \<^verbatim>\<open>operator[]\<close>, \<^verbatim>\<open>c_str\<close>,
  \<^verbatim>\<open>std::to_string\<close>, \<^verbatim>\<open>std::atoi\<close>, \<^verbatim>\<open>std::stoi\<close>), with the lemmas every component shares.

  Strings are lists of bytes. Every string of the program is assumed to be shorter than
  \<open>2 ^ 31\<close> bytes, so that the \<^verbatim>\<open>int\<close> variables the source keeps positions in hold them
  exactly; \<^verbatim>\<open>std::string::npos\<close> read into such an \<^verbatim>\<open>int\<close> is \<open>-1\<close>, and a negative
  \<^verbatim>\<open>int\<close> passed where a \<^verbatim>\<open>size_t\<close> is expected is larger than any string.
\<close>

section \<open>Faults and results\<close>

text \<open>
  \<open>OutOfRange\<close> and \<open>InvalidArgument\<close> are the exceptions \<^verbatim>\<open>std::out_of_range\<close> and
  \<^verbatim>\<open>std::invalid_argument\<close>; \<open>SystemError\<close> is \<^verbatim>\<open>boost::system::system_error\<close>;
  \<open>Undefined\<close> is undefined behaviour of the language: an
  index beyond the terminating byte of a string or the end of a vector, a null pointer
  followed, a function with a result that reaches its end without \<^verbatim>\<open>return\<close>, the
  value of an uninitialised variable, signed overflow. \<open>Diverges\<close> is a call that does not
  return, in the one loop of the source whose end depends on a peer.
\<close>

datatype fault = OutOfRange | InvalidArgument | SystemError | Undefined | Diverges

type_synonym 'a res = "fault + 'a"

definition bind_res :: "'a res \<Rightarrow> ('a \<Rightarrow> 'b res) \<Rightarrow> 'b res" where
  "bind_res m f = (case m of Inl e \<Rightarrow> Inl e | Inr x \<Rightarrow> f x)"

named_theorems cpp_simps \<open>evaluation rules of the C++ library operations\<close>
named_theorems res_splits \<open>case splits of results\<close>

lemma bind_res_simps [simp]:
  "bind_res (Inr x) f = f x"
  "bind_res (Inl e) f = Inl e"
  by (simp_all add: bind_res_def)

lemma bind_res_eq_Inr [simp]: "bind_res m f = Inr y \<longleftrightarrow> (\<exists>x. m = Inr x \<and> f x = Inr y)"
  by (cases m) auto

lemma bind_res_eq_Inl: "bind_res m f = Inl e \<longleftrightarrow> m = Inl e \<or> (\<exists>x. m = Inr x \<and> f x = Inl e)"
  by (cases m) auto

lemma bind_res_cong [fundef_cong]:
  "m = m' \<Longrightarrow> (\<And>x. m' = Inr x \<Longrightarrow> f x = g x) \<Longrightarrow> bind_res m f = bind_res m' g"
  by (cases m') auto

declare sum.splits [res_splits]

text \<open>\<^verbatim>\<open>v[i]\<close> on a vector: undefined beyond its end.\<close>

definition vec_at :: "'a list \<Rightarrow> nat \<Rightarrow> 'a res" where
  "vec_at xs i = (if i < length xs then Inr (xs ! i) else Inl Undefined)"

lemma vec_at_Cons [cpp_simps]:
  "vec_at (x # xs) 0 = Inr x"
  "vec_at (x # xs) (Suc i) = vec_at xs i"
  "vec_at [] i = Inl Undefined"
  by (simp_all add: vec_at_def)

lemma vec_at_Inr [simp]: "i < length xs \<Longrightarrow> vec_at xs i = Inr (xs ! i)"
  by (simp add: vec_at_def)

section \<open>std::string\<close>

definition crlf :: string where
  "crlf = [CHR 0x0D, CHR 0x0A]"

text \<open>One line of an HTTP header, as the program writes and reads it.\<close>

definition field :: "string \<times> string \<Rightarrow> string" where
  "field h = fst h @ '': '' @ snd h @ crlf"

text \<open>A text on one line: no carriage return and no line feed.\<close>

definition one_line :: "string \<Rightarrow> bool" where
  "one_line s \<longleftrightarrow> CHR 0x0D \<notin> set s \<and> CHR 0x0A \<notin> set s"

lemma one_line_simps [simp]:
  "one_line []"
  "one_line (c # s) \<longleftrightarrow> c \<noteq> CHR 0x0D \<and> c \<noteq> CHR 0x0A \<and> one_line s"
  "one_line (s @ t) \<longleftrightarrow> one_line s \<and> one_line t"
  by (auto simp: one_line_def)

text \<open>\<^verbatim>\<open>s[i]\<close>: the byte at the length is the terminating zero, a position beyond is undefined.\<close>

definition str_at :: "string \<Rightarrow> nat \<Rightarrow> char res" where
  "str_at s i = (if i < length s then Inr (s ! i)
                 else if i = length s then Inr (CHR 0x00) else Inl Undefined)"

text \<open>\<^verbatim>\<open>s.find(p)\<close>: the first position of \<open>p\<close> in \<open>s\<close>, \<open>None\<close> for \<^verbatim>\<open>npos\<close>.\<close>

fun str_find :: "string \<Rightarrow> string \<Rightarrow> nat option" where
  "str_find [] p = (if p = [] then Some 0 else None)"
| "str_find (c # s) p = (if prefix p (c # s) then Some 0 else map_option Suc (str_find s p))"

text \<open>The same, assigned to a variable of type \<^verbatim>\<open>int\<close>.\<close>

definition str_find_int :: "string \<Rightarrow> string \<Rightarrow> int" where
  "str_find_int s p = (case str_find s p of None \<Rightarrow> -1 | Some i \<Rightarrow> int i)"

text \<open>\<^verbatim>\<open>s.find(p, n)\<close>: the search starts at position \<open>n\<close>.\<close>

definition str_find_from :: "string \<Rightarrow> string \<Rightarrow> nat \<Rightarrow> nat option" where
  "str_find_from s p n =
     (if n \<le> length s then map_option (\<lambda>i. n + i) (str_find (drop n s) p) else None)"

text \<open>
  \<^verbatim>\<open>s.substr(pos, n)\<close>: throws when \<open>pos\<close> is beyond the end; a count that reaches beyond
  the end is cut. Both arguments are read as \<^verbatim>\<open>size_t\<close>, so a negative one is huge.
\<close>

definition substr :: "string \<Rightarrow> int \<Rightarrow> int \<Rightarrow> string res" where
  "substr s pos n =
     (if pos < 0 \<or> int (length s) < pos then Inl OutOfRange
      else Inr (if n < 0 then drop (nat pos) s else take (nat n) (drop (nat pos) s)))"

text \<open>A string built from \<^verbatim>\<open>s.c_str()\<close> ends before the first zero byte.\<close>

definition c_str :: "string \<Rightarrow> string" where
  "c_str s = takeWhile (\<lambda>c. c \<noteq> CHR 0x00) s"

subsection \<open>Laws of the search\<close>

lemma str_find_Some_iff:
  "str_find s p = Some i \<longleftrightarrow>
     i \<le> length s \<and> prefix p (drop i s) \<and> (\<forall>j<i. \<not> prefix p (drop j s))"
proof (induction s arbitrary: i)
  case Nil
  then show ?case by auto
next
  case (Cons c s)
  show ?case
  proof (cases "prefix p (c # s)")
    case True
    then show ?thesis by (cases i) auto
  next
    case False
    show ?thesis
    proof (cases i)
      case 0
      with False show ?thesis by simp
    next
      case (Suc k)
      have "(\<forall>j<Suc k. \<not> prefix p (drop j (c # s))) \<longleftrightarrow> (\<forall>j<k. \<not> prefix p (drop j s))"
        using False by (simp add: All_less_Suc2)
      with Suc False Cons.IH[of k] show ?thesis by simp
    qed
  qed
qed

lemma str_find_None_iff: "str_find s p = None \<longleftrightarrow> \<not> sublist p s"
  by (induction s) (auto simp: sublist_Cons_right)

lemma str_find_app_None: "str_find (s @ p @ t) p \<noteq> None"
  by (simp add: str_find_None_iff sublist_appendI)

lemma str_find_prefix [simp]: "prefix p s \<Longrightarrow> str_find s p = Some 0"
  by (cases s) auto

lemma str_find_SomeD:
  assumes "str_find s p = Some i"
  shows "s = take i s @ p @ drop (i + length p) s" and "i + length p \<le> length s"
proof -
  from assms have i: "i \<le> length s" and "prefix p (drop i s)"
    by (simp_all add: str_find_Some_iff)
  then obtain t where t: "drop i s = p @ t"
    by (auto simp: prefix_def)
  then have "drop (i + length p) s = t"
    by (metis add.commute append_eq_conv_conj drop_drop)
  with t show "s = take i s @ p @ drop (i + length p) s"
    by (metis append_take_drop_id)
  show "i + length p \<le> length s"
    using t i by (metis diff_diff_cancel length_append length_drop le_add1 add.commute le_diff_conv2)
qed

text \<open>Text in which the pattern starts nowhere is skipped.\<close>

lemma str_find_skip:
  "(\<And>j. j < length u \<Longrightarrow> \<not> prefix p (drop j (u @ s))) \<Longrightarrow>
   str_find (u @ s) p = map_option ((+) (length u)) (str_find s p)"
proof (induction u)
  case Nil
  show ?case by (simp add: option.map_ident)
next
  case (Cons c u)
  have "\<not> prefix p (c # u @ s)"
    using Cons.prems[of 0] by simp
  moreover have "str_find (u @ s) p = map_option ((+) (length u)) (str_find s p)"
    by (rule Cons.IH) (use Cons.prems[of "Suc _"] in simp)
  ultimately show ?case
    by (simp add: option.map_comp comp_def)
qed

text \<open>A pattern whose first byte does not occur in \<open>u\<close> starts nowhere in \<open>u\<close>.\<close>

lemma str_find_skip_hd:
  assumes "c \<notin> set u"
  shows "str_find (u @ s) (c # p) = map_option ((+) (length u)) (str_find s (c # p))"
proof (rule str_find_skip)
  fix j assume j: "j < length u"
  then have "drop j (u @ s) = u ! j # drop (Suc j) (u @ s)"
    by (simp add: Cons_nth_drop_Suc[symmetric] nth_append del: drop_append)
  with assms j show "\<not> prefix (c # p) (drop j (u @ s))"
    by (metis Cons_prefix_Cons nth_mem)
qed

text \<open>A byte that is not part of the pattern separates the search.\<close>

lemma prefix_before: "c \<notin> set p \<Longrightarrow> prefix p (u @ c # v) \<longleftrightarrow> prefix p u"
  by (induction u arbitrary: p) (auto simp: prefix_Cons split: list.splits)

lemma str_find_before:
  assumes "c \<notin> set p"
  shows "str_find (u @ c # v) p = (case str_find u p of Some i \<Rightarrow> Some i
    | None \<Rightarrow> map_option ((+) (Suc (length u))) (str_find v p))"
  using assms
proof (induction u)
  case Nil
  then show ?case
    by (cases p; cases "str_find v p") (auto simp: prefix_before[of c p "[]" v, simplified])
next
  case (Cons d u)
  have "prefix p (d # u @ c # v) \<longleftrightarrow> prefix p (d # u)"
    using prefix_before[OF Cons.prems, of "d # u" v] by simp
  with Cons show ?case by (cases "str_find v p") (auto split: option.splits)
qed

section \<open>Numbers in strings\<close>

definition is_digit :: "char \<Rightarrow> bool" where
  "is_digit c \<longleftrightarrow> c \<in> set ''0123456789''"

definition digit_val :: "char \<Rightarrow> nat" where
  "digit_val c = of_char c - 48"

text \<open>\<^verbatim>\<open>std::to_string\<close> of a non-negative number: decimal, no leading zero.\<close>

fun to_string :: "nat \<Rightarrow> string" where
  "to_string n = (if n < 10 then [''0123456789'' ! n]
                  else to_string (n div 10) @ [''0123456789'' ! (n mod 10)])"

declare to_string.simps [simp del]

text \<open>\<^verbatim>\<open>std::to_string\<close> of an \<^verbatim>\<open>int\<close>.\<close>

definition int_to_string :: "int \<Rightarrow> string" where
  "int_to_string i = (if i < 0 then CHR ''-'' # to_string (nat (- i)) else to_string (nat i))"

definition dec_val :: "string \<Rightarrow> nat" where
  "dec_val s = foldl (\<lambda>v c. 10 * v + digit_val c) 0 s"

text \<open>\<^verbatim>\<open>isspace\<close> in the C locale: tab, newline, vertical tab, form feed, return, space.\<close>

definition is_space :: "char \<Rightarrow> bool" where
  "is_space c \<longleftrightarrow> of_char c \<in> {9, 10, 11, 12, 13, 32 :: nat}"

text \<open>
  The prefix \<^verbatim>\<open>strtol\<close> reads, shared by \<^verbatim>\<open>std::atoi\<close> and \<^verbatim>\<open>std::stoi\<close>:
  white space, an optional sign, decimal digits. \<open>None\<close> when there is no digit.
\<close>

definition read_int :: "string \<Rightarrow> int option" where
  "read_int s =
     (let s1 = dropWhile is_space s;
          (neg, s2) = (case s1 of [] \<Rightarrow> (False, [])
                       | c # r \<Rightarrow> if c = CHR ''-'' then (True, r)
                                 else if c = CHR ''+'' then (False, r) else (False, c # r));
          ds = takeWhile is_digit s2
      in if ds = [] then None
         else Some (if neg then - int (dec_val ds) else int (dec_val ds)))"

definition int_range :: "int \<Rightarrow> bool" where
  "int_range i \<longleftrightarrow> - (2 ^ 31) \<le> i \<and> i < 2 ^ 31"

text \<open>\<^verbatim>\<open>std::atoi\<close>: 0 without digits, undefined when the value does not fit an \<^verbatim>\<open>int\<close>.\<close>

definition atoi :: "string \<Rightarrow> int res" where
  "atoi s = (case read_int s of None \<Rightarrow> Inr 0
             | Some i \<Rightarrow> if int_range i then Inr i else Inl Undefined)"

text \<open>\<^verbatim>\<open>std::stoi\<close>: throws in both cases.\<close>

definition stoi :: "string \<Rightarrow> int res" where
  "stoi s = (case read_int s of None \<Rightarrow> Inl InvalidArgument
             | Some i \<Rightarrow> if int_range i then Inr i else Inl OutOfRange)"

lemma digit_char_simps:
  assumes "n < 10"
  shows "is_digit (''0123456789'' ! n)" "digit_val (''0123456789'' ! n) = n"
proof -
  have "n \<in> {0, 1, 2, 3, 4, 5, 6, 7, 8, 9}"
    using assms by auto
  then show "is_digit (''0123456789'' ! n)" "digit_val (''0123456789'' ! n) = n"
    by (auto simp: is_digit_def digit_val_def)
qed

lemma is_digit_not_space: "is_digit c \<Longrightarrow> \<not> is_space c"
  by (auto simp: is_digit_def is_space_def)

lemma to_string_nonempty [simp]: "to_string n \<noteq> []"
  by (subst to_string.simps) simp

lemma to_string_digits: "c \<in> set (to_string n) \<Longrightarrow> is_digit c"
proof (induction n rule: to_string.induct)
  case (1 n)
  from "1.prems" have "c \<in> set (if n < 10 then [''0123456789'' ! n]
      else to_string (n div 10) @ [''0123456789'' ! (n mod 10)])"
    by (subst (asm) to_string.simps)
  with "1.IH" show ?case
    by (auto split: if_splits simp del: nth_Cons_numeral simp: digit_char_simps)
qed

lemma dec_val_to_string [simp]: "dec_val (to_string n) = n"
proof (induction n rule: to_string.induct)
  case (1 n)
  show ?case
  proof (cases "n < 10")
    case True
    then show ?thesis
      by (subst to_string.simps) (simp add: dec_val_def digit_char_simps)
  next
    case False
    with "1.IH" have "dec_val (to_string (n div 10)) = n div 10" by simp
    moreover have "dec_val (to_string n) =
        10 * dec_val (to_string (n div 10)) + digit_val (''0123456789'' ! (n mod 10))"
      using False by (subst to_string.simps) (simp add: dec_val_def)
    ultimately show ?thesis
      by (simp add: digit_char_simps)
  qed
qed

lemma to_string_inject: "to_string m = to_string n \<longleftrightarrow> m = n"
  by (metis dec_val_to_string)

lemma read_int_digits:
  assumes "ds \<noteq> []" and "\<And>c. c \<in> set ds \<Longrightarrow> is_digit c" and "t = [] \<or> \<not> is_digit (hd t)"
  shows "read_int (ds @ t) = Some (int (dec_val ds))"
proof -
  obtain d r where d: "ds = d # r" using assms(1) by (cases ds) auto
  then have "is_digit d" using assms(2) by simp
  then have nd: "\<not> is_space d" "d \<noteq> CHR ''-''" "d \<noteq> CHR ''+''"
    by (auto simp: is_digit_not_space) (auto simp: is_digit_def)
  have "takeWhile is_digit (ds @ t) = ds"
    using assms(2,3) by (cases t) (auto simp: takeWhile_append)
  with d nd show ?thesis
    by (simp add: read_int_def)
qed

lemma stoi_to_string:
  "n < 2 ^ 31 \<Longrightarrow> t = [] \<or> \<not> is_digit (hd t) \<Longrightarrow> stoi (to_string n @ t) = Inr (int n)"
  by (simp add: stoi_def read_int_digits to_string_digits int_range_def)

lemma atoi_to_string:
  "n < 2 ^ 31 \<Longrightarrow> t = [] \<or> \<not> is_digit (hd t) \<Longrightarrow> atoi (to_string n @ t) = Inr (int n)"
  by (simp add: atoi_def read_int_digits to_string_digits int_range_def)

end
