(* ===== verification/Boost_Strings.thy ===== *)
theory Boost_Strings
  imports Cpp_Prelude
begin

text \<open>
  The two string algorithms of Boost the source calls, \<^verbatim>\<open>boost::split\<close> with
  \<^verbatim>\<open>boost::token_compress_on\<close> and \<^verbatim>\<open>boost::replace_all\<close>, are not part of the repository:
  they are parameters of the definitions that use them. What the code relies on is stated
  as the documented behaviour in the locales \<open>boost_split\<close> and \<open>boost_replace\<close>, and both are
  interpreted on functions that have this behaviour.
\<close>

section \<open>boost::split with token compression\<close>

text \<open>
  The result of splitting at the bytes that satisfy \<open>P\<close>: a maximal run of separators ends
  a piece, no piece holds a separator, and there is always one piece more than there are
  runs (so a leading or trailing run leaves an empty first or last piece).
\<close>

inductive split_result :: "(char \<Rightarrow> bool) \<Rightarrow> string \<Rightarrow> string list \<Rightarrow> bool" for P where
  last_piece: "(\<And>c. c \<in> set t \<Longrightarrow> \<not> P c) \<Longrightarrow> split_result P t [t]"
| piece: "(\<And>c. c \<in> set t \<Longrightarrow> \<not> P c) \<Longrightarrow> g \<noteq> [] \<Longrightarrow> (\<And>c. c \<in> set g \<Longrightarrow> P c) \<Longrightarrow>
    r = [] \<or> \<not> P (hd r) \<Longrightarrow> split_result P r ts \<Longrightarrow> split_result P (t @ g @ r) (t # ts)"

function split_compress :: "(char \<Rightarrow> bool) \<Rightarrow> string \<Rightarrow> string list" where
  "split_compress P s =
     (let t = takeWhile (\<lambda>c. \<not> P c) s; r = dropWhile (\<lambda>c. \<not> P c) s
      in if r = [] then [t] else t # split_compress P (dropWhile P r))"
  by pat_completeness auto
termination
proof (relation "measure (\<lambda>(P, s). length s)", goal_cases)
  case 1
  show ?case by simp
next
  case (2 P s t r)
  have "length (dropWhile P r) < length r"
  proof (cases r)
    case (Cons c r')
    have "\<not> \<not> P (hd r)" using 2 hd_dropWhile[of "\<lambda>c. \<not> P c" s] by blast
    with Cons have "P c" by simp
    with Cons show ?thesis by (simp add: length_dropWhile_le le_imp_less_Suc)
  qed (use 2 in simp)
  also have "length r \<le> length s" using 2 by (simp add: length_dropWhile_le)
  finally show ?case by simp
qed

declare split_compress.simps [simp del]

lemma split_compress_one: "(\<And>c. c \<in> set t \<Longrightarrow> \<not> P c) \<Longrightarrow> split_compress P t = [t]"
  by (subst split_compress.simps) (auto simp: takeWhile_eq_all_conv dropWhile_eq_Nil_conv Let_def)

lemma split_compress_step:
  assumes "\<And>c. c \<in> set t \<Longrightarrow> \<not> P c" and "g \<noteq> []" and "\<And>c. c \<in> set g \<Longrightarrow> P c"
    and "r = [] \<or> \<not> P (hd r)"
  shows "split_compress P (t @ g @ r) = t # split_compress P r"
proof -
  obtain c g' where g: "g = c # g'" "P c" using assms(2,3) by (cases g) auto
  have t: "takeWhile (\<lambda>c. \<not> P c) (t @ g @ r) = t" "dropWhile (\<lambda>c. \<not> P c) (t @ g @ r) = g @ r"
    using assms(1) g by (auto simp: takeWhile_append dropWhile_append)
  have "dropWhile P (g @ r) = r"
    using assms(3,4) by (cases r) (auto simp: dropWhile_append)
  with t g show ?thesis
    by (subst split_compress.simps) (simp add: Let_def)
qed

lemma split_result_unique: "split_result P s ts \<Longrightarrow> ts = split_compress P s"
  by (induction rule: split_result.induct)
    (simp_all add: split_compress_one split_compress_step)

lemma split_result_compress: "split_result P s (split_compress P s)"
proof (induction P s rule: split_compress.induct)
  case (1 P s)
  define t r where "t = takeWhile (\<lambda>c. \<not> P c) s" and "r = dropWhile (\<lambda>c. \<not> P c) s"
  have t: "\<And>c. c \<in> set t \<Longrightarrow> \<not> P c" and s: "s = t @ r"
    by (auto simp: t_def r_def dest: set_takeWhileD)
  show ?case
  proof (cases "r = []")
    case True
    with s t show ?thesis by (simp add: split_compress_one last_piece)
  next
    case False
    then have hd: "P (hd r)" using hd_dropWhile[of "\<lambda>c. \<not> P c" s] by (simp add: r_def)
    define g q where "g = takeWhile P r" and "q = dropWhile P r"
    have r: "r = g @ q" by (simp add: g_def q_def)
    have g: "g \<noteq> []" "\<And>c. c \<in> set g \<Longrightarrow> P c"
      using False hd by (cases r, auto simp: g_def dest: set_takeWhileD split: if_splits)
    have q: "q = [] \<or> \<not> P (hd q)"
      using hd_dropWhile[of P r] by (auto simp: q_def)
    have "split_result P q (split_compress P q)"
      using "1.IH"[OF t_def r_def False] by (simp add: q_def)
    then have "split_result P (t @ g @ q) (t # split_compress P q)"
      using t g q by (intro piece) auto
    moreover have "split_compress P (t @ g @ q) = t # split_compress P q"
      using t g q by (intro split_compress_step) auto
    ultimately show ?thesis
      using s r by simp
  qed
qed

locale boost_split =
  fixes split :: "(char \<Rightarrow> bool) \<Rightarrow> string \<Rightarrow> string list"
  assumes split_doc: "split_result P s (split P s)"
begin

lemma split_eq: "split P s = split_compress P s"
  by (rule split_result_unique) (rule split_doc)

lemma split_first: "split P s ! 0 = takeWhile (\<lambda>c. \<not> P c) s"
  unfolding split_eq by (subst split_compress.simps) (simp add: Let_def)

lemma split_nonempty: "split P s \<noteq> []"
  using split_doc[of P s] by (auto elim: split_result.cases)

lemma split_one: "\<forall>c\<in>set t. \<not> P c \<Longrightarrow> split P t = [t]"
  by (simp add: split_eq split_compress_one)

lemma split_step:
  "\<forall>c\<in>set t. \<not> P c \<Longrightarrow> g \<noteq> [] \<Longrightarrow> \<forall>c\<in>set g. P c \<Longrightarrow>
   r = [] \<or> \<not> P (hd r) \<Longrightarrow> split P (t @ g @ r) = t # split P r"
  by (simp add: split_eq split_compress_step)

end

interpretation compress: boost_split split_compress
  by unfold_locales (rule split_result_compress)

section \<open>boost::replace_all\<close>

text \<open>
  Occurrences are replaced from the left, and the search goes on behind the occurrence
  that was replaced: text that was put in is not searched again.
\<close>

function replace_leftmost :: "string \<Rightarrow> string \<Rightarrow> string \<Rightarrow> string" where
  "replace_leftmost s p t =
     (if p = [] then s
      else case str_find s p of None \<Rightarrow> s
           | Some i \<Rightarrow> take i s @ t @ replace_leftmost (drop (i + length p) s) p t)"
  by pat_completeness auto
termination
proof (relation "measure (\<lambda>(s, p, t). length s)", goal_cases)
  case 1
  show ?case by simp
next
  case (2 s p t i)
  then have "i + length p \<le> length s" by (simp add: str_find_SomeD(2))
  with 2 show ?case by (cases p) auto
qed

declare replace_leftmost.simps [simp del]

locale boost_replace =
  fixes replace_all :: "string \<Rightarrow> string \<Rightarrow> string \<Rightarrow> string"
  assumes replace_none: "p \<noteq> [] \<Longrightarrow> str_find s p = None \<Longrightarrow> replace_all s p t = s"
    and replace_first: "p \<noteq> [] \<Longrightarrow> str_find s p = Some i \<Longrightarrow>
      replace_all s p t = take i s @ t @ replace_all (drop (i + length p) s) p t"
begin

lemma replace_eq: "p \<noteq> [] \<Longrightarrow> replace_all s p t = replace_leftmost s p t"
proof (induction s p t rule: replace_leftmost.induct)
  case (1 s p t)
  then show ?case
    by (subst replace_leftmost.simps)
      (auto simp: replace_none replace_first split: option.split)
qed

lemma replace_skip:
  "p \<noteq> [] \<Longrightarrow> (\<And>j. j < length u \<Longrightarrow> \<not> prefix p (drop j (u @ s))) \<Longrightarrow>
   replace_all (u @ s) p t = u @ replace_all s p t"
  by (cases "str_find s p") (simp_all add: str_find_skip replace_none replace_first)

lemma replace_here: "p \<noteq> [] \<Longrightarrow> replace_all (p @ s) p t = t @ replace_all s p t"
  by (simp add: replace_first)

lemma replace_absent: "p \<noteq> [] \<Longrightarrow> hd p \<notin> set s \<Longrightarrow> replace_all s p t = s"
  using str_find_skip_hd[of "hd p" s "[]" "tl p"] by (simp add: replace_none)

lemma replace_nil: "p \<noteq> [] \<Longrightarrow> replace_all [] p t = []"
  by (simp add: replace_none)

text \<open>A byte that is not part of the pattern separates the replacements.\<close>

lemma replace_separated:
  "c \<notin> set p \<Longrightarrow> p \<noteq> [] \<Longrightarrow> replace_all (u @ c # v) p t = replace_all u p t @ c # replace_all v p t"
proof (induction "length u" arbitrary: u rule: less_induct)
  case less
  show ?case
  proof (cases "str_find u p")
    case None
    then have "replace_all u p t = u" using less.prems by (simp add: replace_none)
    moreover have "replace_all (u @ c # v) p t = u @ c # replace_all v p t"
      using less.prems None str_find_before[OF less.prems(1), of u v]
      by (cases "str_find v p") (simp_all add: replace_none replace_first)
    ultimately show ?thesis by simp
  next
    case (Some i)
    then have i: "i + length p \<le> length u" using str_find_SomeD[OF Some] by simp
    then have "length (drop (i + length p) u) < length u" using less.prems(2) by (cases p) auto
    from less.hyps[OF this less.prems] show ?thesis
      using Some i less.prems str_find_before[OF less.prems(1), of u v] by (simp add: replace_first)
  qed
qed

text \<open>A word between two such bytes in which the pattern does not occur stays.\<close>

lemma replace_around:
  "c \<notin> set p \<Longrightarrow> d \<notin> set p \<Longrightarrow> p \<noteq> [] \<Longrightarrow> \<not> sublist p m \<Longrightarrow>
   replace_all (u @ c # m @ d # v) p t = replace_all u p t @ c # m @ d # replace_all v p t"
  by (simp add: replace_separated replace_none str_find_None_iff)

lemma replace_between:
  "c \<notin> set p \<Longrightarrow> d \<notin> set p \<Longrightarrow> p \<noteq> [] \<Longrightarrow>
   replace_all (u @ c # p @ d # v) p t = replace_all u p t @ c # t @ d # replace_all v p t"
  using replace_here[of p "[]" t] by (simp add: replace_separated replace_nil)

end

interpretation leftmost: boost_replace replace_leftmost
proof (unfold_locales, goal_cases)
  case (1 p s t)
  then show ?case by (subst replace_leftmost.simps) simp
next
  case (2 p s i t)
  then show ?case by (subst replace_leftmost.simps) simp
qed

locale boost_strings = boost_split + boost_replace

interpretation boost_ref: boost_strings split_compress replace_leftmost
  by unfold_locales

end
