(* ===== verification/Request.thy ===== *)
theory Request
  imports Boost_Strings
begin

text \<open>
  \<^verbatim>\<open>src/request.cc\<close>, \<^verbatim>\<open>include/request.h\<close>: a request object built from the bytes of the
  connection. \<open>boost::split\<close> is the parameter \<open>split\<close>. Parsing works on the object in place
  and may stop half way, so the operations return the verdict with the changed object.
\<close>

record request =
  req_raw :: string
  req_method :: string
  req_uri_path :: string
  req_http_version :: string
  req_body :: string
  req_header_fields :: "(string \<times> string) list"

definition new_Request :: "string \<Rightarrow> request" where
  "new_Request req = \<lparr>req_raw = req, req_method = '''', req_uri_path = '''',
     req_http_version = '''', req_body = '''', req_header_fields = []\<rparr>"

text \<open>\<^verbatim>\<open>Request::check_first_request_line\<close>\<close>

definition check_first_request_line ::
  "((char \<Rightarrow> bool) \<Rightarrow> string \<Rightarrow> string list) \<Rightarrow> string \<Rightarrow> request \<Rightarrow> bool \<times> request" where
  "check_first_request_line split req_line r =
     (let req_comps = split (\<lambda>c. c \<in> set '' '') req_line in
      if length req_comps \<noteq> 3 then (False, r)
      else if req_comps ! 0 \<noteq> ''GET'' \<and> req_comps ! 0 \<noteq> ''POST'' then (False, r)
      else if str_find (req_comps ! 2) ''HTTP/1.1'' = None then (False, r)
      else (True, r\<lparr>req_method := req_comps ! 0, req_uri_path := req_comps ! 1,
                    req_http_version := req_comps ! 2\<rparr>))"

text \<open>The body of the loop over the header lines: a line without \<open>: \<close> is skipped.\<close>

definition header_field_of :: "string \<Rightarrow> (string \<times> string) list" where
  "header_field_of line =
     (case str_find line '': '' of
        None \<Rightarrow> []
      | Some colon_index \<Rightarrow> [(take colon_index line, drop (colon_index + 2) line)])"

text \<open>
  \<^verbatim>\<open>Request::parse_request\<close>. The lines between the first and the last one are the header
  fields, the last one is the body. \<^verbatim>\<open>req_lines[0]\<close> is undefined when there is no line.
\<close>

definition parse_request ::
  "((char \<Rightarrow> bool) \<Rightarrow> string \<Rightarrow> string list) \<Rightarrow> request \<Rightarrow> (bool \<times> request) res" where
  "parse_request split r =
     (let has_crlf = (str_find (req_raw r) (crlf @ crlf) \<noteq> None) in
      if \<not> has_crlf \<and> str_find (req_raw r) [CHR 0x0A] = None then Inr (False, r)
      else
        let req_lines = (if has_crlf then split (\<lambda>c. c \<in> set (crlf @ crlf)) (req_raw r)
                         else split (\<lambda>c. c \<in> set [CHR 0x0A]) (req_raw r)) in
        bind_res (vec_at req_lines 0) (\<lambda>req_line.
          case check_first_request_line split req_line r of
            (False, r1) \<Rightarrow> Inr (False, r1)
          | (True, r1) \<Rightarrow>
              Inr (True, r1\<lparr>req_header_fields :=
                              req_header_fields r1 @
                              concat (map header_field_of (butlast (tl req_lines))),
                            req_body := last req_lines\<rparr>)))"

text \<open>\<^verbatim>\<open>Request::request_handler\<close>: a malformed request becomes a request for \<open>/bad\<close>.\<close>

definition request_handler ::
  "((char \<Rightarrow> bool) \<Rightarrow> string \<Rightarrow> string list) \<Rightarrow> string \<Rightarrow> request res" where
  "request_handler split raw_req =
     bind_res (parse_request split (new_Request raw_req)) (\<lambda>(ok, r).
       if ok then Inr r
       else Inr (r\<lparr>req_method := ''GET'', req_uri_path := ''/bad'',
                   req_http_version := ''HTTP/1.1''\<rparr>))"

section \<open>What parsing gives\<close>

text \<open>The bytes of a request with the given parts.\<close>

definition render_request ::
  "string \<Rightarrow> string \<Rightarrow> string \<Rightarrow> (string \<times> string) list \<Rightarrow> string \<Rightarrow> string" where
  "render_request m p v hs b =
     m @ '' '' @ p @ '' '' @ v @ crlf @ concat (map field hs) @ crlf @ b"

lemma rendered_crlf: "str_find (render_request m p v hs b) (crlf @ crlf) \<noteq> None"
proof -
  obtain u where u: "render_request m p v hs b = u @ (crlf @ crlf) @ b"
    by (cases hs rule: rev_cases) (auto simp: render_request_def field_def)
  show ?thesis unfolding u by (rule str_find_app_None)
qed

definition word_text :: "string \<Rightarrow> bool" where
  "word_text w \<longleftrightarrow> w \<noteq> [] \<and> one_line w \<and> CHR '' '' \<notin> set w"

definition field_text :: "string \<times> string \<Rightarrow> bool" where
  "field_text h \<longleftrightarrow> one_line (fst h) \<and> CHR '':'' \<notin> set (fst h) \<and> one_line (snd h)"

text \<open>A first line the server takes.\<close>

definition request_line_ok :: "string list \<Rightarrow> bool" where
  "request_line_ok ws \<longleftrightarrow> length ws = 3 \<and> (ws ! 0 = ''GET'' \<or> ws ! 0 = ''POST'') \<and>
     sublist ''HTTP/1.1'' (ws ! 2)"

lemma check_first_request_line_iff:
  "check_first_request_line split l r =
     (if request_line_ok (split (\<lambda>c. c \<in> set '' '') l)
      then let ws = split (\<lambda>c. c \<in> set '' '') l in
        (True, r\<lparr>req_method := ws ! 0, req_uri_path := ws ! 1, req_http_version := ws ! 2\<rparr>)
      else (False, r))"
  by (auto simp: check_first_request_line_def request_line_ok_def str_find_None_iff Let_def)

lemma header_field_of_field:
  "CHR '':'' \<notin> set k \<Longrightarrow> header_field_of (k @ '': '' @ v) = [(k, v)]"
  by (simp add: header_field_of_def str_find_skip_hd[of "CHR '':''" k _ "'' ''", simplified])

definition is_newline :: "char \<Rightarrow> bool" where
  "is_newline c \<longleftrightarrow> c \<in> set (crlf @ crlf)"

lemma one_line_iff: "one_line s \<longleftrightarrow> (\<forall>c\<in>set s. \<not> is_newline c)"
  by (auto simp: one_line_def is_newline_def crlf_def)

lemma newline_crlf: "c \<in> set crlf \<Longrightarrow> is_newline c"
  by (simp add: is_newline_def)

lemma one_line_hd: "one_line s \<Longrightarrow> s = [] \<or> \<not> is_newline (hd s)"
  by (cases s) (auto simp: one_line_iff)

lemma word_text_hd: "word_text s \<Longrightarrow> s @ t = [] \<or> \<not> hd (s @ t) \<in> set '' ''"
  by (cases s) (auto simp: word_text_def)

text \<open>The pieces of a split are parts of the text without separators, and the last one ends it.\<close>

text \<open>The last piece is what follows the last separator.\<close>

lemma split_result_last:
  "split_result P s ts \<Longrightarrow> ts \<noteq> [] \<and> last ts = rev (takeWhile (\<lambda>c. \<not> P c) (rev s))"
proof (induction rule: split_result.induct)
  case (last_piece t)
  then have "takeWhile (\<lambda>c. \<not> P c) (rev t) = rev t" by (simp add: takeWhile_eq_all_conv)
  then show ?case unfolding last.simps by (simp only: rev_rev_ident) simp
next
  case (piece t g r ts)
  have "takeWhile (\<lambda>c. \<not> P c) (rev g @ rev t) = []"
    using piece.hyps(2,3) by (cases g rule: rev_cases) auto
  then have "takeWhile (\<lambda>c. \<not> P c) (rev r @ rev g @ rev t) = takeWhile (\<lambda>c. \<not> P c) (rev r @ [])"
    by (simp only: takeWhile_append takeWhile.simps)
  with piece.IH show ?case by simp
qed

text \<open>The pieces before the last one, and those among them behind the first.\<close>

lemma beyond_piece:
  assumes "t0 @ g @ r = w @ t @ v" and "w \<noteq> []" and "P (last w)" and "t \<noteq> []" and "\<not> P (hd t)"
    and "\<forall>c\<in>set t0. \<not> P c" and "\<forall>c\<in>set g. P c"
  obtains w' where "w = t0 @ g @ w'" "r = w' @ t @ v"
proof -
  consider us where "t0 @ g = w @ us" "us @ r = t @ v" | us where "t0 @ g @ us = w" "r = us @ t @ v"
    using append_eq_append_conv2[of "t0 @ g" r w "t @ v"] assms(1) by auto
  then show thesis
  proof cases
    case (1 us)
    show thesis
    proof (cases "us = []")
      case False
      then have us: "\<not> P (hd us)" using 1(2) assms(4,5) by (cases us; cases t) auto
      consider xs where "t0 = w @ xs" | xs where "w = t0 @ xs" "g = xs @ us"
        using append_eq_append_conv2[of t0 g w us] 1(1) by auto
      then show thesis
      proof cases
        case 1
        then show thesis using assms(2,3,6) last_in_set[of w] by auto
      next
        case 2
        then show thesis using us False assms(7) hd_in_set[of us] by auto
      qed
    qed (use 1 in \<open>auto intro: that[of "[]"]\<close>)
  qed (auto intro: that)
qed

lemma split_result_before_last:
  assumes "split_result P s ts" and "t \<noteq> []"
  shows "t \<in> set (butlast ts) \<longleftrightarrow>
    (\<forall>c\<in>set t. \<not> P c) \<and> (\<exists>u b v. s = u @ t @ b # v \<and> (u = [] \<or> P (last u)) \<and> P b)"
  using assms(1)
proof (induction rule: split_result.induct)
  case (last_piece t)
  then show ?case by auto
next
  case (piece t0 g r ts)
  obtain b g' where g: "g = b # g'" "P b" using piece.hyps(2,3) by (cases g) auto
  have ts: "ts \<noteq> []" using piece.hyps(5) split_result_last by blast
  show ?case (is "?in \<longleftrightarrow> ?inner")
  proof
    assume ?in
    then consider "t = t0" | "t \<in> set (butlast ts)" using ts by auto
    then show ?inner
    proof cases
      case 1
      with g piece.hyps(1) show ?thesis by (intro conjI ballI exI[of _ "[]"]) auto
    next
      case 2
      then obtain u c v where "\<forall>c\<in>set t. \<not> P c" "r = u @ t @ c # v" "u = [] \<or> P (last u)" "P c"
        using piece.IH by blast
      moreover from this(3) piece.hyps(2,3) have "P (last (t0 @ g @ u))" by (cases "u = []") auto
      moreover from calculation(2) have "t0 @ g @ r = (t0 @ g @ u) @ t @ c # v" by simp
      ultimately show ?thesis by blast
    qed
  next
    assume ?inner
    then obtain u c v where t: "\<forall>c\<in>set t. \<not> P c" and s: "t0 @ g @ r = u @ t @ c # v"
      and u: "u = [] \<or> P (last u)" and c: "P c" by blast
    show ?in
    proof (cases "u = []")
      case True
      have "takeWhile (\<lambda>c. \<not> P c) (t0 @ g @ r) = t0" "takeWhile (\<lambda>c. \<not> P c) (t @ c # v) = t"
        using piece.hyps(1) g t c by (auto simp: takeWhile_append takeWhile_eq_all_conv)
      with s True have "t = t0" by simp
      with ts show ?thesis by simp
    next
      case False
      have "\<not> P (hd t)" using t assms(2) by simp
      with False u obtain w where "r = w @ t @ c # v" "u = t0 @ g @ w"
        using beyond_piece[OF s False _ assms(2), where P = P] piece.hyps(1,3) by blast
      moreover have "P (last u)" using u False by blast
      with calculation(2) have "w = [] \<or> P (last w)" by (cases "w = []") simp_all
      ultimately have "t \<in> set (butlast ts)" using piece.IH t c by blast
      with ts show ?thesis by simp
    qed
  qed
qed

lemma split_result_inner:
  assumes "split_result P s ts" and "t \<noteq> []"
  shows "t \<in> set (butlast (tl ts)) \<longleftrightarrow>
    (\<forall>c\<in>set t. \<not> P c) \<and> (\<exists>u a b v. s = u @ a # t @ b # v \<and> P a \<and> P b)"
  using assms(1)
proof cases
  case last_piece
  then show ?thesis by auto
next
  case (piece t0 g r ts')
  have "(\<exists>u b v. r = u @ t @ b # v \<and> (u = [] \<or> P (last u)) \<and> P b) \<longleftrightarrow>
      (\<exists>u a b v. s = u @ a # t @ b # v \<and> P a \<and> P b)" if t: "\<forall>c\<in>set t. \<not> P c"
  proof
    assume "\<exists>u b v. r = u @ t @ b # v \<and> (u = [] \<or> P (last u)) \<and> P b"
    then obtain u b v where r: "r = u @ t @ b # v" "u = [] \<or> P (last u)" "P b" by blast
    have "g @ u \<noteq> []" "P (last (g @ u))" using piece(4,5) r(2) by (cases "u = []"; simp)+
    then have "g @ u = butlast (g @ u) @ [last (g @ u)]" by (intro append_butlast_last_id[symmetric])
    then have "s = (t0 @ butlast (g @ u)) @ last (g @ u) # t @ b # v"
      using piece(1) r(1) by (metis append_assoc append_Cons append_Nil)
    with r(3) \<open>P (last (g @ u))\<close> show "\<exists>u a b v. s = u @ a # t @ b # v \<and> P a \<and> P b" by blast
  next
    assume "\<exists>u a b v. s = u @ a # t @ b # v \<and> P a \<and> P b"
    then obtain u a b v where s: "t0 @ g @ r = (u @ [a]) @ t @ b # v" "P a" "P b" using piece(1) by auto
    have "\<not> P (hd t)" using t assms(2) by simp
    with s(2) obtain w where w: "u @ [a] = t0 @ g @ w" "r = w @ t @ b # v"
      using beyond_piece[OF s(1) _ _ assms(2), where P = P] piece(3,5) by auto
    from w(1) s(2) have "w = [] \<or> P (last w)" by (cases w rule: rev_cases) (auto simp flip: append_assoc)
    with w(2) s(3) show "\<exists>u b v. r = u @ t @ b # v \<and> (u = [] \<or> P (last u)) \<and> P b" by blast
  qed
  then show ?thesis
    unfolding piece(2) list.sel split_result_before_last[OF piece(7) assms(2)] by blast
qed

context boost_split
begin

lemma split_lines:
  assumes "ls \<noteq> []" and "\<And>l. l \<in> set ls \<Longrightarrow> one_line l" and "\<And>l. l \<in> set (tl ls) \<Longrightarrow> l \<noteq> []"
    and "one_line b"
  shows "split is_newline (concat (map (\<lambda>l. l @ crlf) ls) @ crlf @ b) = ls @ [b]"
  using assms(1-3)
proof (induction ls rule: list_nonempty_induct)
  case (single l)
  have l: "\<forall>c\<in>set l. \<not> is_newline c" and b: "\<forall>c\<in>set b. \<not> is_newline c"
    using single assms(4) by (simp_all add: one_line_iff)
  have "split is_newline (l @ (crlf @ crlf) @ b) = l # split is_newline b"
    by (rule split_step[OF l _ _ one_line_hd[OF assms(4)]]) (auto simp: newline_crlf, simp add: crlf_def)
  with split_one[of b is_newline, OF b] show ?case by simp
next
  case (cons l ls)
  obtain l' ls' where ls: "ls = l' # ls'" and l': "l' \<noteq> []" "one_line l'"
    using cons by (cases ls) auto
  let ?r = "concat (map (\<lambda>l. l @ crlf) ls) @ crlf @ b"
  have "hd ?r = hd l'" using ls l' by simp
  then have r: "?r = [] \<or> \<not> is_newline (hd ?r)" using l' one_line_hd[OF l'(2)] by simp
  have l: "\<forall>c\<in>set l. \<not> is_newline c"
    using cons.prems(1)[of l] by (simp add: one_line_iff)
  have "split is_newline (l @ crlf @ ?r) = l # split is_newline ?r"
    by (rule split_step[OF l _ _ r]) (auto simp: newline_crlf, simp add: crlf_def)
  moreover have "split is_newline ?r = ls @ [b]"
    using cons.prems ls by (intro cons.IH) auto
  ultimately show ?case by simp
qed

lemma split_words:
  assumes "word_text m" and "word_text p" and "word_text v"
  shows "split (\<lambda>c. c \<in> set '' '') (m @ '' '' @ p @ '' '' @ v) = [m, p, v]"
proof -
  let ?P = "\<lambda>c. c \<in> set '' ''"
  have "split ?P (m @ '' '' @ p @ '' '' @ v) = m # split ?P (p @ '' '' @ v)"
    by (rule split_step) (use assms(1) word_text_hd[OF assms(2)] in \<open>auto simp: word_text_def\<close>)
  also have "split ?P (p @ '' '' @ v) = p # split ?P v"
    by (rule split_step)
      (use assms(2) word_text_hd[OF assms(3), of "[]"] in \<open>auto simp: word_text_def\<close>)
  also have "split ?P v = [v]"
    by (rule split_one) (use assms(3) in \<open>auto simp: word_text_def\<close>)
  finally show ?thesis .
qed

lemma request_roundtrip:
  assumes "m = ''GET'' \<or> m = ''POST''" and "word_text p" and "word_text v"
    and "sublist ''HTTP/1.1'' v" and "\<forall>h\<in>set hs. field_text h" and "one_line b"
  shows "request_handler split (render_request m p v hs b) =
    Inr \<lparr>req_raw = render_request m p v hs b, req_method = m, req_uri_path = p,
         req_http_version = v, req_body = b, req_header_fields = hs\<rparr>"
proof -
  let ?line = "m @ '' '' @ p @ '' '' @ v"
  let ?ls = "?line # map (\<lambda>h. fst h @ '': '' @ snd h) hs"
  have m: "word_text m" using assms(1) by (auto simp: word_text_def)
  have raw: "render_request m p v hs b = concat (map (\<lambda>l. l @ crlf) ?ls) @ crlf @ b"
    by (simp add: render_request_def comp_def field_def[abs_def])
  note crlf = rendered_crlf[of m p v hs b]
  have "split is_newline (render_request m p v hs b) = ?ls @ [b]"
    unfolding raw using m assms
    by (intro split_lines) (auto simp: word_text_def field_text_def)
  then have lines: "split (\<lambda>c. c \<in> set (crlf @ crlf)) (render_request m p v hs b) = ?ls @ [b]"
    by (simp add: is_newline_def[abs_def])
  have fields: "concat (map header_field_of (map (\<lambda>h. fst h @ '': '' @ snd h) hs)) = hs"
    using assms(5) by (induction hs) (auto simp: header_field_of_field[simplified] field_text_def)
  show ?thesis
    using crlf lines fields split_words[OF m assms(2,3)] assms(1,4)
    by (simp add: request_handler_def parse_request_def new_Request_def vec_at_def
        check_first_request_line_iff request_line_ok_def butlast_append)
qed

lemma split_three:
  assumes "split P s = [a, b, c]"
  obtains g1 g2 where "s = a @ g1 @ b @ g2 @ c" "g1 \<noteq> []" "g2 \<noteq> []" "\<forall>x\<in>set (g1 @ g2). P x"
    "\<forall>x\<in>set (a @ b @ c). \<not> P x" "b \<noteq> []"
proof -
  have "split_result P s [a, b, c]" using split_doc[of P s] assms by simp
  then obtain g1 r1 where 1: "s = a @ g1 @ r1" "g1 \<noteq> []" "\<forall>x\<in>set g1. P x" "\<forall>x\<in>set a. \<not> P x"
    "r1 = [] \<or> \<not> P (hd r1)" "split_result P r1 [b, c]"
    by (cases rule: split_result.cases) auto
  from 1(6) obtain g2 r2 where 2: "r1 = b @ g2 @ r2" "g2 \<noteq> []" "\<forall>x\<in>set g2. P x" "\<forall>x\<in>set b. \<not> P x"
    "split_result P r2 [c]"
    by (cases rule: split_result.cases) auto
  from 2(5) have 3: "r2 = c" "\<forall>x\<in>set c. \<not> P x"
    by (cases rule: split_result.cases; auto elim: split_result.cases)+
  have "b \<noteq> []"
  proof
    assume "b = []"
    then have "r1 \<noteq> []" "hd r1 = hd g2" using 2(1,2) by simp_all
    with 1(5) 2(2,3) show False by (cases g2) auto
  qed
  with 1 2 3 show thesis by (intro that[of g1 g2]) auto
qed

lemma parse_request_total: "\<exists>ok r1. parse_request split r = Inr (ok, r1)"
  using split_nonempty
  by (auto simp: parse_request_def vec_at_def Let_def split: prod.split bool.split)

lemma request_handler_total: "\<exists>r. request_handler split raw = Inr r"
proof -
  obtain ok r1 where "parse_request split (new_Request raw) = Inr (ok, r1)"
    using parse_request_total by blast
  then show ?thesis by (cases ok) (simp_all add: request_handler_def)
qed

end

section \<open>What a request may look like\<close>

text \<open>
  The first line of a request the server takes, in the bytes of the connection: a method, a path and a
  version with blanks between them, and then the end of the line.
\<close>

definition first_line :: "string \<Rightarrow> string \<Rightarrow> string \<Rightarrow> string \<Rightarrow> bool" where
  "first_line raw m p v \<longleftrightarrow> (m = ''GET'' \<or> m = ''POST'') \<and> word_text p \<and> word_text v \<and> sublist ''HTTP/1.1'' v \<and>
     (\<exists>g1 g2 rest. raw = m @ g1 @ p @ g2 @ v @ rest \<and> g1 \<noteq> [] \<and> g2 \<noteq> [] \<and> set (g1 @ g2) \<subseteq> {CHR '' ''} \<and>
       (rest = [] \<or> hd rest \<in> set crlf))"

lemma first_line_words:
  assumes "boost_split split"
  shows "first_line raw m p v \<longleftrightarrow>
    (let ws = split (\<lambda>c. c \<in> set '' '') (takeWhile (\<lambda>c. \<not> is_newline c) raw) in request_line_ok ws \<and> ws = [m, p, v])"
    (is "_ \<longleftrightarrow> (let ws = split ?P ?line in _)")
proof
  assume "first_line raw m p v"
  then obtain g1 g2 rest where l: "m = ''GET'' \<or> m = ''POST''" "word_text p" "word_text v" "sublist ''HTTP/1.1'' v"
    "raw = m @ g1 @ p @ g2 @ v @ rest" "g1 \<noteq> []" "g2 \<noteq> []" "set (g1 @ g2) \<subseteq> {CHR '' ''}" "rest = [] \<or> hd rest \<in> set crlf"
    unfolding first_line_def by blast
  have m: "word_text m" using l(1) by (auto simp: word_text_def)
  have "\<forall>c\<in>set (m @ g1 @ p @ g2 @ v). \<not> is_newline c"
    using m l(2,3,8) by (auto simp: word_text_def one_line_iff) (auto simp: is_newline_def crlf_def)
  moreover have "takeWhile (\<lambda>c. \<not> is_newline c) rest = []" using l(9) by (cases rest) (auto simp: newline_crlf)
  ultimately have "takeWhile (\<lambda>c. \<not> is_newline c) ((m @ g1 @ p @ g2 @ v) @ rest) = m @ g1 @ p @ g2 @ v"
    by (subst takeWhile_append2) auto
  then have line: "?line = m @ g1 @ p @ g2 @ v" using l(5) by simp
  have "split ?P (m @ g1 @ (p @ g2 @ v)) = m # split ?P (p @ g2 @ v)"
    using m l(6,8) word_text_hd[OF l(2), of "g2 @ v"]
    by (intro boost_split.split_step[OF assms]) (auto simp: word_text_def)
  also have "split ?P (p @ g2 @ v) = p # split ?P v"
    using l(2,7,8) word_text_hd[OF l(3), of "[]"]
    by (intro boost_split.split_step[OF assms]) (auto simp: word_text_def)
  also have "split ?P v = [v]"
    using l(3) by (intro boost_split.split_one[OF assms]) (auto simp: word_text_def)
  finally show "let ws = split ?P ?line in request_line_ok ws \<and> ws = [m, p, v]"
    using l(1,4) by (simp add: line request_line_ok_def)
next
  assume "let ws = split ?P ?line in request_line_ok ws \<and> ws = [m, p, v]"
  then have ws: "split ?P ?line = [m, p, v]" "m = ''GET'' \<or> m = ''POST''" "sublist ''HTTP/1.1'' v"
    by (auto simp: Let_def request_line_ok_def)
  from ws(1) obtain g1 g2 where l: "?line = m @ g1 @ p @ g2 @ v" "g1 \<noteq> []" "g2 \<noteq> []" "\<forall>x\<in>set (g1 @ g2). ?P x"
    "\<forall>x\<in>set (m @ p @ v). \<not> ?P x" "p \<noteq> []"
    by (rule boost_split.split_three[OF assms])
  have "\<forall>c\<in>set ?line. \<not> is_newline c" by (auto dest: set_takeWhileD)
  then have "one_line p" "one_line v" unfolding l(1) by (simp_all add: one_line_iff)
  moreover have "v \<noteq> []" using ws(3) by auto
  ultimately have word: "word_text p" "word_text v" using l(5,6) by (auto simp: word_text_def)
  let ?rest = "dropWhile (\<lambda>c. \<not> is_newline c) raw"
  have raw: "raw = m @ g1 @ p @ g2 @ v @ ?rest"
    using l(1) takeWhile_dropWhile_id[of "\<lambda>c. \<not> is_newline c" raw] by simp
  have rest: "?rest = [] \<or> hd ?rest \<in> set crlf"
    using hd_dropWhile[of "\<lambda>c. \<not> is_newline c" raw] by (auto simp: is_newline_def)
  have "set (g1 @ g2) \<subseteq> {CHR '' ''}" using l(4) by auto
  with ws(2,3) word raw rest l(2,3) show "first_line raw m p v" unfolding first_line_def by blast
qed

lemma header_field_of_iff: "(k, x) \<in> set (header_field_of l) \<longleftrightarrow> l = k @ '': '' @ x \<and> \<not> sublist '': '' k"
proof
  assume "(k, x) \<in> set (header_field_of l)"
  then obtain i where i: "str_find l '': '' = Some i" and kx: "k = take i l" "x = drop (i + 2) l"
    by (cases "str_find l '': ''") (auto simp: header_field_of_def)
  have l: "l = k @ '': '' @ x" using str_find_SomeD(1)[OF i] by (simp add: kx)
  have len: "length k = i" using str_find_SomeD(2)[OF i] by (simp add: kx)
  have "\<not> sublist '': '' k"
  proof
    assume "sublist '': '' k"
    then obtain u w where k: "k = u @ '': '' @ w" by (auto simp: sublist_def)
    then have "prefix '': '' (drop (length u) l)" unfolding l by simp
    moreover have "length u < i" using len k by simp
    ultimately show False using i unfolding str_find_Some_iff by blast
  qed
  with l show "l = k @ '': '' @ x \<and> \<not> sublist '': '' k" by simp
next
  assume l: "l = k @ '': '' @ x \<and> \<not> sublist '': '' k"
  then obtain i where i: "str_find l '': '' = Some i"
    using str_find_None_iff[of l "'': ''"] sublist_appendI[of "'': ''" k x]
    by (cases "str_find l '': ''") simp_all
  have "\<not> i < length k"
  proof
    assume less: "i < length k"
    have "take 2 (drop i l) = '': ''" using str_find_SomeD(1)[OF i] str_find_SomeD(2)[OF i]
      by (metis append_eq_conv_conj append_take_drop_id length_Cons list.size(3) numeral_2_eq_2 same_append_eq)
    moreover have "drop i l = drop i k @ '': '' @ x" using l less by simp
    moreover obtain c r where "drop i k = c # r" using less by (cases "drop i k") auto
    ultimately have "drop i k = '': '' @ tl r" by (cases r) auto
    then have "k = take i k @ '': '' @ tl r" by (metis append_take_drop_id)
    with l show False by (metis sublist_appendI)
  qed
  moreover have "i \<le> length k" using i l unfolding str_find_Some_iff by (metis append_eq_conv_conj leI prefixI)
  ultimately show "(k, x) \<in> set (header_field_of l)" using i l by (simp add: header_field_of_def)
qed

section \<open>Properties\<close>

text \<open>C23: The bytes of a request with a method GET or POST, a path and a version without blanks, header
  fields whose names hold no colon and a body on one line are parsed into exactly these parts.\<close>

theorem request_parts_recovered:
  assumes "boost_split split" and "m = ''GET'' \<or> m = ''POST''" and "word_text p" and "word_text v"
    and "sublist ''HTTP/1.1'' v" and "\<forall>h\<in>set hs. field_text h" and "one_line b"
  shows "request_handler split (render_request m p v hs b) =
    Inr \<lparr>req_raw = render_request m p v hs b, req_method = m, req_uri_path = p,
         req_http_version = v, req_body = b, req_header_fields = hs\<rparr>"
  using assms by (rule boost_split.request_roundtrip)

theorem request_parts_recovered_witness:
  "request_handler split_compress (render_request ''POST'' ''/meme/new'' ''HTTP/1.1'' [(''Host'', ''h'')] ''a=b'') =
    Inr \<lparr>req_raw = render_request ''POST'' ''/meme/new'' ''HTTP/1.1'' [(''Host'', ''h'')] ''a=b'',
         req_method = ''POST'', req_uri_path = ''/meme/new'', req_http_version = ''HTTP/1.1'',
         req_body = ''a=b'', req_header_fields = [(''Host'', ''h'')]\<rparr>"
  using request_parts_recovered[OF compress.boost_split_axioms, of "''POST''" "''/meme/new''" "''HTTP/1.1''"
    "[(''Host'', ''h'')]" "''a=b''"]
  by (simp add: word_text_def field_text_def)

lemma request_handler_lines:
  assumes "boost_split split" and "str_find raw (crlf @ crlf) \<noteq> None"
  shows "request_handler split raw =
    (let lines = split is_newline raw; ws = split (\<lambda>c. c \<in> set '' '') (takeWhile (\<lambda>c. \<not> is_newline c) raw) in
     if request_line_ok ws
     then Inr \<lparr>req_raw = raw, req_method = ws ! 0, req_uri_path = ws ! 1, req_http_version = ws ! 2,
               req_body = last lines,
               req_header_fields = concat (map header_field_of (butlast (tl lines)))\<rparr>
     else Inr ((new_Request raw)\<lparr>req_method := ''GET'', req_uri_path := ''/bad'',
                 req_http_version := ''HTTP/1.1''\<rparr>))"
  using assms boost_split.split_nonempty[OF assms(1), of is_newline raw] boost_split.split_first[OF assms(1), of is_newline raw]
  by (auto simp: request_handler_def parse_request_def new_Request_def vec_at_def
      check_first_request_line_iff is_newline_def[abs_def] Let_def split: if_splits)

text \<open>A line between two line breaks that is a name, a colon with a blank, and a value.\<close>

definition field_at :: "string \<Rightarrow> string \<Rightarrow> string \<Rightarrow> bool" where
  "field_at raw k x \<longleftrightarrow> one_line k \<and> one_line x \<and> \<not> sublist '': '' k \<and>
     (\<exists>u a b v. raw = u @ [a] @ (k @ '': '' @ x) @ [b] @ v \<and> {a, b} \<subseteq> set crlf)"

lemma header_fields_iff:
  assumes "boost_split split"
  shows "(k, x) \<in> set (concat (map header_field_of (butlast (tl (split is_newline raw))))) \<longleftrightarrow> field_at raw k x"
proof -
  let ?l = "k @ '': '' @ x"
  have "(k, x) \<in> set (concat (map header_field_of (butlast (tl (split is_newline raw))))) \<longleftrightarrow>
      ?l \<in> set (butlast (tl (split is_newline raw))) \<and> \<not> sublist '': '' k"
    by (auto simp: header_field_of_iff)
  also have "?l \<in> set (butlast (tl (split is_newline raw))) \<longleftrightarrow>
      one_line ?l \<and> (\<exists>u a b v. raw = u @ a # ?l @ b # v \<and> is_newline a \<and> is_newline b)"
    using split_result_inner[OF boost_split.split_doc[OF assms], of ?l is_newline raw] unfolding one_line_iff by simp
  also have "one_line ?l \<longleftrightarrow> one_line k \<and> one_line x" by (auto simp: one_line_def)
  also have "(\<exists>u a b v. raw = u @ a # ?l @ b # v \<and> is_newline a \<and> is_newline b) \<longleftrightarrow>
      (\<exists>u a b v. raw = u @ [a] @ ?l @ [b] @ v \<and> {a, b} \<subseteq> set crlf)" by (simp add: is_newline_def)
  finally show ?thesis unfolding field_at_def by blast
qed

text \<open>C30: Every input with an empty line (the session waits for one) is parsed. If it starts with a line of a
  method GET or POST, a path and a version with HTTP/1.1, these are the parts of the request, its header
  fields are the names and values of exactly the lines between two line breaks that hold a colon with a
  blank, the name up to the first of these, and its body is what follows the last line break. If not, it
  is a request for /bad with no fields and no body.\<close>

theorem request_always_routable:
  assumes "boost_split split" and "sublist (crlf @ crlf) raw"
  shows "\<exists>q. request_handler split raw = Inr q \<and> req_raw q = raw \<and>
    (\<forall>m p v. first_line raw m p v \<longrightarrow> req_method q = m \<and> req_uri_path q = p \<and> req_http_version q = v \<and>
       (\<forall>k x. (k, x) \<in> set (req_header_fields q) \<longleftrightarrow> field_at raw k x) \<and>
       req_body q = rev (takeWhile (\<lambda>c. c \<notin> set crlf) (rev raw))) \<and>
    ((\<nexists>m p v. first_line raw m p v) \<longrightarrow> q = \<lparr>req_raw = raw, req_method = ''GET'', req_uri_path = ''/bad'',
       req_http_version = ''HTTP/1.1'', req_body = [], req_header_fields = []\<rparr>)"
proof -
  let ?lines = "split is_newline raw" and ?ws = "split (\<lambda>c. c \<in> set '' '') (takeWhile (\<lambda>c. \<not> is_newline c) raw)"
  have "str_find raw (crlf @ crlf) \<noteq> None" using assms(2) by (simp add: str_find_None_iff)
  note handler = request_handler_lines[OF assms(1) this]
  note words = first_line_words[OF assms(1), of raw, unfolded Let_def]
  have newline: "\<not> is_newline c \<longleftrightarrow> c \<notin> set crlf" for c by (simp add: is_newline_def)
  have body: "last ?lines = rev (takeWhile (\<lambda>c. c \<notin> set crlf) (rev raw))"
    using split_result_last[OF boost_split.split_doc[OF assms(1)], of is_newline raw] unfolding newline by simp
  show ?thesis
  proof (cases "request_line_ok ?ws")
    case True
    then obtain x y z where ws: "?ws = [x, y, z]"
      by (auto simp: request_line_ok_def eval_nat_numeral length_Suc_conv)
    have line: "first_line raw m p v \<longleftrightarrow> m = ?ws ! 0 \<and> p = ?ws ! 1 \<and> v = ?ws ! 2" for m p v
      using words[of m p v] True unfolding ws by auto
    define q where "q = \<lparr>req_raw = raw, req_method = ?ws ! 0, req_uri_path = ?ws ! 1, req_http_version = ?ws ! 2,
      req_body = last ?lines, req_header_fields = concat (map header_field_of (butlast (tl ?lines)))\<rparr>"
    have "request_handler split raw = Inr q" using handler True by (simp only: Let_def if_True q_def)
    moreover have fields: "\<forall>k x. (k, x) \<in> set (req_header_fields q) \<longleftrightarrow> field_at raw k x"
      unfolding q_def request.simps header_fields_iff[OF assms(1)] by blast
    moreover have "req_raw q = raw" "req_body q = rev (takeWhile (\<lambda>c. c \<notin> set crlf) (rev raw))"
      using body by (simp_all only: q_def request.simps)
    moreover have first: "first_line raw m p v \<longleftrightarrow> m = req_method q \<and> p = req_uri_path q \<and> v = req_http_version q" for m p v
      unfolding line q_def request.simps by (rule refl)
    moreover from first have "\<exists>m p v. first_line raw m p v" by blast
    ultimately show ?thesis by (intro exI[of _ q] conjI allI impI) (simp_all only: simp_thms)
  next
    case False
    then have "\<nexists>m p v. first_line raw m p v" using words by metis
    with handler False show ?thesis by (simp add: Let_def new_Request_def)
  qed
qed

theorem request_always_routable_witness:
  "\<exists>q. request_handler split_compress (''POST   /a HTTP/1.1'' @ crlf @ ''Host: x: y'' @ crlf @ crlf @ ''b'') = Inr q \<and>
     req_method q = ''POST'' \<and> req_uri_path q = ''/a'' \<and> req_body q = ''b'' \<and>
     (''Host'', ''x: y'') \<in> set (req_header_fields q)"
proof -
  let ?raw = "''POST   /a HTTP/1.1'' @ crlf @ ''Host: x: y'' @ crlf @ crlf @ ''b''"
  have "?raw = ''POST'' @ ''   '' @ ''/a'' @ '' '' @ ''HTTP/1.1'' @ (crlf @ ''Host: x: y'' @ crlf @ crlf @ ''b'')"
    by simp
  moreover have "word_text ''/a''" "word_text ''HTTP/1.1''" "hd (crlf @ ''Host: x: y'' @ crlf @ crlf @ ''b'') \<in> set crlf"
    by (simp_all add: word_text_def crlf_def)
  ultimately have line: "first_line ?raw ''POST'' ''/a'' ''HTTP/1.1''"
    unfolding first_line_def
    by (intro conjI exI[of _ "''   ''"] exI[of _ "'' ''"] exI[of _ "crlf @ ''Host: x: y'' @ crlf @ crlf @ ''b''"]) auto
  have "?raw = (''POST   /a HTTP/1.1'' @ [CHR 0x0D]) @ [CHR 0x0A] @ (''Host'' @ '': '' @ ''x: y'') @ [CHR 0x0D] @
      ([CHR 0x0A] @ crlf @ ''b'')" by (simp add: crlf_def)
  moreover have "one_line ''Host''" "one_line ''x: y''" "\<not> sublist '': '' ''Host''" "{CHR 0x0A, CHR 0x0D} \<subseteq> set crlf"
    by (simp_all add: one_line_def crlf_def flip: str_find_None_iff)
  ultimately have field: "field_at ?raw ''Host'' ''x: y''" unfolding field_at_def by blast
  have body: "rev (takeWhile (\<lambda>c. c \<notin> set crlf) (rev ?raw)) = ''b''" by code_simp
  have "str_find ?raw (crlf @ crlf) \<noteq> None" by code_simp
  then have "sublist (crlf @ crlf) ?raw" unfolding str_find_None_iff by (rule notnotD)
  from request_always_routable[OF compress.boost_split_axioms this] line field show ?thesis
    unfolding body by blast
qed

text \<open>The body of a request is its last line: a body the client sent on several lines is cut to the
  last one.\<close>

theorem request_body_is_last_line:
  assumes "boost_split split" and "m = ''GET'' \<or> m = ''POST''" and "word_text p" and "word_text v"
    and "sublist ''HTTP/1.1'' v" and "b \<noteq> []" and "one_line b" and "one_line b'" and "b' \<noteq> []"
  shows "\<exists>r. request_handler split (render_request m p v [] (b @ crlf @ b')) = Inr r \<and> req_body r = b'"
proof -
  let ?line = "m @ '' '' @ p @ '' '' @ v"
  have raw: "render_request m p v [] (b @ crlf @ b') = ?line @ (crlf @ crlf) @ (b @ crlf @ b')"
    by (simp add: render_request_def)
  have m: "word_text m" using assms(2) by (auto simp: word_text_def)
  have crlf: "str_find (render_request m p v [] (b @ crlf @ b')) (crlf @ crlf) \<noteq> None"
    unfolding raw by (rule str_find_app_None)
  have "split is_newline (b @ crlf @ b') = b # split is_newline b'"
    using assms(7-9) one_line_hd[OF assms(8)]
    by (intro boost_split.split_step[OF assms(1)]) (auto simp: one_line_iff newline_crlf, simp add: crlf_def)
  also have "split is_newline b' = [b']"
    using assms(8) by (intro boost_split.split_one[OF assms(1)]) (simp add: one_line_iff)
  finally have rest: "split is_newline (b @ crlf @ b') = [b, b']" .
  have "split is_newline (?line @ (crlf @ crlf) @ (b @ crlf @ b')) = ?line # split is_newline (b @ crlf @ b')"
  proof (rule boost_split.split_step[OF assms(1)])
    show "\<forall>c\<in>set ?line. \<not> is_newline c"
      using m assms(3,4) by (auto simp: word_text_def one_line_iff) (auto simp: is_newline_def crlf_def)
    show "b @ crlf @ b' = [] \<or> \<not> is_newline (hd (b @ crlf @ b'))"
      using assms(6,7) one_line_hd[OF assms(7)] by simp
  qed (auto simp: newline_crlf, simp add: crlf_def)
  with rest have lines: "split is_newline (render_request m p v [] (b @ crlf @ b')) = [?line, b, b']"
    unfolding raw by simp
  have "request_line_ok [m, p, v]" using assms(2,5) by (simp add: request_line_ok_def)
  then show ?thesis
    using crlf lines boost_split.split_words[OF assms(1) m assms(3,4)]
    by (simp add: request_handler_def parse_request_def new_Request_def vec_at_def
        check_first_request_line_iff is_newline_def[abs_def])
qed

theorem request_body_is_last_line_witness:
  "\<exists>r. request_handler split_compress (render_request ''POST'' ''/'' ''HTTP/1.1'' [] (''one'' @ crlf @ ''two'')) = Inr r \<and>
     req_body r = ''two''"
  using request_body_is_last_line[OF compress.boost_split_axioms, of "''POST''" "''/''" "''HTTP/1.1''" "''one''" "''two''"]
  by (simp add: word_text_def)

end
