(* ===== verification/Response.thy ===== *)
theory Response
  imports Cpp_Prelude
begin

text \<open>
  \<^verbatim>\<open>src/response.cc\<close>, \<^verbatim>\<open>include/response.h\<close>: the response object the handlers fill and the
  bytes it is sent as. The status code and the body are left uninitialised resp. empty by
  the constructor; an uninitialised status is \<open>None\<close>, and printing it is undefined. The three
  size members of the class are never used and are left out.
\<close>

datatype statuscode =
    OK | CREATED | ACCEPTED | NO_CONTENT
  | MULTIPLE_CHOICES | MOVED_PERMANENTLY | MOVED_TEMPORARILY | NOT_MODIFIED
  | BAD_REQUEST | UNAUTHORIZED | FORBIDDEN | NOT_FOUND | UNSUPPORTED_MEDIA_TYPE
  | INTERNAL_SERVER_ERROR | NOT_IMPLEMENTED | BAD_GATEWAY | SERVICE_UNAVAILABLE

fun code_of :: "statuscode \<Rightarrow> nat" where
  "code_of OK = 200"
| "code_of CREATED = 201"
| "code_of ACCEPTED = 202"
| "code_of NO_CONTENT = 204"
| "code_of MULTIPLE_CHOICES = 300"
| "code_of MOVED_PERMANENTLY = 301"
| "code_of MOVED_TEMPORARILY = 302"
| "code_of NOT_MODIFIED = 304"
| "code_of BAD_REQUEST = 400"
| "code_of UNAUTHORIZED = 401"
| "code_of FORBIDDEN = 403"
| "code_of NOT_FOUND = 404"
| "code_of UNSUPPORTED_MEDIA_TYPE = 415"
| "code_of INTERNAL_SERVER_ERROR = 500"
| "code_of NOT_IMPLEMENTED = 501"
| "code_of BAD_GATEWAY = 502"
| "code_of SERVICE_UNAVAILABLE = 503"

record response =
  rsp_status :: "statuscode option"
  rsp_header :: string
  rsp_body :: string

definition new_Response :: response where
  "new_Response = \<lparr>rsp_status = None, rsp_header = '''', rsp_body = ''''\<rparr>"

definition SetStatus :: "statuscode \<Rightarrow> response \<Rightarrow> response" where
  "SetStatus c r = r\<lparr>rsp_status := Some c\<rparr>"

definition SetHeader :: "string \<Rightarrow> string \<Rightarrow> response \<Rightarrow> response" where
  "SetHeader name value r = r\<lparr>rsp_header := rsp_header r @ name @ '': '' @ value @ crlf\<rparr>"

definition ReSetHeader :: "string \<Rightarrow> string \<Rightarrow> response \<Rightarrow> response" where
  "ReSetHeader name value r = r\<lparr>rsp_header := name @ '': '' @ value @ crlf\<rparr>"

definition SetBody :: "string \<Rightarrow> response \<Rightarrow> response" where
  "SetBody value r = r\<lparr>rsp_body := value\<rparr>"

definition getStatusCode :: "response \<Rightarrow> statuscode res" where
  "getStatusCode r = (case rsp_status r of None \<Rightarrow> Inl Undefined | Some c \<Rightarrow> Inr c)"

definition Output :: "response \<Rightarrow> string res" where
  "Output r = (case rsp_status r of
     None \<Rightarrow> Inl Undefined
   | Some c \<Rightarrow> Inr (''HTTP/1.1 '' @ to_string (code_of c) @ crlf @ rsp_header r @ crlf @ rsp_body r))"

lemmas response_ops =
  new_Response_def SetStatus_def SetHeader_def ReSetHeader_def SetBody_def

text \<open>
  The specification of what a handler sends: a status, a list of header fields and a body,
  each field on a line of its own.
\<close>

definition has_fields :: "response \<Rightarrow> statuscode \<Rightarrow> (string \<times> string) list \<Rightarrow> string \<Rightarrow> bool" where
  "has_fields r c hs b \<longleftrightarrow>
     rsp_status r = Some c \<and> rsp_header r = concat (map field hs) \<and> rsp_body r = b"

lemma Output_has_fields:
  "has_fields r c hs b \<Longrightarrow>
   Output r = Inr (''HTTP/1.1 '' @ to_string (code_of c) @ crlf @ concat (map field hs) @ crlf @ b)"
  by (simp add: has_fields_def Output_def)

lemma getStatusCode_has_fields: "has_fields r c hs b \<Longrightarrow> getStatusCode r = Inr c"
  by (simp add: has_fields_def getStatusCode_def)

lemma code_of_inject: "code_of c = code_of d \<longleftrightarrow> c = d"
  by (cases c; cases d) simp_all

text \<open>The status codes in the order of their numbers; from \<open>BAD_REQUEST\<close> on they are errors.\<close>

instantiation statuscode :: linorder
begin

definition less_eq_statuscode :: "statuscode \<Rightarrow> statuscode \<Rightarrow> bool" where
  "less_eq_statuscode c d \<longleftrightarrow> code_of c \<le> code_of d"

definition less_statuscode :: "statuscode \<Rightarrow> statuscode \<Rightarrow> bool" where
  "less_statuscode c d \<longleftrightarrow> code_of c < code_of d"

instance
  by standard (auto simp: less_eq_statuscode_def less_statuscode_def code_of_inject)

end

lemma code_of_range: "200 \<le> code_of c" "code_of c \<le> 503"
  by (cases c; simp)+

lemma code_of_error: "BAD_REQUEST \<le> c \<longleftrightarrow> 400 \<le> code_of c"
  by (simp add: less_eq_statuscode_def)

text \<open>What every handler promises: the length it announces is the length of the body.\<close>

definition well_formed :: "response \<Rightarrow> bool" where
  "well_formed r \<longleftrightarrow> (\<exists>c ty. has_fields r c
     [(''Content-Type'', ty), (''Content-Length'', to_string (length (rsp_body r)))] (rsp_body r))"

text \<open>The sequence of calls with which the handlers build a response.\<close>

definition build_response :: "statuscode \<Rightarrow> string \<Rightarrow> string \<Rightarrow> response" where
  "build_response c ty b =
     SetBody b (SetHeader ''Content-Length'' (to_string (length b))
       (ReSetHeader ''Content-Type'' ty (SetStatus c new_Response)))"

lemma build_response_fields:
  "has_fields (build_response c ty b) c
     [(''Content-Type'', ty), (''Content-Length'', to_string (length b))] b"
  by (simp add: build_response_def has_fields_def response_ops field_def)

lemma build_response_simps [simp]:
  "rsp_status (build_response c ty b) = Some c"
  "rsp_body (build_response c ty b) = b"
  by (simp_all add: build_response_def response_ops)

lemma build_response_sent:
  "Output (build_response c ty b) = Inr (''HTTP/1.1 '' @ to_string (code_of c) @ crlf @
     ''Content-Type: '' @ ty @ crlf @ ''Content-Length: '' @ to_string (length b) @ crlf @ crlf @ b)"
  "getStatusCode (build_response c ty b) = Inr c"
  using build_response_fields[of c ty b]
  by (simp_all add: Output_has_fields getStatusCode_has_fields field_def)

lemma well_formed_build [simp, intro]: "well_formed (build_response c ty b)"
  unfolding well_formed_def using build_response_fields by fastforce

section \<open>The bytes as a client reads them\<close>

text \<open>
  The reader's side: the head ends at the first empty line, the body is what follows it.
\<close>

definition split_message :: "string \<Rightarrow> (string \<times> string) option" where
  "split_message out =
     map_option (\<lambda>i. (take (i + 2) out, drop (i + 4) out)) (str_find out (crlf @ crlf))"

lemma blank_line_skip:
  assumes "one_line l" and "r \<noteq> []" and "hd r \<noteq> CHR 0x0D"
  shows "str_find (l @ crlf @ r) (crlf @ crlf) =
    map_option ((+) (length l + 2)) (str_find r (crlf @ crlf))"
proof -
  have "str_find ((l @ crlf) @ r) (crlf @ crlf) =
      map_option ((+) (length (l @ crlf))) (str_find r (crlf @ crlf))"
  proof (rule str_find_skip)
    fix j assume "j < length (l @ crlf)"
    then consider "j < length l" | "j = length l" | "j = Suc (length l)"
      by (fastforce simp: crlf_def)
    then show "\<not> prefix (crlf @ crlf) (drop j ((l @ crlf) @ r))"
    proof cases
      case 1
      then have "drop j ((l @ crlf) @ r) = l ! j # drop (Suc j) (l @ crlf @ r)"
        by (simp add: Cons_nth_drop_Suc[symmetric] nth_append del: drop_append)
      moreover have "l ! j \<noteq> CHR 0x0D" using 1 assms(1) by (metis nth_mem one_line_def)
      ultimately show ?thesis by (simp add: crlf_def)
    next
      case 2
      with assms(2,3) show ?thesis by (cases r) (simp_all add: crlf_def)
    next
      case 3
      then show ?thesis by (simp add: crlf_def)
    qed
  qed
  then show ?thesis by (simp add: crlf_def)
qed

lemma blank_line_found:
  assumes "ls \<noteq> []"
  shows "\<forall>l\<in>set ls. one_line l \<and> l \<noteq> [] \<Longrightarrow>
    str_find (concat (map (\<lambda>l. l @ crlf) ls) @ crlf @ b) (crlf @ crlf) =
    Some (length (concat (map (\<lambda>l. l @ crlf) ls)) - 2)"
  using assms
proof (induction ls rule: list_nonempty_induct)
  case (single l)
  then have "CHR 0x0D \<notin> set l" by (simp add: one_line_def)
  then have "str_find (l @ crlf @ crlf @ b) (crlf @ crlf) = map_option ((+) (length l)) (Some 0)"
    using str_find_skip_hd[of "CHR 0x0D" l "crlf @ crlf @ b" "CHR 0x0A # crlf"]
    by (simp add: crlf_def)
  then show ?case by (simp add: crlf_def)
next
  case (cons l ls)
  obtain l' ls' where ls: "ls = l' # ls'" "l' \<noteq> []" "one_line l'"
    using cons.hyps cons.prems by (cases ls) auto
  let ?r = "concat (map (\<lambda>l. l @ crlf) ls) @ crlf @ b"
  have "?r \<noteq> []" "hd ?r = hd l'" using ls by simp_all
  moreover have "hd l' \<noteq> CHR 0x0D" using ls by (cases l') auto
  ultimately have "str_find (l @ crlf @ ?r) (crlf @ crlf) =
      map_option ((+) (length l + 2)) (str_find ?r (crlf @ crlf))"
    using cons.prems by (intro blank_line_skip) auto
  with cons.IH cons.prems have found: "str_find (l @ crlf @ ?r) (crlf @ crlf) =
      Some (length l + 2 + (length (concat (map (\<lambda>l. l @ crlf) ls)) - 2))"
    by simp
  have "2 \<le> length (concat (map (\<lambda>l. l @ crlf) ls))" using ls by (simp add: crlf_def)
  with found show ?case by (simp add: crlf_def)
qed

lemma one_line_to_string [simp]: "one_line (to_string n)"
  using to_string_digits[of _ n] by (auto simp: one_line_def is_digit_def)

lemma split_message_Output:
  assumes "has_fields r c hs b" and "\<forall>h\<in>set hs. one_line (fst h) \<and> one_line (snd h)"
  shows "\<exists>out. Output r = Inr out \<and> split_message out =
    Some (''HTTP/1.1 '' @ to_string (code_of c) @ crlf @ concat (map field hs), b)"
proof -
  let ?ls = "(''HTTP/1.1 '' @ to_string (code_of c)) # map (\<lambda>h. fst h @ '': '' @ snd h) hs"
  let ?head = "concat (map (\<lambda>l. l @ crlf) ?ls)"
  have head: "?head = ''HTTP/1.1 '' @ to_string (code_of c) @ crlf @ concat (map field hs)"
    by (simp add: comp_def field_def[abs_def])
  have "str_find (?head @ crlf @ b) (crlf @ crlf) = Some (length ?head - 2)"
    using assms(2) by (intro blank_line_found) auto
  moreover have "2 \<le> length ?head" by (simp add: crlf_def)
  ultimately have "split_message (?head @ crlf @ b) = Some (?head, b)"
    by (simp add: split_message_def del: concat.simps list.map) (simp add: crlf_def)
  then show ?thesis
    using Output_has_fields[OF assms(1)] unfolding head by simp
qed

section \<open>The contract of a request handler\<close>

text \<open>
  \<open>handles i r log\<close>: on input \<open>i\<close> (whatever the handler reads) the handler may return the
  response \<open>r\<close> and have printed the monitoring lines \<open>log\<close> on standard output. Every handler
  of the server returns a complete response whose announced length is right, and the
  response code it reports to the monitoring is the one it sends.
\<close>

definition response_metric :: "string \<Rightarrow> string" where
  "response_metric code = ''::ResponseMetrics:: response_code:'' @ code"

definition logs_status :: "response \<Rightarrow> string list \<Rightarrow> bool" where
  "logs_status r log \<longleftrightarrow> (\<forall>code. response_metric code \<in> set log \<longrightarrow>
     (\<exists>c. rsp_status r = Some c \<and> code = to_string (code_of c)))"

locale handler_contract =
  fixes handles :: "'i \<Rightarrow> response \<Rightarrow> string list \<Rightarrow> bool"
  assumes complete: "handles i r log \<Longrightarrow> well_formed r"
    and logged: "handles i r log \<Longrightarrow> logs_status r log"
begin

lemma output_defined: "handles i r log \<Longrightarrow> \<exists>out c. Output r = Inr out \<and> getStatusCode r = Inr c"
  using complete[of i r log] unfolding well_formed_def
  by (auto dest: Output_has_fields getStatusCode_has_fields)

lemma status_known: "handles i r log \<Longrightarrow> response_metric code \<in> set log \<Longrightarrow>
  \<exists>c. getStatusCode r = Inr c \<and> code = to_string (code_of c)"
  using logged[of i r log] by (auto simp: logs_status_def getStatusCode_def)

end

section \<open>Properties\<close>

text \<open>C32: A client that reads the bytes of a handler's response up to the first empty line gets the status
  line with the two header fields, and what follows is the body, whatever bytes it holds.\<close>

theorem response_framing:
  assumes "one_line ty"
  shows "\<exists>out. Output (build_response c ty b) = Inr out \<and> split_message out =
    Some (''HTTP/1.1 '' @ to_string (code_of c) @ crlf @ ''Content-Type: '' @ ty @ crlf @
          ''Content-Length: '' @ to_string (length b) @ crlf, b)"
  using split_message_Output[OF build_response_fields[of c ty b]] assms by (simp add: field_def)

theorem response_framing_witness:
  "\<exists>out. Output (build_response OK ''text/plain'' (crlf @ crlf)) = Inr out \<and> split_message out =
    Some (''HTTP/1.1 '' @ to_string 200 @ crlf @ ''Content-Type: text/plain'' @ crlf @
          ''Content-Length: '' @ to_string (length (crlf @ crlf)) @ crlf, crlf @ crlf)"
  using response_framing[of "''text/plain''" OK "crlf @ crlf"] by simp

end
