(* ===== verification/Config_Grammar.thy ===== *)
theory Config_Grammar
  imports Config_Parser
begin

text \<open>
  The parser against the grammar of configurations: on token sequences it accepts exactly
  the sequences of well-formed trees, returns the tree of the sequence, and never reaches
  undefined behaviour.
\<close>

section \<open>Completeness: the tokens of a tree are accepted\<close>

lemma starts_end_type [simp]: "starts_statement (end_type s)"
  by (simp add: starts_statement_def end_type_def split: option.split)

lemma run_statements:
  "list_all wf_statement ss \<Longrightarrow> starts_statement lt \<Longrightarrow> 0 \<le> bc \<Longrightarrow>
   run (parser_at (blk # rest) lt bc) (flats ss @ toks) =
   run (parser_at ((blk @ ss) # rest) (if ss = [] then lt else end_type (last ss)) bc) toks"
proof (induction ss arbitrary: blk lt)
  case Nil
  then show ?case by simp
next
  case (Cons s ss)
  then show ?case using run_statement[of s lt bc blk rest "flats ss @ toks"] by simp
qed

abbreviation init_parser :: "config \<Rightarrow> parser" where
  "init_parser config \<equiv> parser_at [config] TOKEN_TYPE_START 0"

lemma run_accepts:
  assumes "c \<noteq> []" and "list_all wf_statement c"
  shows "run (init_parser c0) (flats c @ [(TOKEN_TYPE_EOF, w)]) = Inr (Accepted, [c0 @ c])"
proof -
  have "run (init_parser c0) (flats c @ [(TOKEN_TYPE_EOF, w)]) =
      run (parser_at [c0 @ c] (end_type (last c)) 0) [(TOKEN_TYPE_EOF, w)]"
    using run_statements[OF assms(2), of TOKEN_TYPE_START 0 c0 "[]"] assms(1)
    by (simp add: starts_statement_def)
  then show ?thesis
    by (simp add: parse_step_def Let_def end_type_def split: option.splits)
qed

section \<open>Soundness: an accepted token sequence is the one of the tree\<close>

text \<open>The tokens read so far, recovered from the open blocks.\<close>

definition flat_open :: "config \<Rightarrow> token list" where
  "flat_open blk = flats (butlast blk) @ map (Pair TOKEN_TYPE_NORMAL) (tokens_of (last blk))"

fun outer_tokens :: "config list \<Rightarrow> token list" where
  "outer_tokens [] = []"
| "outer_tokens (blk # rest) = outer_tokens rest @ flat_open blk @ [(TOKEN_TYPE_START_BLOCK, ''{'')]"

definition consumed :: "parser \<Rightarrow> token list" where
  "consumed p = outer_tokens (tl (config_stack p)) @
     (if last_token_type p = TOKEN_TYPE_NORMAL then flat_open (hd (config_stack p))
      else flats (hd (config_stack p)))"

text \<open>
  What the loop keeps: the stack is as deep as there are open braces, every statement has a
  token and every open block but the innermost has a statement; after a word the last
  statement is still open.
\<close>

definition parser_inv :: "parser \<Rightarrow> bool" where
  "parser_inv p \<longleftrightarrow>
     config_stack p \<noteq> [] \<and>
     bracket_count p + 1 = int (length (config_stack p)) \<and>
     (\<forall>blk\<in>set (config_stack p). list_all wf_statement blk) \<and>
     (\<forall>blk\<in>set (tl (config_stack p)). blk \<noteq> []) \<and>
     last_token_type p \<in> {TOKEN_TYPE_START, TOKEN_TYPE_NORMAL, TOKEN_TYPE_START_BLOCK,
       TOKEN_TYPE_STATEMENT_END, TOKEN_TYPE_END_BLOCK} \<and>
     (last_token_type p = TOKEN_TYPE_START \<longrightarrow> length (config_stack p) = 1) \<and>
     (last_token_type p \<in> {TOKEN_TYPE_NORMAL, TOKEN_TYPE_STATEMENT_END, TOKEN_TYPE_END_BLOCK} \<longrightarrow>
        hd (config_stack p) \<noteq> []) \<and>
     (last_token_type p = TOKEN_TYPE_NORMAL \<longrightarrow> child_block (last (hd (config_stack p))) = None)"

text \<open>The value of a token is fixed by its type, but for words (and comments).\<close>

definition lexed :: "token \<Rightarrow> bool" where
  "lexed tw \<longleftrightarrow> (case tw of (t, w) \<Rightarrow>
     (t = TOKEN_TYPE_START_BLOCK \<longrightarrow> w = ''{'') \<and> (t = TOKEN_TYPE_END_BLOCK \<longrightarrow> w = ''}'') \<and>
     (t = TOKEN_TYPE_STATEMENT_END \<longrightarrow> w = '';'') \<and> t \<noteq> TOKEN_TYPE_COMMENT)"

lemma init_parser_inv: "list_all wf_statement c \<Longrightarrow> parser_inv (init_parser c)"
  by (simp add: parser_inv_def)

lemma parser_inv_cases:
  assumes "parser_inv p"
  obtains blk rest lt where "p = parser_at (blk # rest) lt (int (length rest))"
proof -
  obtain blk rest where "config_stack p = blk # rest"
    using assms by (cases "config_stack p") (auto simp: parser_inv_def)
  with assms that show ?thesis
    by (cases p) (auto simp: parser_inv_def)
qed

lemma last_statement_None:
  "blk \<noteq> [] \<Longrightarrow> child_block (last blk) = None \<Longrightarrow>
   blk = butlast blk @ [Statement (tokens_of (last blk)) None]"
  by (metis append_butlast_last_id statement.collapse)

lemma flat_Statement_simps [simp]:
  "flat (Statement ts None) = map (Pair TOKEN_TYPE_NORMAL) ts @ [(TOKEN_TYPE_STATEMENT_END, '';'')]"
  "flat (Statement ts (Some b)) = map (Pair TOKEN_TYPE_NORMAL) ts @
     (TOKEN_TYPE_START_BLOCK, ''{'') # flats b @ [(TOKEN_TYPE_END_BLOCK, ''}'')]"
  by simp_all

text \<open>One step, case by case of the token type.\<close>

lemma step_normal:
  assumes "parser_inv p"
  shows "\<exists>q. parse_step p TOKEN_TYPE_NORMAL w = Inr (Next q) \<and> parser_inv q \<and>
     consumed q = consumed p @ [(TOKEN_TYPE_NORMAL, w)]"
proof -
  obtain blk rest lt where p: "p = parser_at (blk # rest) lt (int (length rest))"
    using assms by (rule parser_inv_cases)
  show ?thesis
  proof (cases "lt = TOKEN_TYPE_NORMAL")
    case True
    then obtain pre ts where "blk = pre @ [Statement ts None]"
      using assms p last_statement_None[of blk] by (auto simp: parser_inv_def)
    with assms p True show ?thesis
      by (simp add: step_defs parser_inv_def consumed_def flat_open_def)
  next
    case False
    with assms p show ?thesis
      by (auto simp: step_defs parser_inv_def consumed_def flat_open_def)
  qed
qed

lemma step_others:
  assumes "parser_inv p" and "parse_step p t w = Inr (Next q)" and "lexed (t, w)"
    and "t \<noteq> TOKEN_TYPE_NORMAL"
  shows "parser_inv q \<and> consumed q = consumed p @ [(t, w)]"
proof -
  obtain blk rest lt where p: "p = parser_at (blk # rest) lt (int (length rest))"
    using assms(1) by (rule parser_inv_cases)
  have "\<not> final_token t" using assms(2) by (rule parse_step_Next)
  then consider "t = TOKEN_TYPE_STATEMENT_END" | "t = TOKEN_TYPE_START_BLOCK"
    | "t = TOKEN_TYPE_END_BLOCK"
    using assms(2-4) by (cases t) (auto simp: final_token_def lexed_def step_defs)
  then show ?thesis
  proof cases
    case 1
    then have "lt = TOKEN_TYPE_NORMAL" using assms p by (auto simp: step_defs split: if_splits)
    moreover obtain pre ts where "blk = pre @ [Statement ts None]"
      using assms(1) p calculation last_statement_None[of blk] by (auto simp: parser_inv_def)
    ultimately show ?thesis using 1 assms p
      by (auto simp: step_defs parser_inv_def consumed_def flat_open_def lexed_def)
  next
    case 2
    then have "lt = TOKEN_TYPE_NORMAL" using assms p by (auto simp: step_defs split: if_splits)
    moreover obtain pre ts where "blk = pre @ [Statement ts None]"
      using assms(1) p calculation last_statement_None[of blk] by (auto simp: parser_inv_def)
    ultimately show ?thesis using 2 assms p
      by (auto simp: step_defs parser_inv_def consumed_def flat_open_def lexed_def)
  next
    case 3
    then have lt: "lt \<noteq> TOKEN_TYPE_NORMAL" "lt \<noteq> TOKEN_TYPE_START" "0 < length rest"
      using assms p by (auto simp: step_defs parser_inv_def split: if_splits)
    then obtain parent rest' where rest: "rest = parent # rest'" by (cases rest) auto
    then have "parent \<noteq> []" using assms(1) p by (auto simp: parser_inv_def)
    then obtain pre s where "parent = pre @ [s]" by (metis append_butlast_last_id)
    with lt rest 3 assms p show ?thesis
      by (cases s) (auto simp: step_defs parser_inv_def consumed_def flat_open_def lexed_def
          split: if_splits)
  qed
qed

lemma step_total: "parser_inv p \<Longrightarrow> \<exists>st. parse_step p t w = Inr st"
proof -
  assume inv: "parser_inv p"
  then obtain blk rest lt where p: "p = parser_at (blk # rest) lt (int (length rest))"
    by (rule parser_inv_cases)
  show ?thesis
    using inv p step_normal[OF inv, of w]
    by (cases t; cases rest) (auto simp: step_defs parser_inv_def)
qed

text \<open>The whole run.\<close>

lemma step_Next_inv:
  assumes "parser_inv p" and "parse_step p t w = Inr (Next q)" and "lexed (t, w)"
  shows "parser_inv q \<and> consumed q = consumed p @ [(t, w)]"
  using step_others[OF assms] step_normal[OF assms(1), of w] assms(2)
  by (cases "t = TOKEN_TYPE_NORMAL") auto

lemma run_total:
  "parser_inv p \<Longrightarrow> list_all lexed ts \<Longrightarrow> final_token t \<Longrightarrow>
   \<exists>r. run p (ts @ [(t, w)]) = Inr r"
proof (induction ts arbitrary: p)
  case Nil
  then show ?case using parse_step_final[of t p w] by auto
next
  case (Cons tw ts)
  obtain t' w' where tw: "tw = (t', w')" by (cases tw)
  obtain st where st: "parse_step p t' w' = Inr st" using step_total Cons.prems(1) by blast
  show ?case
  proof (cases st)
    case (Next q)
    then have "parser_inv q" using step_Next_inv[of p t' w' q] st tw Cons.prems by auto
    with Cons st tw Next show ?thesis by simp
  next
    case (Stop r)
    with st tw show ?thesis by simp
  qed
qed

lemma Accepted_only_at_end:
  assumes "parse_step p t w = Inr (Stop Accepted)"
  shows "t = TOKEN_TYPE_EOF" "bracket_count p = 0"
    "last_token_type p = TOKEN_TYPE_STATEMENT_END \<or> last_token_type p = TOKEN_TYPE_END_BLOCK"
  using assms by (auto simp: step_defs split: if_splits)

lemma run_sound:
  "parser_inv p \<Longrightarrow> list_all lexed ts \<Longrightarrow> list_all (\<lambda>tw. \<not> final_token (fst tw)) ts \<Longrightarrow>
   run p (ts @ [(t, w)]) = Inr (Accepted, stack) \<Longrightarrow>
   \<exists>c. stack = [c] \<and> c \<noteq> [] \<and> list_all wf_statement c \<and> consumed p @ ts = flats c \<and>
       t = TOKEN_TYPE_EOF"
proof (induction ts arbitrary: p)
  case Nil
  then have "parse_step p t w = Inr (Stop Accepted)" and stack: "stack = config_stack p"
    by (auto split: sum.splits loop_step.splits)
  note fin = Accepted_only_at_end[OF this(1)]
  obtain blk rest lt where "p = parser_at (blk # rest) lt (int (length rest))"
    using Nil.prems(1) by (rule parser_inv_cases)
  with fin stack Nil.prems(1) show ?case
    by (auto simp: parser_inv_def consumed_def)
next
  case (Cons tw ts)
  obtain t' w' where tw: "tw = (t', w')" by (cases tw)
  obtain st where st: "parse_step p t' w' = Inr st" using step_total Cons.prems(1) by blast
  show ?case
  proof (cases st)
    case (Next q)
    then have "parser_inv q" "consumed q = consumed p @ [tw]"
      using step_Next_inv[of p t' w' q] st tw Cons.prems by auto
    with Cons.IH[of q] Cons.prems st tw Next show ?thesis by simp
  next
    case (Stop r)
    with st tw Cons.prems have "parse_step p t' w' = Inr (Stop Accepted)" by simp
    then have "t' = TOKEN_TYPE_EOF" by (rule Accepted_only_at_end)
    with Cons.prems tw show ?thesis by (simp add: final_token_def)
  qed
qed

end
