(* ===== verification/Config_Roundtrip.thy ===== *)
theory Config_Roundtrip
  imports Config_Grammar
begin

text \<open>
  The correctness of the configuration reader on bytes: what the lexer gives, that the
  bytes \<^verbatim>\<open>ToString\<close> prints are lexed into the tokens of the tree, and the theorems on
  \<^verbatim>\<open>Parse\<close> that follow: totality, soundness and the round trip with the printer.
\<close>

section \<open>What the lexer gives\<close>

definition word_char :: "char \<Rightarrow> bool" where
  "word_char c \<longleftrightarrow> c \<notin> {CHR '' '', CHR 0x09, CHR 0x0A, CHR '';'', CHR ''{'', CHR ''}''}"

definition space_char :: "char \<Rightarrow> bool" where
  "space_char c \<longleftrightarrow> c \<in> {CHR '' '', CHR 0x09, CHR 0x0A, CHR 0x0D}"

definition quoted :: "char \<Rightarrow> string \<Rightarrow> bool" where
  "quoted q w \<longleftrightarrow> 2 \<le> length w \<and> hd w = q \<and> last w = q \<and> q \<notin> set (butlast (tl w))"

text \<open>The words of the language: quoted, or without white space and punctuation.\<close>

definition token_ok :: "string \<Rightarrow> bool" where
  "token_ok w \<longleftrightarrow> quoted (CHR 0x22) w \<or> quoted (CHR 0x27) w \<or>
     (w \<noteq> [] \<and> list_all word_char w \<and>
      hd w \<notin> {CHR ''#'', CHR 0x22, CHR 0x27, CHR 0x0D})"

lemma parse_token_word:
  "parse_token TOKEN_STATE_TOKEN_TYPE_NORMAL v input = (TOKEN_TYPE_NORMAL, w, rest) \<Longrightarrow>
   \<exists>u. w = v @ u \<and> list_all word_char u"
proof (induction input arbitrary: v)
  case Nil
  then show ?case by simp
next
  case (Cons c input)
  show ?case
  proof (cases "word_char c")
    case True
    then obtain u where "w = (v @ [c]) @ u" "list_all word_char u"
      using Cons.IH[of "v @ [c]"] Cons.prems True[unfolded word_char_def] by auto
    with True show ?thesis by (intro exI[of _ "c # u"]) simp
  next
    case False
    with Cons.prems show ?thesis by (auto simp: word_char_def)
  qed
qed

lemma parse_token_quote:
  "parse_token TOKEN_STATE_SINGLE_QUOTE v input = (TOKEN_TYPE_NORMAL, w, rest) \<Longrightarrow>
   \<exists>u. w = v @ u @ [CHR 0x27] \<and> CHR 0x27 \<notin> set u"
  "parse_token TOKEN_STATE_DOUBLE_QUOTE v input = (TOKEN_TYPE_NORMAL, w, rest) \<Longrightarrow>
   \<exists>u. w = v @ u @ [CHR 0x22] \<and> CHR 0x22 \<notin> set u"
proof (induction input arbitrary: v)
  case (Cons c input)
  {
    case 1
    show ?case
    proof (cases "c = CHR 0x27")
      case False
      then obtain u where "w = (v @ [c]) @ u @ [CHR 0x27]" "CHR 0x27 \<notin> set u"
        using Cons.IH(1)[of "v @ [c]"] 1 by auto
      with False show ?thesis by (intro exI[of _ "c # u"]) simp
    qed (use 1 in auto)
  next
    case 2
    show ?case
    proof (cases "c = CHR 0x22")
      case False
      then obtain u where "w = (v @ [c]) @ u @ [CHR 0x22]" "CHR 0x22 \<notin> set u"
        using Cons.IH(2)[of "v @ [c]"] 2 by auto
      with False show ?thesis by (intro exI[of _ "c # u"]) simp
    qed (use 2 in auto)
  }
qed simp_all

lemma comment_not_word:
  "parse_token TOKEN_STATE_TOKEN_TYPE_COMMENT v input \<noteq> (TOKEN_TYPE_NORMAL, w, rest)"
  by (induction input arbitrary: v) auto

lemma quotedI: "w = q # u @ [q] \<Longrightarrow> q \<notin> set u \<Longrightarrow> quoted q w"
  by (simp add: quoted_def)

lemma quotedE:
  assumes "quoted q w"
  obtains u where "w = q # u @ [q]" "q \<notin> set u"
proof -
  obtain w' where w: "w = q # w'" using assms by (cases w) (auto simp: quoted_def)
  then have "w' \<noteq> []" using assms by (auto simp: quoted_def)
  then obtain u c where "w' = u @ [c]" by (metis append_butlast_last_id)
  with w assms that show ?thesis by (auto simp: quoted_def)
qed

lemma parse_token_initial_ok:
  "parse_token TOKEN_STATE_INITIAL_WHITESPACE [] input = (t, w, rest) \<Longrightarrow>
   (t = TOKEN_TYPE_NORMAL \<longrightarrow> token_ok w) \<and> (t \<noteq> TOKEN_TYPE_COMMENT \<longrightarrow> lexed (t, w)) \<and>
   t \<noteq> TOKEN_TYPE_START"
proof (induction input)
  case Nil
  then show ?case by (auto simp: lexed_def)
next
  case (Cons c input)
  have types: "parse_token st v inp = (t, w, rest) \<Longrightarrow> st \<noteq> TOKEN_STATE_INITIAL_WHITESPACE \<Longrightarrow>
      t \<in> {TOKEN_TYPE_NORMAL, TOKEN_TYPE_COMMENT, TOKEN_TYPE_EOF, TOKEN_TYPE_ERROR}" for st v inp
    by (induction st v inp rule: parse_token.induct) (auto split: if_splits)
  consider "c \<in> {CHR ''{'', CHR ''}'', CHR '';''}" | "c = CHR ''#''" | "c = CHR 0x22" | "c = CHR 0x27"
    | "space_char c" | "word_char c" "c \<notin> {CHR ''#'', CHR 0x22, CHR 0x27, CHR 0x0D}"
    by (auto simp: space_char_def word_char_def)
  then show ?case
  proof cases
    case 1
    with Cons.prems show ?thesis by (auto simp: lexed_def)
  next
    case 2
    with Cons.prems types[of TOKEN_STATE_TOKEN_TYPE_COMMENT "''#''" input]
    have "t \<noteq> TOKEN_TYPE_NORMAL" "t \<in> {TOKEN_TYPE_COMMENT, TOKEN_TYPE_EOF, TOKEN_TYPE_ERROR, TOKEN_TYPE_NORMAL}"
      using comment_not_word by auto
    then show ?thesis by (auto simp: lexed_def)
  next
    case 3
    with Cons.prems types[of TOKEN_STATE_DOUBLE_QUOTE "[CHR 0x22]" input]
      parse_token_quote(2)[of "[CHR 0x22]" input w rest]
    show ?thesis by (auto simp: lexed_def token_ok_def intro: quotedI)
  next
    case 4
    with Cons.prems types[of TOKEN_STATE_SINGLE_QUOTE "[CHR 0x27]" input]
      parse_token_quote(1)[of "[CHR 0x27]" input w rest]
    show ?thesis by (auto simp: lexed_def token_ok_def intro: quotedI)
  next
    case 5
    with Cons show ?thesis by (auto simp: space_char_def)
  next
    case 6
    with Cons.prems types[of TOKEN_STATE_TOKEN_TYPE_NORMAL "[c]" input]
      parse_token_word[of "[c]" input w rest]
    show ?thesis by (auto simp: lexed_def token_ok_def word_char_def split: if_splits)
  qed
qed

definition good_word :: "token \<Rightarrow> bool" where
  "good_word tw \<longleftrightarrow> (fst tw = TOKEN_TYPE_NORMAL \<longrightarrow> token_ok (snd tw))"

text \<open>The shape of every token sequence: good tokens, ended by a final one.\<close>

lemma lex_shape:
  "\<exists>ts t w. tokenize input = ts @ [(t, w)] \<and> final_token t \<and> list_all lexed ts \<and>
     list_all (\<lambda>tw. \<not> final_token (fst tw)) ts \<and> list_all good_word ts"
proof (induction input rule: tokenize.induct)
  case (1 input)
  obtain t w rest where t: "ParseToken input = (t, w, rest)" by (cases "ParseToken input")
  show ?case
  proof (cases "final_token t")
    case True
    with t have "tokenize input = [(t, w)]" by (subst tokenize.simps) simp
    with True show ?thesis by (intro exI[of _ "[]"]) auto
  next
    case False
    note ok = parse_token_initial_ok[of input t w rest, folded ParseToken_def, OF t]
    show ?thesis
    proof (cases "t = TOKEN_TYPE_COMMENT")
      case True
      with t False have "tokenize input = tokenize rest" by (subst tokenize.simps) simp
      with "1.IH"(1)[OF t[symmetric] refl False True] show ?thesis by simp
    next
      case not_comment: False
      obtain ts t' w' where IH: "tokenize rest = ts @ [(t', w')]" "final_token t'" "list_all lexed ts"
        "list_all (\<lambda>tw. \<not> final_token (fst tw)) ts" "list_all good_word ts"
        using "1.IH"(2)[OF t[symmetric] refl False not_comment] by auto
      have "tokenize input = ((t, w) # ts) @ [(t', w')]"
        using t False not_comment IH by (subst tokenize.simps) simp
      moreover have "good_word (t, w)" using ok by (simp add: good_word_def)
      ultimately show ?thesis using IH ok not_comment False
        by (intro exI[of _ "(t, w) # ts"] exI[of _ t'] exI[of _ w']) auto
    qed
  qed
qed

section \<open>Lexing what the printer wrote\<close>

lemma lex_space: "space_char c \<Longrightarrow> tokenize (c # r) = tokenize r"
proof -
  assume "space_char c"
  then have "ParseToken (c # r) = ParseToken r" by (auto simp: ParseToken_def space_char_def)
  then show ?thesis by (subst (1 2) tokenize.simps) simp
qed

lemma lex_spaces: "list_all space_char u \<Longrightarrow> tokenize (u @ r) = tokenize r"
  by (induction u) (simp_all add: lex_space)

lemma lex_mark:
  "tokenize (CHR ''{'' # r) = (TOKEN_TYPE_START_BLOCK, ''{'') # tokenize r"
  "tokenize (CHR ''}'' # r) = (TOKEN_TYPE_END_BLOCK, ''}'') # tokenize r"
  "tokenize (CHR '';'' # r) = (TOKEN_TYPE_STATEMENT_END, '';'') # tokenize r"
  by (subst tokenize.simps, simp add: ParseToken_def final_token_def)+

lemma parse_token_in_word:
  "list_all word_char u \<Longrightarrow> r \<noteq> [] \<Longrightarrow> \<not> word_char (hd r) \<Longrightarrow>
   parse_token TOKEN_STATE_TOKEN_TYPE_NORMAL v (u @ r) = (TOKEN_TYPE_NORMAL, v @ u, r)"
proof (induction u arbitrary: v)
  case Nil
  then show ?case by (cases r) (auto simp: word_char_def)
next
  case (Cons c u)
  then show ?case by (simp add: word_char_def)
qed

lemma parse_token_in_quotes:
  "CHR 0x22 \<notin> set u \<Longrightarrow> parse_token TOKEN_STATE_DOUBLE_QUOTE v (u @ CHR 0x22 # r) =
     (TOKEN_TYPE_NORMAL, v @ u @ [CHR 0x22], r)"
  "CHR 0x27 \<notin> set u \<Longrightarrow> parse_token TOKEN_STATE_SINGLE_QUOTE v (u @ CHR 0x27 # r) =
     (TOKEN_TYPE_NORMAL, v @ u @ [CHR 0x27], r)"
  by (induction u arbitrary: v) auto

lemma ParseToken_word:
  assumes "token_ok w" and "r \<noteq> []" and "\<not> word_char (hd r)"
  shows "ParseToken (w @ r) = (TOKEN_TYPE_NORMAL, w, r)"
proof -
  consider "quoted (CHR 0x22) w" | "quoted (CHR 0x27) w"
    | c u where "w = c # u" "word_char c" "list_all word_char u"
        "c \<notin> {CHR ''#'', CHR 0x22, CHR 0x27, CHR 0x0D}"
    using assms(1) by (cases w) (auto simp: token_ok_def)
  then show ?thesis
  proof cases
    case 1
    then obtain u where "w = CHR 0x22 # u @ [CHR 0x22]" "CHR 0x22 \<notin> set u" by (rule quotedE)
    then show ?thesis using parse_token_in_quotes(1)[of u "[CHR 0x22]" r] by (simp add: ParseToken_def)
  next
    case 2
    then obtain u where "w = CHR 0x27 # u @ [CHR 0x27]" "CHR 0x27 \<notin> set u" by (rule quotedE)
    then show ?thesis using parse_token_in_quotes(2)[of u "[CHR 0x27]" r] by (simp add: ParseToken_def)
  next
    case (3 c u)
    then show ?thesis using parse_token_in_word[of u r "[c]"] assms(2,3)
      by (auto simp: ParseToken_def word_char_def)
  qed
qed

lemma lex_word:
  "token_ok w \<Longrightarrow> r \<noteq> [] \<Longrightarrow> \<not> word_char (hd r) \<Longrightarrow> tokenize (w @ r) = (TOKEN_TYPE_NORMAL, w) # tokenize r"
  by (subst tokenize.simps) (simp add: ParseToken_word final_token_def)

lemma lex_join:
  "ts \<noteq> [] \<Longrightarrow> list_all token_ok ts \<Longrightarrow> r \<noteq> [] \<Longrightarrow> \<not> word_char (hd r) \<Longrightarrow>
   tokenize (join_tokens ts @ r) = map (Pair TOKEN_TYPE_NORMAL) ts @ tokenize r"
proof (induction ts rule: join_tokens.induct)
  case (3 t t' ts)
  then have "tokenize (t @ '' '' @ join_tokens (t' # ts) @ r) =
      (TOKEN_TYPE_NORMAL, t) # tokenize ('' '' @ join_tokens (t' # ts) @ r)"
    by (intro lex_word) (auto simp: word_char_def)
  with 3 show ?case by (simp add: lex_space space_char_def)
qed (simp_all add: lex_word)

text \<open>A tree whose words can be written down: every statement has one, and all are \<open>token_ok\<close>.\<close>

fun printable :: "statement \<Rightarrow> bool" where
  "printable (Statement ts child) \<longleftrightarrow> ts \<noteq> [] \<and> list_all token_ok ts \<and>
     (case child of None \<Rightarrow> True | Some block \<Rightarrow> list_all printable block)"

lemma printable_wf: "printable s \<Longrightarrow> wf_statement s"
  by (induction s) (auto simp: list_all_iff split: option.splits)

lemma lex_indent: "tokenize (indent d @ r) = tokenize r"
  by (rule lex_spaces) (induction d, auto simp: indent_def space_char_def)

lemma lex_statement: "printable s \<Longrightarrow> tokenize (statement_ToString d s @ r) = flat s @ tokenize r"
proof (induction s arbitrary: d r)
  case (Statement ts child)
  show ?case
  proof (cases child)
    case None
    with Statement.prems show ?thesis
      by (simp add: lex_indent lex_join word_char_def lex_mark lex_space space_char_def)
  next
    case (Some block)
    have IH: "tokenize (statement_ToString e s @ r') = flat s @ tokenize r'"
      if "s \<in> set block" for s e r'
      using Statement.IH[of block s] Statement.prems Some that by (simp add: list_all_iff)
    have "tokenize (concat (map (statement_ToString e) ss) @ r') = flats ss @ tokenize r'"
      if "set ss \<subseteq> set block" for ss e r'
      using that by (induction ss) (simp_all add: IH)
    with Statement.prems Some show ?thesis
      by (simp add: lex_indent lex_join word_char_def lex_mark lex_space space_char_def)
  qed
qed

lemma lex_ToString_append:
  assumes "list_all printable c"
  shows "tokenize (ToString d c @ r) = flats c @ tokenize r"
  using assms by (induction c) (simp_all add: ToString_def lex_statement)

lemma lex_ToString:
  assumes "list_all printable c"
  shows "tokenize (ToString d c) = flats c @ [(TOKEN_TYPE_EOF, [])]"
proof -
  have "tokenize [] = [(TOKEN_TYPE_EOF, [])]"
    by (subst tokenize.simps) (simp add: ParseToken_def final_token_def)
  with lex_ToString_append[OF assms, of d "[]"] show ?thesis by simp
qed

text \<open>A word that nothing ends is collected and lost.\<close>

lemma parse_token_lost_word:
  "\<forall>c\<in>set w. word_char c \<Longrightarrow>
   parse_token TOKEN_STATE_TOKEN_TYPE_NORMAL v w = (TOKEN_TYPE_EOF, v @ w, [])"
  by (induction w arbitrary: v) (auto simp: word_char_def)

lemma lex_lost_word:
  assumes "\<forall>c\<in>set w. word_char c" and "w \<noteq> []" and "hd w \<notin> {CHR ''#'', CHR 0x22, CHR 0x27}"
    and "hd w \<noteq> CHR 0x0D"
  shows "tokenize w = [(TOKEN_TYPE_EOF, w)]"
proof -
  obtain c u where w: "w = c # u" using assms(2) by (cases w) auto
  have "ParseToken w = (TOKEN_TYPE_EOF, w, [])"
    using assms parse_token_lost_word[of u "[c]"] by (auto simp: ParseToken_def w word_char_def)
  then show ?thesis by (subst tokenize.simps) (simp add: final_token_def)
qed

section \<open>The theorems on Parse\<close>

lemma Parse_run:
  "Parse input c0 = bind_res (run (init_parser c0) (tokenize input)) (\<lambda>(r, stack). Inr (r, unwind stack))"
  by (simp add: Parse_def parse_loop_run)

lemma Parse_total: "list_all wf_statement c0 \<Longrightarrow> \<exists>r c. Parse input c0 = Inr (r, c)"
proof -
  assume "list_all wf_statement c0"
  then have inv: "parser_inv (init_parser c0)" by (rule init_parser_inv)
  obtain ts t w where "tokenize input = ts @ [(t, w)]" "final_token t" "list_all lexed ts"
    using lex_shape by blast
  with run_total[OF inv, of ts t w] show ?thesis by (auto simp: Parse_run)
qed

lemma flats_good_words:
  "list_all wf_statement c \<Longrightarrow> list_all good_word (flats c) \<Longrightarrow> list_all printable c"
proof -
  have "wf_statement s \<Longrightarrow> list_all good_word (flat s) \<Longrightarrow> printable s" for s
  proof (induction s)
    case (Statement ts child)
    have "list_all good_word (map (Pair TOKEN_TYPE_NORMAL) ts) \<longleftrightarrow> list_all token_ok ts"
      by (simp add: list_all_iff good_word_def)
    with Statement show ?case
      by (fastforce simp: list_all_iff split: option.splits)
  qed
  then show "list_all wf_statement c \<Longrightarrow> list_all good_word (flats c) \<Longrightarrow> list_all printable c"
    by (simp add: list_all_iff)
qed

lemma Parse_Accepted_iff:
  "Parse input [] = Inr (Accepted, c) \<longleftrightarrow>
   c \<noteq> [] \<and> list_all printable c \<and> (\<exists>w. tokenize input = flats c @ [(TOKEN_TYPE_EOF, w)])"
proof
  assume "Parse input [] = Inr (Accepted, c)"
  then obtain stack where run: "run (init_parser []) (tokenize input) = Inr (Accepted, stack)"
    and c: "c = unwind stack" by (auto simp: Parse_run)
  obtain ts t w where tokenize: "tokenize input = ts @ [(t, w)]" "list_all lexed ts" "list_all good_word ts"
    "list_all (\<lambda>tw. \<not> final_token (fst tw)) ts"
    using lex_shape by blast
  obtain d where "stack = [d]" "d \<noteq> []" "list_all wf_statement d" "ts = flats d" "t = TOKEN_TYPE_EOF"
    using run_sound[of "init_parser []" ts t w stack] tokenize run
    by (auto simp: init_parser_inv consumed_def)
  with c tokenize show "c \<noteq> [] \<and> list_all printable c \<and> (\<exists>w. tokenize input = flats c @ [(TOKEN_TYPE_EOF, w)])"
    by (auto intro: flats_good_words)
next
  assume c: "c \<noteq> [] \<and> list_all printable c \<and> (\<exists>w. tokenize input = flats c @ [(TOKEN_TYPE_EOF, w)])"
  then have "list_all wf_statement c" by (simp add: list_all_iff printable_wf)
  with c run_accepts[of c "[]"] show "Parse input [] = Inr (Accepted, c)"
    by (auto simp: Parse_run)
qed

lemma Parse_ToString:
  "c \<noteq> [] \<Longrightarrow> list_all printable c \<Longrightarrow> Parse (ToString d c) [] = Inr (Accepted, c)"
  by (simp add: Parse_Accepted_iff lex_ToString)

section \<open>Properties\<close>

text \<open>C24: The configuration parser returns a verdict and a tree for every input: no input reaches an
  empty stack or the last statement of an empty block.\<close>

theorem Parse_always_returns: "\<exists>r c. Parse input [] = Inr (r, c)"
  by (rule Parse_total) simp

text \<open>C12: The parser accepts exactly the inputs whose tokens (comments left out) are the tokens of a
  non-empty tree of statements ended by a semicolon or a block, with matching braces, and the
  tree it returns is this one.\<close>

theorem Parse_accepts_exactly:
  "Parse input [] = Inr (Accepted, c) \<longleftrightarrow>
   c \<noteq> [] \<and> list_all printable c \<and> (\<exists>w. tokenize input = flats c @ [(TOKEN_TYPE_EOF, w)])"
  by (rule Parse_Accepted_iff)

text \<open>C14: Printing a configuration tree, at any indentation, and parsing the text gives the tree back.\<close>

theorem Parse_inverts_ToString:
  assumes "c \<noteq> []" and "list_all printable c"
  shows "Parse (ToString d c) [] = Inr (Accepted, c)"
  using assms by (rule Parse_ToString)

theorem Parse_inverts_ToString_witness:
  "Parse (ToString 1 [Statement [''server''] (Some [Statement [''listen'', ''80''] None])]) [] =
   Inr (Accepted, [Statement [''server''] (Some [Statement [''listen'', ''80''] None])])"
proof -
  have "list_all printable [Statement [''server''] (Some [Statement [''listen'', ''80''] None])]"
    by code_simp
  from Parse_inverts_ToString[OF _ this] show ?thesis by simp
qed

text \<open>What the parser accepts can be printed and parsed again with the same result.\<close>

theorem Parse_idempotent:
  assumes "Parse input [] = Inr (Accepted, c)"
  shows "Parse (ToString d c) [] = Inr (Accepted, c)"
  using assms Parse_ToString by (simp add: Parse_Accepted_iff)

theorem Parse_idempotent_witness:
  "Parse (ToString 0 [Statement [''root'', ''/srv''] None]) [] =
   Inr (Accepted, [Statement [''root'', ''/srv''] None])"
proof -
  have "list_all printable [Statement [''root'', ''/srv''] None]"
    by code_simp
  from Parse_idempotent[OF Parse_ToString[OF _ this, of 1]] show ?thesis by simp
qed

text \<open>A word behind the last statement that no semicolon ends is dropped without an error: the file
  is accepted as if the word were not there.\<close>

theorem Parse_drops_last_word:
  assumes "c \<noteq> []" and "list_all printable c"
    and "w \<noteq> []" and "\<forall>c\<in>set w. word_char c" and "hd w \<notin> {CHR ''#'', CHR 0x22, CHR 0x27}"
    and "hd w \<noteq> CHR 0x0D"
  shows "Parse (ToString 0 c @ w) [] = Inr (Accepted, c)"
  using assms by (simp add: Parse_Accepted_iff lex_ToString_append lex_lost_word)

theorem Parse_drops_last_word_witness:
  "Parse (ToString 0 [Statement [''listen'', ''80''] None] @ ''root'') [] =
   Inr (Accepted, [Statement [''listen'', ''80''] None])"
proof -
  have "list_all printable [Statement [''listen'', ''80''] None]" "\<forall>c\<in>set ''root''. word_char c"
    by code_simp+
  with Parse_drops_last_word[of "[Statement [''listen'', ''80''] None]" "''root''"] show ?thesis by simp
qed

end
