(* ===== verification/Std_Map.thy ===== *)
theory Std_Map
  imports Cpp_Prelude
begin

text \<open>
  \<^verbatim>\<open>std::map<std::string, V>\<close> as a list of entries in the order of iteration: keys
  ascending, compared byte by byte as unsigned values. \<open>map_insert\<close> is \<^verbatim>\<open>insert\<close>, which
  keeps the value of a key that is there; \<open>map_set\<close> is the assignment \<^verbatim>\<open>m[k] = v\<close>;
  lookup is \<open>map_of\<close>. The interface the clients rely on is the locale \<open>ordered_map\<close>,
  interpreted on these operations.
\<close>

type_synonym 'v std_map = "(string \<times> 'v) list"

fun map_insert :: "string \<Rightarrow> 'v \<Rightarrow> 'v std_map \<Rightarrow> 'v std_map" where
  "map_insert k v [] = [(k, v)]"
| "map_insert k v ((a, b) # m) =
     (if k < a then (k, v) # (a, b) # m
      else if k = a then (a, b) # m else (a, b) # map_insert k v m)"

fun map_set :: "string \<Rightarrow> 'v \<Rightarrow> 'v std_map \<Rightarrow> 'v std_map" where
  "map_set k v [] = [(k, v)]"
| "map_set k v ((a, b) # m) =
     (if k < a then (k, v) # (a, b) # m
      else if k = a then (a, v) # m else (a, b) # map_set k v m)"

text \<open>
  The value of the expression \<^verbatim>\<open>m[k]\<close> for a map of strings: an absent key reads as the empty
  string. (C++ also adds the empty entry; the maps read this way are never iterated and
  never searched with \<^verbatim>\<open>find\<close>, so the entry cannot be observed.)
\<close>

definition map_index :: "string std_map \<Rightarrow> string \<Rightarrow> string" where
  "map_index m k = (case map_of m k of None \<Rightarrow> [] | Some v \<Rightarrow> v)"

definition ascending :: "'v std_map \<Rightarrow> bool" where
  "ascending m \<longleftrightarrow> sorted_wrt (<) (map fst m)"

lemma ascending_Cons [simp]:
  "ascending (e # m) \<longleftrightarrow> (\<forall>x\<in>fst ` set m. fst e < x) \<and> ascending m"
  by (auto simp: ascending_def)

lemma ascending_Nil [simp]: "ascending []"
  by (simp add: ascending_def)

lemma fst_map_insert: "fst ` set (map_insert k v m) = insert k (fst ` set m)"
  by (induction k v m rule: map_insert.induct) auto

lemma fst_map_set: "fst ` set (map_set k v m) = insert k (fst ` set m)"
  by (induction k v m rule: map_set.induct) auto

lemma ascending_map_insert: "ascending m \<Longrightarrow> ascending (map_insert k v m)"
  by (induction k v m rule: map_insert.induct) (auto simp: fst_map_insert)

lemma ascending_map_set: "ascending m \<Longrightarrow> ascending (map_set k v m)"
  by (induction k v m rule: map_set.induct) (auto simp: fst_map_set)

lemma map_of_smaller: "\<forall>x\<in>fst ` set m. (k :: string) < x \<Longrightarrow> map_of m k = None"
  by (induction m) auto

lemma map_of_map_insert:
  "ascending m \<Longrightarrow> map_of (map_insert k v m) x =
     (if x = k \<and> map_of m k = None then Some v else map_of m x)"
proof (induction k v m rule: map_insert.induct)
  case (1 k v)
  show ?case by simp
next
  case (2 k v a b m)
  then show ?case
    using map_of_smaller[of m k] less_trans[of k a] by auto
qed

lemma map_of_map_set: "ascending m \<Longrightarrow> map_of (map_set k v m) = (map_of m)(k \<mapsto> v)"
proof (induction k v m rule: map_set.induct)
  case (1 k v)
  show ?case by simp
next
  case (2 k v a b m)
  then show ?case by (auto simp: fun_eq_iff)
qed

text \<open>The contract of a dictionary with ordered iteration.\<close>

locale ordered_map =
  fixes inv :: "'m \<Rightarrow> bool"
    and empty :: "'m"
    and find :: "'m \<Rightarrow> string \<Rightarrow> 'v option"
    and ins :: "string \<Rightarrow> 'v \<Rightarrow> 'm \<Rightarrow> 'm"
    and assign :: "string \<Rightarrow> 'v \<Rightarrow> 'm \<Rightarrow> 'm"
    and entries :: "'m \<Rightarrow> (string \<times> 'v) list"
  assumes inv_empty: "inv empty"
    and inv_ins: "inv m \<Longrightarrow> inv (ins k v m)"
    and inv_assign: "inv m \<Longrightarrow> inv (assign k v m)"
    and find_empty: "find empty x = None"
    and find_ins: "inv m \<Longrightarrow> find (ins k v m) x =
      (if x = k \<and> find m k = None then Some v else find m x)"
    and find_assign: "inv m \<Longrightarrow> find (assign k v m) x = (if x = k then Some v else find m x)"
    and find_entries: "inv m \<Longrightarrow> find m = map_of (entries m)"
    and sorted_entries: "inv m \<Longrightarrow> sorted_wrt (<) (map fst (entries m))"
begin

lemma inv_ins_all: "inv m \<Longrightarrow> inv (fold (\<lambda>(k, v). ins k v) kvs m)"
  by (induction kvs arbitrary: m) (auto simp: inv_ins)

text \<open>Of several insertions under one key, the first one counts.\<close>

lemma find_ins_all:
  "inv m \<Longrightarrow> find (fold (\<lambda>(k, v). ins k v) kvs m) x =
     (case find m x of Some v \<Rightarrow> Some v | None \<Rightarrow> map_of kvs x)"
proof (induction kvs arbitrary: m)
  case Nil
  show ?case by (simp split: option.split)
next
  case (Cons e kvs)
  obtain k v where e: "e = (k, v)" by (cases e)
  with Cons.IH[OF inv_ins[OF Cons.prems, of k v]] Cons.prems show ?case
    by (auto simp: find_ins split: option.split)
qed

lemma in_entries_iff:
  assumes "inv m"
  shows "(k, v) \<in> set (entries m) \<longleftrightarrow> find m k = Some v"
proof -
  have "distinct (map fst (entries m))"
    using sorted_entries[OF assms] strict_sorted_iff by blast
  then show ?thesis by (simp add: find_entries[OF assms] map_of_eq_Some_iff)
qed

end

interpretation std_map: ordered_map ascending "[] :: 'v std_map" map_of map_insert map_set id
  by unfold_locales
    (simp_all add: ascending_map_insert ascending_map_set map_of_map_insert map_of_map_set,
      simp add: ascending_def)

lemma map_index_set [simp]:
  "ascending m \<Longrightarrow> map_index (map_set k v m) x = (if x = k then v else map_index m x)"
  by (simp add: map_index_def map_of_map_set)

lemma map_index_empty [simp]: "map_index [] x = []"
  by (simp add: map_index_def)

end
