(* ===== verification/Nginx_Config.thy ===== *)
theory Nginx_Config
  imports Config_Roundtrip Std_Map
begin

text \<open>
  The queries of \<^verbatim>\<open>src/config_parser.cc\<close> on a parsed configuration: \<^verbatim>\<open>PeekURL\<close>,
  \<^verbatim>\<open>ParseString\<close> (which fills the routing tables of the dispatcher), \<^verbatim>\<open>GetPort\<close>, \<^verbatim>\<open>GetRoot\<close>
  and \<^verbatim>\<open>GetAttribute\<close>. They all print the tree and search the text, with index loops of
  their own; the loops are kept as recursive functions over the positions.
\<close>

section \<open>The operations\<close>

text \<open>\<^verbatim>\<open>while (s[i+j] != ';' && j < s.length()) j++;\<close>\<close>

function peek_scan :: "string \<Rightarrow> nat \<Rightarrow> nat \<Rightarrow> nat res" where
  "peek_scan s i j =
     bind_res (str_at s (i + j)) (\<lambda>c.
       if c \<noteq> CHR '';'' \<and> j < length s then peek_scan s i (j + 1) else Inr j)"
  by pat_completeness auto
termination
  by (relation "measure (\<lambda>(s, i, j). length s - j)") auto

declare peek_scan.simps [simp del]

text \<open>\<^verbatim>\<open>NginxConfig::PeekURL\<close>\<close>

definition PeekURL :: "string \<Rightarrow> string res" where
  "PeekURL s =
     (case str_find s ''url'' of
        None \<Rightarrow> Inr ''''
      | Some i \<Rightarrow> bind_res (peek_scan s (i + 3) 0) (\<lambda>j.
          substr s (int (i + 3) + 1) (int j - 1)))"

text \<open>
  \<^verbatim>\<open>while (s[start + e] != ';') { if (start + e >= s.length()) return ...; e++; }\<close>:
  \<open>None\<close> when the loop leaves through the \<^verbatim>\<open>return\<close>.
\<close>

function scan_value :: "string \<Rightarrow> nat \<Rightarrow> nat \<Rightarrow> nat option res" where
  "scan_value s start e =
     bind_res (str_at s (start + e)) (\<lambda>c.
       if c = CHR '';'' then Inr (Some e)
       else if length s \<le> start + e then Inr None else scan_value s start (e + 1))"
  by pat_completeness auto
termination
  by (relation "measure (\<lambda>(s, start, e). length s - (start + e))") auto

declare scan_value.simps [simp del]

text \<open>A \<^verbatim>\<open>try\<close> block whose handler catches every \<^verbatim>\<open>std::exception\<close>; undefined behaviour is not caught.\<close>

definition catch_exception :: "'a res \<Rightarrow> 'a \<Rightarrow> 'a res" where
  "catch_exception m x = (case m of
     Inl e \<Rightarrow> if e \<in> {Undefined, Diverges} then Inl e else Inr x
   | Inr y \<Rightarrow> Inr y)"

text \<open>\<^verbatim>\<open>NginxConfig::GetPort\<close>\<close>

definition GetPort :: "config \<Rightarrow> int res" where
  "GetPort statements =
     (let config_string = concat (map (statement_ToString 0) statements) in
      case str_find config_string ''listen'' of
        None \<Rightarrow> Inr 0
      | Some index \<Rightarrow> bind_res (scan_value config_string (index + 6) 0) (\<lambda>r.
          case r of
            None \<Rightarrow> Inr 0
          | Some ending_pos \<Rightarrow>
              catch_exception
                (bind_res (substr config_string (int index + 7) (int ending_pos))
                   (\<lambda>v. atoi (c_str v))) 0))"

text \<open>\<^verbatim>\<open>NginxConfig::GetRoot\<close>: only the first statement is looked at.\<close>

definition GetRoot :: "config \<Rightarrow> string res" where
  "GetRoot statements =
     bind_res (vec_at statements 0) (\<lambda>s.
      let config_string = statement_ToString 0 s in
      case str_find config_string ''root'' of
        None \<Rightarrow> Inr ''''
      | Some index \<Rightarrow> bind_res (scan_value config_string (index + 4) 0) (\<lambda>r.
          case r of
            None \<Rightarrow> Inr ''''
          | Some ending_pos \<Rightarrow>
              catch_exception
                (bind_res (substr config_string (int index + 5) (int ending_pos))
                   (\<lambda>v. Inr (c_str v))) ''''))"

text \<open>
  \<^verbatim>\<open>NginxConfig::GetAttribute\<close>. When the name does not occur, the function reaches its end
  without a \<^verbatim>\<open>return\<close>.
\<close>

definition GetAttribute :: "config \<Rightarrow> string \<Rightarrow> string res" where
  "GetAttribute statements attr =
     (let config_string = concat (map (statement_ToString 0) statements);
          string_length = length attr in
      case str_find config_string attr of
        None \<Rightarrow> Inl Undefined
      | Some index \<Rightarrow> bind_res (scan_value config_string (index + string_length) 0) (\<lambda>r.
          case r of
            None \<Rightarrow> Inr ''''
          | Some ending_pos \<Rightarrow>
              catch_exception
                (bind_res (substr config_string (int (index + string_length) + 1) (int ending_pos - 1))
                   (\<lambda>v. Inr (c_str v))) ''''))"

text \<open>
  The tables \<^verbatim>\<open>ParseString\<close> fills: the two of the dispatcher and the static one of the status
  object. A pointer to a child block is the block; the tree is not changed once it is parsed.
\<close>

record tables =
  configTable :: "config std_map"
  handlerTable :: "string std_map"
  url_handlers_map :: "string std_map"

definition insert_handler :: "string \<Rightarrow> config \<Rightarrow> string \<Rightarrow> tables \<Rightarrow> tables" where
  "insert_handler url block name tb =
     tb\<lparr>configTable := map_insert url block (configTable tb),
        handlerTable := map_insert url name (handlerTable tb),
        url_handlers_map := map_insert url name (url_handlers_map tb)\<rparr>"

text \<open>\<^verbatim>\<open>NginxConfig::ParseString\<close> and the body of its loop over the statements.\<close>

fun ParseString :: "config \<Rightarrow> tables \<Rightarrow> tables res"
  and parse_string_statement :: "statement \<Rightarrow> tables \<Rightarrow> tables res" where
  "ParseString [] tb = Inr tb"
| "ParseString (s # ss) tb = bind_res (parse_string_statement s tb) (ParseString ss)"
| "parse_string_statement (Statement ts child) tb =
     bind_res (case child of None \<Rightarrow> Inr tb | Some block \<Rightarrow> ParseString block tb) (\<lambda>tb.
     bind_res (vec_at ts 0) (\<lambda>name.
       if name = ''handler'' then
         (case child of
            None \<Rightarrow> Inl Undefined
          | Some block \<Rightarrow>
              bind_res (PeekURL (ToString 0 block)) (\<lambda>url.
              bind_res (vec_at ts 1) (\<lambda>handler.
              Inr (insert_handler url block handler tb))))
       else Inr tb))"

section \<open>The loops find the semicolon\<close>

lemma str_at_middle: "length pre = k \<Longrightarrow> str_at (pre @ c # post) k = Inr c"
  by (auto simp: str_at_def)

lemma scan_value_found:
  assumes "CHR '';'' \<notin> set u"
  shows "length pre = start + e \<Longrightarrow>
    scan_value (pre @ u @ CHR '';'' # post) start e = Inr (Some (e + length u))"
  using assms
proof (induction u arbitrary: pre e)
  case Nil
  then show ?case by (subst scan_value.simps) (simp add: str_at_middle)
next
  case (Cons c u)
  from Cons.IH[of "pre @ [c]" "e + 1"] Cons.prems show ?case
    by (subst scan_value.simps) (auto simp: str_at_middle)
qed

lemma scan_value_defined:
  "start + e \<le> length s \<Longrightarrow>
   \<exists>r. scan_value s start e = Inr r \<and> (\<forall>x. r = Some x \<longrightarrow> start + x < length s)"
proof (induction s start e rule: scan_value.induct)
  case (1 s start e)
  show ?case
  proof (cases "start + e = length s")
    case True
    then show ?thesis by (subst scan_value.simps) (simp add: str_at_def)
  next
    case False
    with "1.prems" have lt: "start + e < length s" by simp
    then have at: "str_at s (start + e) = Inr (s ! (start + e))" by (simp add: str_at_def)
    show ?thesis
    proof (cases "s ! (start + e) = CHR '';''")
      case True
      with at lt show ?thesis by (subst scan_value.simps) simp
    next
      case not_semi: False
      with lt at "1.IH"[OF at not_semi] show ?thesis by (subst scan_value.simps) simp
    qed
  qed
qed

lemma peek_scan_found:
  assumes "CHR '';'' \<notin> set u"
  shows "length pre = i + j \<Longrightarrow>
    peek_scan (pre @ u @ CHR '';'' # post) i j = Inr (j + length u)"
  using assms
proof (induction u arbitrary: pre j)
  case Nil
  then show ?case by (subst peek_scan.simps) (simp add: str_at_middle)
next
  case (Cons c u)
  from Cons.IH[of "pre @ [c]" "j + 1"] Cons.prems show ?case
    by (subst peek_scan.simps) (auto simp: str_at_middle)
qed

text \<open>The first occurrence of a name in a text: nothing of it starts further left.\<close>

definition first_at :: "string \<Rightarrow> string \<Rightarrow> string \<Rightarrow> bool" where
  "first_at pre p post \<longleftrightarrow> (\<forall>j<length pre. \<not> prefix p (drop j (pre @ p @ post)))"

lemma str_find_first_at: "first_at pre p post \<Longrightarrow> str_find (pre @ p @ post) p = Some (length pre)"
  by (subst str_find_skip) (simp_all add: first_at_def)

lemma c_str_id: "CHR 0x00 \<notin> set v \<Longrightarrow> c_str v = v"
  unfolding c_str_def by (induction v) auto

lemma PeekURL_first:
  assumes "first_at pre ''url'' ('' '' @ v @ '';'' @ post)" and "CHR '';'' \<notin> set v"
  shows "PeekURL (pre @ ''url '' @ v @ '';'' @ post) = Inr v"
proof -
  have "peek_scan ((pre @ ''url'') @ ('' '' @ v) @ CHR '';'' # post) (length pre + 3) 0 = Inr (1 + length v)"
    using peek_scan_found[of "'' '' @ v" "pre @ ''url''" "length pre + 3" 0 post] assms(2) by simp
  with str_find_first_at[OF assms(1)] show ?thesis
    by (simp add: PeekURL_def substr_def nat_add_distrib)
qed

text \<open>
  What is between the first occurrence of a name and the next semicolon, with what follows the
  semicolon: \<open>None\<close> when the name does not occur, \<open>Some None\<close> when no semicolon follows it.
\<close>

definition value_after :: "string \<Rightarrow> string \<Rightarrow> (string \<times> string) option option" where
  "value_after name s = map_option (\<lambda>i.
     let rest = drop (i + length name) s in
     if CHR '';'' \<in> set rest
     then Some (takeWhile (\<lambda>c. c \<noteq> CHR '';'') rest, tl (dropWhile (\<lambda>c. c \<noteq> CHR '';'') rest))
     else None) (str_find s name)"

lemma semicolon_parts:
  "CHR '';'' \<in> set r \<Longrightarrow> r = takeWhile (\<lambda>c. c \<noteq> CHR '';'') r @ CHR '';'' # tl (dropWhile (\<lambda>c. c \<noteq> CHR '';'') r)"
  by (induction r) auto

lemma value_after_cases:
  assumes "str_find s name = Some i"
  obtains (unclosed) "value_after name s = Some None" "CHR '';'' \<notin> set (drop (i + length name) s)"
  | (closed) u post where "value_after name s = Some (Some (u, post))"
      "s = take (i + length name) s @ u @ CHR '';'' # post" "CHR '';'' \<notin> set u" "i + length name \<le> length s"
proof (cases "CHR '';'' \<in> set (drop (i + length name) s)")
  case True
  define u post where "u = takeWhile (\<lambda>c. c \<noteq> CHR '';'') (drop (i + length name) s)"
    and "post = tl (dropWhile (\<lambda>c. c \<noteq> CHR '';'') (drop (i + length name) s))"
  have "drop (i + length name) s = u @ CHR '';'' # post"
    using semicolon_parts[OF True] by (simp add: u_def post_def)
  then have "s = take (i + length name) s @ u @ CHR '';'' # post" by (metis append_take_drop_id)
  moreover have "CHR '';'' \<notin> set u" by (auto simp: u_def dest: set_takeWhileD)
  moreover have "value_after name s = Some (Some (u, post))"
    using assms True by (simp add: value_after_def u_def post_def Let_def)
  ultimately show thesis using str_find_SomeD(2)[OF assms] by (intro closed) simp_all
qed (use assms in \<open>auto simp: value_after_def intro!: unclosed\<close>)

lemma peek_scan_unclosed:
  "CHR '';'' \<notin> set (drop i s) \<Longrightarrow> 0 < i \<Longrightarrow> i \<le> length s \<Longrightarrow> i + j \<le> Suc (length s) \<Longrightarrow> peek_scan s i j = Inl Undefined"
proof (induction s i j rule: peek_scan.induct)
  case (1 s i j)
  show ?case
  proof (cases "i + j \<le> length s")
    case True
    then obtain c where c: "str_at s (i + j) = Inr c" by (cases "i + j = length s") (auto simp: str_at_def)
    have "s ! (i + j) \<in> set (drop i s)" if "i + j < length s"
      using nth_mem[of j "drop i s"] that by simp
    then have "c \<noteq> CHR '';''" using c "1.prems"(1) True by (auto simp: str_at_def split: if_splits)
    with 1 True c show ?thesis by (subst peek_scan.simps) simp
  qed (subst peek_scan.simps, simp add: str_at_def)
qed

text \<open>
  \<open>PeekURL\<close> gives the text between \<^verbatim>\<open>url\<close> and the semicolon without its first byte. Where the semicolon
  follows at once, the length it computes is negative, and it gives all that follows.
\<close>

definition url_in :: "string \<Rightarrow> string option" where
  "url_in s = (case value_after ''url'' s of
     None \<Rightarrow> Some []
   | Some None \<Rightarrow> None
   | Some (Some (u, post)) \<Rightarrow> Some (if u = [] then post else tl u))"

lemma PeekURL_eq: "PeekURL s = (case url_in s of None \<Rightarrow> Inl Undefined | Some url \<Rightarrow> Inr url)"
proof (cases "str_find s ''url''")
  case None
  then show ?thesis by (simp add: PeekURL_def url_in_def value_after_def)
next
  case (Some i)
  from Some show ?thesis
  proof (cases rule: value_after_cases)
    case unclosed
    have "i + 3 \<le> length s" using str_find_SomeD(2)[OF Some] by simp
    then have "peek_scan s (i + 3) 0 = Inl Undefined" using unclosed(2) by (intro peek_scan_unclosed) (simp_all add: eval_nat_numeral)
    with Some unclosed(1) show ?thesis by (simp add: PeekURL_def url_in_def)
  next
    case (closed u post)
    define pre where "pre = take (i + length ''url'') s"
    have eq: "s = pre @ u @ CHR '';'' # post" unfolding pre_def by (rule closed(2))
    have len: "length pre = i + 3" using closed(4) by (simp add: pre_def)
    note s = eq len
    have "peek_scan s (i + 3) 0 = Inr (length u)"
      unfolding s(1) using peek_scan_found[OF closed(3), of pre "i + 3" 0 post] s(2) by simp
    moreover have "substr s (int (i + 3) + 1) (int (length u) - 1) = Inr (if u = [] then post else tl u)"
      unfolding s(1) using s(2) by (cases u) (simp_all add: substr_def nat_add_distrib)
    ultimately show ?thesis using Some closed(1) by (simp add: PeekURL_def url_in_def)
  qed
qed

lemma GetAttribute_first:
  assumes "ToString 0 c = pre @ a @ '' '' @ v @ '';'' @ post"
    and "first_at pre a ('' '' @ v @ '';'' @ post)" and "CHR '';'' \<notin> set v" and "CHR 0x00 \<notin> set v"
  shows "GetAttribute c a = Inr v"
proof -
  have "scan_value ((pre @ a) @ ('' '' @ v) @ CHR '';'' # post) (length pre + length a) 0 =
      Inr (Some (1 + length v))"
    using scan_value_found[of "'' '' @ v" "pre @ a" "length pre + length a" 0 post] assms(3) by simp
  with str_find_first_at[OF assms(2)] assms(1) show ?thesis
    by (simp add: GetAttribute_def ToString_def substr_def nat_add_distrib catch_exception_def
        c_str_id[OF assms(4)])
qed

lemma GetAttribute_cases:
  "if sublist a (ToString 0 c) then \<exists>v. GetAttribute c a = Inr v
   else GetAttribute c a = Inl Undefined"
proof (cases "str_find (ToString 0 c) a")
  case None
  then show ?thesis
    using str_find_None_iff[of "ToString 0 c" a] by (simp add: GetAttribute_def ToString_def)
next
  case (Some i)
  then have "sublist a (ToString 0 c)" using str_find_None_iff[of "ToString 0 c" a] by auto
  moreover from scan_value_defined[of "i + length a" 0 "ToString 0 c"] str_find_SomeD(2)[OF Some]
  obtain r where r: "scan_value (ToString 0 c) (i + length a) 0 = Inr r"
    "\<forall>x. r = Some x \<longrightarrow> i + length a + x < length (ToString 0 c)" by auto
  ultimately show ?thesis
    using Some by (cases r) (auto simp: GetAttribute_def ToString_def substr_def catch_exception_def Let_def)
qed

lemma GetPort_first:
  assumes "ToString 0 c = pre @ ''listen '' @ to_string n @ '';'' @ post"
    and "first_at pre ''listen'' ('' '' @ to_string n @ '';'' @ post)" and "n < 2 ^ 31"
  shows "GetPort c = Inr (int n)"
proof -
  have semi: "CHR '';'' \<notin> set (to_string n)" "CHR 0x00 \<notin> set (to_string n @ '';'')"
    using to_string_digits[of _ n] by (auto simp: is_digit_def)
  have "scan_value ((pre @ ''listen'') @ ('' '' @ to_string n) @ CHR '';'' # post) (length pre + 6) 0 =
      Inr (Some (1 + length (to_string n)))"
    using scan_value_found[of "'' '' @ to_string n" "pre @ ''listen''" "length pre + 6" 0 post] semi
    by simp
  with str_find_first_at[OF assms(2)] assms(1) show ?thesis
    using c_str_id[OF semi(2)] atoi_to_string[OF assms(3), of "'';''"]
    by (simp add: GetPort_def ToString_def substr_def nat_add_distrib catch_exception_def
        is_digit_def)
qed

lemma GetRoot_first:
  assumes "statement_ToString 0 s = pre @ ''root '' @ v @ '';'' @ post"
    and "first_at pre ''root'' ('' '' @ v @ '';'' @ post)" and "CHR '';'' \<notin> set v" and "CHR 0x00 \<notin> set v"
  shows "GetRoot (s # ss) = Inr (v @ '';'')"
proof -
  have "scan_value ((pre @ ''root'') @ ('' '' @ v) @ CHR '';'' # post) (length pre + 4) 0 =
      Inr (Some (1 + length v))"
    using scan_value_found[of "'' '' @ v" "pre @ ''root''" "length pre + 4" 0 post] assms(3) by simp
  with str_find_first_at[OF assms(2)] assms(1) c_str_id[of "v @ '';''"] assms(4) show ?thesis
    by (simp add: GetRoot_def substr_def nat_add_distrib catch_exception_def)
qed

section \<open>The routing tables\<close>

text \<open>
  The specification of \<open>ParseString\<close>: the handler statements in the order in which they are
  reached (those of a block before the statement that owns the block), each with the URL
  in the text of its block.
\<close>

definition url_of :: "config \<Rightarrow> string" where
  "url_of block = (case url_in (ToString 0 block) of None \<Rightarrow> [] | Some url \<Rightarrow> url)"

fun handlers :: "config \<Rightarrow> (string \<times> config \<times> string) list"
  and statement_handlers :: "statement \<Rightarrow> (string \<times> config \<times> string) list" where
  "handlers [] = []"
| "handlers (s # ss) = statement_handlers s @ handlers ss"
| "statement_handlers (Statement ts child) =
     (case child of None \<Rightarrow> []
      | Some block \<Rightarrow> handlers block @
          (if ts ! 0 = ''handler'' then [(url_of block, block, ts ! 1)] else []))"

text \<open>
  Every statement has a word, and every handler statement a name and a block whose URL can be read
  (where it has none, it reads as the empty one).
\<close>

definition registrable_statement :: "statement \<Rightarrow> bool" where
  "registrable_statement s \<longleftrightarrow> tokens_of s \<noteq> [] \<and>
     (tokens_of s ! 0 = ''handler'' \<longrightarrow> 2 \<le> length (tokens_of s) \<and>
        (case child_block s of None \<Rightarrow> False | Some block \<Rightarrow> url_in (ToString 0 block) \<noteq> None))"

fun registrable :: "statement \<Rightarrow> bool" where
  "registrable (Statement ts child) \<longleftrightarrow> registrable_statement (Statement ts child) \<and>
     (case child of None \<Rightarrow> True | Some block \<Rightarrow> list_all registrable block)"

definition insert_all :: "(string \<times> config \<times> string) list \<Rightarrow> tables \<Rightarrow> tables" where
  "insert_all hs tb = fold (\<lambda>(url, block, name). insert_handler url block name) hs tb"

lemma insert_all_simps [simp]:
  "insert_all [] tb = tb"
  "insert_all ((url, block, name) # hs) tb = insert_all hs (insert_handler url block name tb)"
  "insert_all (hs @ hs') tb = insert_all hs' (insert_all hs tb)"
  by (simp_all add: insert_all_def)

lemma ParseString_insert_all:
  "list_all registrable c \<Longrightarrow> ParseString c tb = Inr (insert_all (handlers c) tb)"
  "registrable s \<Longrightarrow> parse_string_statement s tb = Inr (insert_all (statement_handlers s) tb)"
proof (induction c tb and s tb rule: ParseString_parse_string_statement.induct)
  case (3 ts child tb)
  show ?case
  proof (cases child)
    case None
    with 3 show ?thesis by (auto simp: registrable_statement_def)
  next
    case (Some block)
    with 3 have "ParseString block tb = Inr (insert_all (handlers block) tb)" by auto
    with 3(2) Some show ?thesis
      by (auto simp: registrable_statement_def url_of_def PeekURL_eq)
  qed
qed simp_all

lemma ParseString_Inr_registrable:
  "ParseString c tb = Inr tb' \<Longrightarrow> list_all registrable c"
  "parse_string_statement s tb = Inr tb' \<Longrightarrow> registrable s"
proof (induction c tb and s tb arbitrary: tb' and tb' rule: ParseString_parse_string_statement.induct)
  case (3 ts child tb)
  then have ts: "ts \<noteq> []" by (auto simp: vec_at_def split: if_splits)
  show ?case
  proof (cases child)
    case None
    with 3 ts show ?thesis by (auto simp: registrable_statement_def split: if_splits)
  next
    case (Some block)
    with 3 have "list_all registrable block" by auto
    with 3 ts Some show ?thesis
      by (auto simp: registrable_statement_def vec_at_def PeekURL_eq split: if_splits option.splits)
  qed
qed auto

lemma ParseString_Inl:
  "ParseString c tb = Inl e \<Longrightarrow> e = Undefined"
  "parse_string_statement s tb = Inl e \<Longrightarrow> e = Undefined"
proof (induction c tb and s tb arbitrary: e and e rule: ParseString_parse_string_statement.induct)
  case (3 ts child tb)
  then show ?case
    by (cases child) (auto simp: bind_res_eq_Inl vec_at_def PeekURL_eq split: if_splits option.splits)
qed (auto simp: bind_res_eq_Inl)

lemma insert_all_tables:
  "configTable (insert_all hs tb) =
     fold (\<lambda>(k, v). map_insert k v) (map (\<lambda>(u, b, n). (u, b)) hs) (configTable tb)"
  "handlerTable (insert_all hs tb) =
     fold (\<lambda>(k, v). map_insert k v) (map (\<lambda>(u, b, n). (u, n)) hs) (handlerTable tb)"
  "url_handlers_map (insert_all hs tb) =
     fold (\<lambda>(k, v). map_insert k v) (map (\<lambda>(u, b, n). (u, n)) hs) (url_handlers_map tb)"
  by (induction hs arbitrary: tb) (auto simp: insert_handler_def)

text \<open>The tables of a dispatcher, filled from empty ones: the first handler of a URL counts.\<close>

lemma routing_tables:
  assumes "ParseString c \<lparr>configTable = [], handlerTable = [], url_handlers_map = m\<rparr> = Inr tb"
  shows "map_of (handlerTable tb) u = map_of (map (\<lambda>(u, b, n). (u, n)) (handlers c)) u"
    and "map_of (configTable tb) u = map_of (map (\<lambda>(u, b, n). (u, b)) (handlers c)) u"
    and "ascending m \<Longrightarrow> ascending (url_handlers_map tb)"
    and "ascending m \<Longrightarrow> map_of (url_handlers_map tb) u =
      (case map_of m u of None \<Rightarrow> map_of (map (\<lambda>(u, b, n). (u, n)) (handlers c)) u | Some n \<Rightarrow> Some n)"
proof -
  have "tb = insert_all (handlers c) \<lparr>configTable = [], handlerTable = [], url_handlers_map = m\<rparr>"
    using ParseString_insert_all(1)[OF ParseString_Inr_registrable(1)[OF assms]] assms by auto
  then show "map_of (handlerTable tb) u = map_of (map (\<lambda>(u, b, n). (u, n)) (handlers c)) u"
    and "map_of (configTable tb) u = map_of (map (\<lambda>(u, b, n). (u, b)) (handlers c)) u"
    and "ascending m \<Longrightarrow> ascending (url_handlers_map tb)"
    and "ascending m \<Longrightarrow> map_of (url_handlers_map tb) u =
      (case map_of m u of None \<Rightarrow> map_of (map (\<lambda>(u, b, n). (u, n)) (handlers c)) u | Some n \<Rightarrow> Some n)"
    by (simp_all add: insert_all_tables std_map.find_ins_all std_map.inv_ins_all split: option.split)
qed

lemma same_keys:
  "map_of (map (\<lambda>(u, b, n). (u, n)) hs) u = None \<longleftrightarrow> map_of (map (\<lambda>(u, b, n). (u, b)) hs) u = None"
  by (induction hs) auto

section \<open>Properties\<close>

text \<open>
  A name that does not occur in a text that ends with a byte foreign to the name (a space or a
  line end, say) occurs first right behind this text.
\<close>

lemma first_at_after:
  assumes "\<not> sublist p pre" and "pre = [] \<or> last pre \<notin> set p"
  shows "first_at pre p post"
  unfolding first_at_def
proof (intro allI impI notI)
  fix j assume j: "j < length pre" and pr: "prefix p (drop j (pre @ p @ post))"
  define u where "u = drop j pre"
  have u: "u \<noteq> []" "last u = last pre" "prefix p (u @ p @ post)" "pre \<noteq> []"
    using j pr by (auto simp: u_def)
  from u(3) consider "prefix p u" | z where "p = u @ z"
    by (auto simp: prefix_append)
  then show False
  proof cases
    case 1
    then have "sublist p pre" unfolding u_def
      by (metis append_take_drop_id prefix_def sublist_appendI)
    with assms(1) show False by simp
  next
    case 2
    then have "last pre \<in> set p" using u by (metis Un_iff last_in_set set_append)
    with assms(2) u show False by simp
  qed
qed

text \<open>A block of statements with one value each, as the handler blocks are.\<close>

definition simple_block :: "(string \<times> string) list \<Rightarrow> config" where
  "simple_block kvs = map (\<lambda>(k, v). Statement [k, v] None) kvs"

lemma ToString_simple_block:
  "ToString 0 (simple_block (kvs @ (k, v) # kvs')) =
   ToString 0 (simple_block kvs) @ k @ '' '' @ v @ '';'' @ [CHR 0x0A] @ ToString 0 (simple_block kvs')"
  by (simp add: ToString_def simple_block_def indent_def)

lemma last_ToString_simple_block:
  "ToString 0 (simple_block kvs) = [] \<or> last (ToString 0 (simple_block kvs)) = CHR 0x0A"
proof (cases kvs rule: rev_cases)
  case (snoc xs x)
  then show ?thesis by (cases x) (simp add: ToString_def simple_block_def)
qed (simp add: ToString_def simple_block_def)

text \<open>In a block of simple statements, GetAttribute returns the value of the first statement with
  the given name, provided the name does not already occur, as a piece of text, in the
  statements before it.\<close>

theorem GetAttribute_value:
  assumes "\<not> sublist a (ToString 0 (simple_block kvs))" and "CHR 0x0A \<notin> set a"
    and "CHR '';'' \<notin> set v" and "CHR 0x00 \<notin> set v"
  shows "GetAttribute (simple_block (kvs @ (a, v) # kvs')) a = Inr v"
proof (rule GetAttribute_first)
  let ?pre = "ToString 0 (simple_block kvs)" and ?post = "[CHR 0x0A] @ ToString 0 (simple_block kvs')"
  show "ToString 0 (simple_block (kvs @ (a, v) # kvs')) = ?pre @ a @ '' '' @ v @ '';'' @ ?post"
    by (simp add: ToString_simple_block)
  show "first_at ?pre a ('' '' @ v @ '';'' @ ?post)"
    using assms(1,2) last_ToString_simple_block[of kvs] by (intro first_at_after) auto
qed (use assms in auto)

theorem GetAttribute_value_witness:
  "GetAttribute (simple_block [(''location'', ''/static_files1''), (''url'', ''/static1'')]) ''url'' =
   Inr ''/static1''"
  using GetAttribute_value[of "''url''" "[(''location'', ''/static_files1'')]" "''/static1''" "[]"]
  by (simp add: ToString_def simple_block_def indent_def sublist_Cons_right)

text \<open>GetAttribute returns a value exactly when the name occurs somewhere in the printed block;
  when it does not occur the function runs off its end, which is undefined behaviour (so
  creating a handler from a block without the attribute is).\<close>

theorem GetAttribute_undefined_iff:
  "GetAttribute c a = Inl Undefined \<longleftrightarrow> \<not> sublist a (ToString 0 c)"
  using GetAttribute_cases[of a c] by (auto split: if_splits)

text \<open>GetPort reads, with \<^verbatim>\<open>atoi\<close>, what follows the first \<^verbatim>\<open>listen\<close> and one byte, up to a semicolon.\<close>

definition port_text :: "config \<Rightarrow> string" where
  "port_text c = (case value_after ''listen'' (ToString 0 c) of Some (Some (u, post)) \<Rightarrow> tl u | _ \<Rightarrow> [])"

lemma scan_value_unclosed:
  "CHR '';'' \<notin> set (drop start s) \<Longrightarrow> start + e \<le> length s \<Longrightarrow> scan_value s start e = Inr None"
proof (induction s start e rule: scan_value.induct)
  case (1 s start e)
  show ?case
  proof (cases "start + e < length s")
    case True
    then have "s ! (start + e) \<in> set (drop start s)"
      using nth_mem[of e "drop start s"] by (simp add: less_diff_conv add.commute)
    then have "s ! (start + e) \<noteq> CHR '';''" using "1.prems"(1) by metis
    with 1 True show ?thesis by (subst scan_value.simps) (simp add: str_at_def)
  qed (use 1 in \<open>subst scan_value.simps, simp add: str_at_def\<close>)
qed

lemma atoi_semicolon: "atoi (v @ '';'') = atoi v"
proof -
  have digits: "takeWhile is_digit (r @ '';'') = takeWhile is_digit r" for r
    by (induction r) (simp_all add: is_digit_def)
  define r where "r = dropWhile is_space v"
  have "dropWhile is_space (v @ '';'') = r @ '';''"
    unfolding r_def by (induction v) (simp_all add: is_space_def)
  then have "read_int (v @ '';'') = read_int v"
    using digits digits[of "[]"]
    by (cases r) (simp_all add: read_int_def Let_def flip: r_def)
  then show ?thesis by (simp add: atoi_def)
qed

lemma GetPort_eq: "GetPort c = atoi (c_str (port_text c))"
proof -
  have zero: "atoi (c_str []) = Inr 0" by code_simp
  have c_str: "atoi (c_str (v @ '';'')) = atoi (c_str v)" for v
    using atoi_semicolon[of v] by (cases "CHR 0x00 \<in> set v") (simp_all add: c_str_def takeWhile_append1 c_str_id[unfolded c_str_def])
  have catch: "catch_exception (atoi v) 0 = atoi v" "catch_exception (Inr 0) (0 :: int) = Inr 0" for v
    by (simp_all add: atoi_def catch_exception_def split: option.split)
  define s where "s = ToString 0 c"
  show ?thesis
  proof (cases "str_find s ''listen''")
    case None
    then show ?thesis by (simp add: GetPort_def port_text_def value_after_def zero flip: s_def ToString_def)
  next
    case (Some i)
    from Some show ?thesis
    proof (cases rule: value_after_cases)
      case unclosed
      have "i + 6 \<le> length s" using str_find_SomeD(2)[OF Some] by simp
      then have "scan_value s (i + 6) 0 = Inr None"
        using unclosed(2) by (intro scan_value_unclosed) (simp_all add: eval_nat_numeral)
      with Some unclosed(1) show ?thesis by (simp add: GetPort_def port_text_def zero flip: s_def ToString_def)
    next
      case (closed u post)
      define pre where "pre = take (i + length ''listen'') s"
      have eq: "s = pre @ u @ CHR '';'' # post" unfolding pre_def by (rule closed(2))
      have len: "length pre = i + 6" using closed(4) by (simp add: pre_def)
      note s = eq len
      have "scan_value s (i + 6) 0 = Inr (Some (length u))"
        unfolding s(1) using scan_value_found[OF closed(3), of pre "i + 6" 0 post] s(2) by simp
      moreover have "substr s (int i + 7) (int (length u)) = Inr (if u = [] then [] else tl u @ '';'')"
        unfolding s(1) using s(2) by (cases u) (simp_all add: substr_def nat_add_distrib)
      ultimately show ?thesis
        using Some closed(1) by (cases u) (simp_all add: GetPort_def port_text_def zero c_str catch flip: s_def ToString_def)
    qed
  qed
qed

text \<open>GetPort returns the number of the first listen statement.\<close>

theorem GetPort_listen:
  assumes "ToString 0 c = pre @ ''listen '' @ to_string n @ '';'' @ post"
    and "\<not> sublist ''listen'' pre" and "pre = [] \<or> last pre \<notin> set ''listen''" and "n < 2 ^ 31"
  shows "GetPort c = Inr (int n)"
  using assms by (intro GetPort_first[OF assms(1)] first_at_after) auto

theorem GetPort_listen_witness:
  "GetPort [Statement [''http''] (Some [Statement [''server''] (Some
     [Statement [''listen'', ''80''] None, Statement [''root'', ''/srv''] None])])] = Inr 80"
proof -
  define pre where "pre = ''http {'' @ [CHR 0x0A] @ ''    server {'' @ [CHR 0x0A] @ ''        ''"
  define post where "post = [CHR 0x0A] @ ''        root /srv;'' @ [CHR 0x0A] @ ''    }'' @ [CHR 0x0A] @ ''}'' @ [CHR 0x0A]"
  have "ToString 0 [Statement [''http''] (Some [Statement [''server''] (Some
     [Statement [''listen'', ''80''] None, Statement [''root'', ''/srv''] None])])] =
     pre @ ''listen '' @ to_string 80 @ '';'' @ post"
    unfolding pre_def post_def by code_simp
  moreover have "str_find pre ''listen'' = None" unfolding pre_def by code_simp
  moreover have "last pre \<notin> set ''listen''" by (simp add: pre_def)
  moreover have "(80 :: nat) < 2 ^ 31" by simp
  ultimately show ?thesis
    using GetPort_listen[of _ pre 80 post] by (metis of_nat_numeral str_find_None_iff)
qed

text \<open>GetRoot returns the value of the root statement with the semicolon that ends the statement
  still attached, unlike GetAttribute.\<close>

theorem GetRoot_keeps_semicolon:
  assumes "statement_ToString 0 s = pre @ ''root '' @ v @ '';'' @ post"
    and "\<not> sublist ''root'' pre" and "pre = [] \<or> last pre \<notin> set ''root''"
    and "CHR '';'' \<notin> set v" and "CHR 0x00 \<notin> set v"
  shows "GetRoot (s # ss) = Inr (v @ '';'')"
  using assms by (intro GetRoot_first[OF assms(1)] first_at_after) auto

theorem GetRoot_keeps_semicolon_witness:
  "GetRoot [Statement [''root'', ''/srv''] None] = Inr ''/srv;''"
  using GetRoot_keeps_semicolon[of "Statement [''root'', ''/srv''] None" "[]" "''/srv''" "[CHR 0x0A]" "[]"]
  by (simp add: indent_def)

text \<open>C28: When every statement has a word and every handler statement has a name and a block in whose text the
  first url, if there is one, is ended by a semicolon, ParseString enters the handler statements, in the
  order in which they are reached, into the three maps: the block and twice the name under the URL (the
  empty one if the block has none), where an entry that is already there stays. On any other tree it
  runs into undefined behaviour.\<close>

theorem ParseString_exact:
  assumes "ascending (configTable tb)" and "ascending (handlerTable tb)" and "ascending (url_handlers_map tb)"
  shows "if list_all registrable c
    then \<exists>tb'. ParseString c tb = Inr tb' \<and>
      ascending (configTable tb') \<and> ascending (handlerTable tb') \<and> ascending (url_handlers_map tb') \<and>
      map_of (configTable tb') = map_of (map (\<lambda>(url, block, name). (url, block)) (handlers c)) ++ map_of (configTable tb) \<and>
      map_of (handlerTable tb') = map_of (map (\<lambda>(url, block, name). (url, name)) (handlers c)) ++ map_of (handlerTable tb) \<and>
      map_of (url_handlers_map tb') =
        map_of (map (\<lambda>(url, block, name). (url, name)) (handlers c)) ++ map_of (url_handlers_map tb)
    else ParseString c tb = Inl Undefined"
proof (cases "list_all registrable c")
  case True
  with assms ParseString_insert_all(1)[OF True, of tb] show ?thesis
    by (simp add: insert_all_tables std_map.inv_ins_all std_map.find_ins_all fun_eq_iff map_add_def)
next
  case False
  then show ?thesis
    using ParseString_Inr_registrable(1)[of c tb] ParseString_Inl(1)[of c tb] by (cases "ParseString c tb") auto
qed

definition two_urls :: config where
  "two_urls = [Statement [''handler'', ''echo''] (Some [Statement [''url'', ''/a''] None]),
     Statement [''server''] (Some [Statement [''handler'', ''bad''] (Some [Statement [''url'', ''/a''] None]),
       Statement [''handler'', ''health''] (Some [Statement [''url'', ''/b''] None])])]"

theorem ParseString_exact_witness:
  "\<exists>tb'. ParseString two_urls \<lparr>configTable = [], handlerTable = [], url_handlers_map = []\<rparr> = Inr tb' \<and>
     map_of (handlerTable tb') = [''/a'' \<mapsto> ''echo'', ''/b'' \<mapsto> ''health''] \<and>
     map_of (configTable tb') ''/b'' = Some [Statement [''url'', ''/b''] None]"
proof -
  have "handlers two_urls = [(''/a'', [Statement [''url'', ''/a''] None], ''echo''),
      (''/a'', [Statement [''url'', ''/a''] None], ''bad''), (''/b'', [Statement [''url'', ''/b''] None], ''health'')]"
    by code_simp
  moreover have "list_all registrable two_urls" by code_simp
  ultimately show ?thesis
    using ParseString_exact[of "\<lparr>configTable = [], handlerTable = [], url_handlers_map = []\<rparr>" two_urls]
    by (auto simp: fun_eq_iff)
qed

end
