(* ===== verification/Status_Obj.thy ===== *)
theory Status_Obj
  imports Cpp_Prelude "HOL-Library.Word"
begin

text \<open>
  \<^verbatim>\<open>src/status_obj.cc\<close>, \<^verbatim>\<open>include/status_obj.h\<close>: the process-wide table of requests, one entry
  per URL and response code with the number of such requests. The counters are \<^verbatim>\<open>int\<close>s, kept
  at their width; adding one to the largest \<^verbatim>\<open>int\<close> is undefined. The static map
  \<^verbatim>\<open>url_handlers_map_\<close> is in the record \<open>tables\<close> of \<open>Nginx_Config\<close>, which fills it.
\<close>

type_synonym status_entry = "32 word \<times> string \<times> string"

definition int_max :: "32 word" where
  "int_max = 0x7FFFFFFF"

text \<open>
  \<^verbatim>\<open>StatusObject::addStatusEntry\<close>: the loop over the entries, which returns from the one that
  matches, and the \<^verbatim>\<open>push_back\<close> behind the loop.
\<close>

fun addStatusEntry :: "string \<Rightarrow> string \<Rightarrow> status_entry list \<Rightarrow> status_entry list res" where
  "addStatusEntry request_url resp_code [] = Inr [(1, request_url, resp_code)]"
| "addStatusEntry request_url resp_code ((n, u, c) # es) =
     (if u = request_url \<and> c = resp_code
      then if n = int_max then Inl Undefined else Inr ((n + 1, u, c) # es)
      else bind_res (addStatusEntry request_url resp_code es) (\<lambda>es'. Inr ((n, u, c) # es')))"

definition getStatusEntries :: "status_entry list \<Rightarrow> status_entry list" where
  "getStatusEntries status_entries = status_entries"

text \<open>\<^verbatim>\<open>StatusObject::getStatusCalls\<close>: an \<^verbatim>\<open>unsigned int\<close> sum, returned as \<^verbatim>\<open>int\<close>.\<close>

definition getStatusCalls :: "status_entry list \<Rightarrow> int" where
  "getStatusCalls status_entries = sint (foldl (\<lambda>count e. count + fst e) 0 status_entries)"

section \<open>The table is a summary of the requests served\<close>

fun add_all :: "(string \<times> string) list \<Rightarrow> status_entry list \<Rightarrow> status_entry list res" where
  "add_all [] es = Inr es"
| "add_all ((u, c) # hist) es = bind_res (addStatusEntry u c es) (add_all hist)"

text \<open>
  The abstraction: for a history of requests, the entries in the order of their first
  occurrence, each with the number of its occurrences.
\<close>

definition summary :: "(string \<times> string) list \<Rightarrow> status_entry list" where
  "summary hist = map (\<lambda>p. (of_nat (count_list hist p), p)) (rev (remdups (rev hist)))"

lemma addStatusEntry_new:
  "(u, c) \<notin> set ps \<Longrightarrow>
   addStatusEntry u c (map (\<lambda>p. (f p, p)) ps) = Inr (map (\<lambda>p. (f p, p)) ps @ [(1, u, c)])"
  by (induction ps) (auto split: if_splits)

lemma addStatusEntry_old:
  "(u, c) \<in> set ps \<Longrightarrow> distinct ps \<Longrightarrow> f (u, c) \<noteq> int_max \<Longrightarrow>
   addStatusEntry u c (map (\<lambda>p. (f p, p)) ps) =
     Inr (map (\<lambda>p. (if p = (u, c) then f p + 1 else f p, p)) ps)"
proof (induction ps)
  case (Cons p ps)
  show ?case
  proof (cases "p = (u, c)")
    case True
    with Cons.prems show ?thesis by (auto intro!: map_cong)
  next
    case False
    with Cons show ?thesis by (cases p) auto
  qed
qed simp

text \<open>The pairs of the table: an entry is added for a new pair only, at the end.\<close>

lemma addStatusEntry_keys:
  "addStatusEntry u c es = Inr es' \<Longrightarrow> map snd es' =
   (if (u, c) \<in> snd ` set es then map snd es else map snd es @ [(u, c)])"
  by (induction u c es arbitrary: es' rule: addStatusEntry.induct)
    (auto split: if_splits simp: image_iff Bex_def)

lemma count_word_not_max:
  "n < 2 ^ 31 - 1 \<Longrightarrow> (of_nat n :: 32 word) \<noteq> int_max"
proof
  assume n: "n < 2 ^ 31 - 1" and "(of_nat n :: 32 word) = int_max"
  then have "unat (of_nat n :: 32 word) = unat int_max" by simp
  with n show False by (simp add: int_max_def unat_of_nat)
qed

lemma addStatusEntry_summary:
  assumes "length hist < 2 ^ 31 - 1"
  shows "addStatusEntry u c (summary hist) = Inr (summary (hist @ [(u, c)]))"
proof (cases "(u, c) \<in> set hist")
  case True
  have "count_list hist (u, c) < 2 ^ 31 - 1"
    using assms count_le_length[of hist "(u, c)"] by simp
  then have "addStatusEntry u c (summary hist) =
      Inr (map (\<lambda>p. (if p = (u, c) then of_nat (count_list hist p) + 1
        else of_nat (count_list hist p), p)) (rev (remdups (rev hist))))"
    unfolding summary_def using True
    by (intro addStatusEntry_old) (auto simp: count_word_not_max)
  with True show ?thesis by (auto simp: summary_def add.commute intro!: map_cong)
next
  case False
  then have "addStatusEntry u c (summary hist) = Inr (summary hist @ [(1, u, c)])"
    unfolding summary_def by (intro addStatusEntry_new) simp
  with False show ?thesis
    by (auto simp: summary_def intro!: map_cong)
qed

lemma add_all_summary:
  "length (pre @ hist) < 2 ^ 31 \<Longrightarrow> add_all hist (summary pre) = Inr (summary (pre @ hist))"
proof (induction hist arbitrary: pre)
  case Nil
  then show ?case by simp
next
  case (Cons p hist)
  obtain u c where "p = (u, c)" by (cases p)
  with Cons.IH[of "pre @ [p]"] Cons.prems addStatusEntry_summary[of pre u c] show ?case by simp
qed

lemma foldl_add_word: "foldl (\<lambda>s e. s + fst e) (k :: 32 word) es = k + sum_list (map fst es)"
  by (induction es arbitrary: k) (simp_all add: add.assoc)

lemma sum_count: "(\<Sum>p\<leftarrow>rev (remdups (rev hist)). count_list hist p) = length hist"
proof -
  have "(\<Sum>p\<leftarrow>remdups (rev hist). count_list hist p) = (\<Sum>p\<in>set hist. count_list hist p)"
    by (simp add: sum_list_distinct_conv_sum_set)
  then show ?thesis by (simp add: sum_count_set rev_map[symmetric])
qed

lemma getStatusCalls_summary:
  assumes "length hist < 2 ^ 31"
  shows "getStatusCalls (summary hist) = int (length hist)"
proof -
  have "sum_list (map (\<lambda>p. of_nat (g p) :: 32 word) ps) = of_nat (sum_list (map g ps))"
    for g :: "string \<times> string \<Rightarrow> nat" and ps
    by (induction ps) simp_all
  then have "sum_list (map fst (summary hist)) = (of_nat (length hist) :: 32 word)"
    using sum_count[of hist] by (simp add: summary_def comp_def)
  then have "getStatusCalls (summary hist) = sint (of_nat (length hist) :: 32 word)"
    by (simp add: getStatusCalls_def foldl_add_word)
  also have "\<dots> = int (length hist)"
    using assms by (simp add: signed_of_nat signed_take_bit_int_eq_self)
  finally show ?thesis .
qed

section \<open>Properties\<close>

text \<open>C29: Adding the requests of a history one by one to the empty table never fails and gives the table of
  the distinct pairs of URL and code in the order of their first occurrence, each with the number
  of its occurrences.\<close>

theorem status_table_is_summary:
  assumes "length hist < 2 ^ 31"
  shows "add_all hist [] = Inr (summary hist)"
  using add_all_summary[of "[]" hist] assms by (simp add: summary_def)

theorem status_table_is_summary_witness:
  "add_all [(''/a'', ''200''), (''/b'', ''404''), (''/a'', ''200'')] [] =
   Inr [(2, ''/a'', ''200''), (1, ''/b'', ''404'')]"
  using status_table_is_summary[of "[(''/a'', ''200''), (''/b'', ''404''), (''/a'', ''200'')]"]
  by (simp add: summary_def)

end
