(* ===== verification/Simple_Handlers.thy ===== *)
theory Simple_Handlers
  imports Request Response Nginx_Config Status_Obj
begin

text \<open>
  The handlers that answer from memory: \<^verbatim>\<open>src/echo_handler.cc\<close>, \<^verbatim>\<open>src/health_handler.cc\<close>,
  \<^verbatim>\<open>src/bad_handler.cc\<close>, \<^verbatim>\<open>src/error_handler.cc\<close>, \<^verbatim>\<open>src/status_handler.cc\<close>, each with its
  \<^verbatim>\<open>create\<close> and its \<^verbatim>\<open>HandleRequest\<close>. A handler returns the response and the lines it
  prints for the monitoring; the trace log is left out.
\<close>

record simple_handler =
  root :: string
  uri :: string

section \<open>Echo\<close>

definition EchoHandler_create :: "config \<Rightarrow> string \<Rightarrow> simple_handler res" where
  "EchoHandler_create config path =
     bind_res (GetAttribute config ''url'') (\<lambda>url. Inr \<lparr>root = path, uri = url\<rparr>)"

definition EchoHandler_HandleRequest :: "request \<Rightarrow> response \<times> string list" where
  "EchoHandler_HandleRequest request =
     (let body = req_raw request;
          response = SetStatus OK new_Response;
          response = ReSetHeader ''Content-Type'' ''text/plain'' response;
          response = SetHeader ''Content-Length'' (to_string (length body)) response;
          response = SetBody body response
      in (response, [''::HandlerMetrics:: handler:echo'',
                     ''::ResponseMetrics:: response_code:200'']))"

section \<open>Health\<close>

definition HealthHandler_create :: "config \<Rightarrow> string \<Rightarrow> simple_handler res" where
  "HealthHandler_create config path =
     bind_res (GetAttribute config ''url'') (\<lambda>url. Inr \<lparr>root = path, uri = url\<rparr>)"

definition HealthHandler_HandleRequest :: "request \<Rightarrow> response \<times> string list" where
  "HealthHandler_HandleRequest request =
     (let body = ''OK'';
          response = SetStatus OK new_Response;
          response = ReSetHeader ''Content-Type'' ''text/plain'' response;
          response = SetHeader ''Content-Length'' (to_string (length body)) response;
          response = SetBody body response
      in (response, [''::HandlerMetrics:: handler:health'',
                     ''::ResponseMetrics:: response_code:200'']))"

section \<open>Bad request\<close>

definition BadHandler_create :: "config \<Rightarrow> string \<Rightarrow> simple_handler res" where
  "BadHandler_create config path = Inr \<lparr>root = path, uri = ''''\<rparr>"

definition BadHandler_HandleRequest :: "request \<Rightarrow> response \<times> string list" where
  "BadHandler_HandleRequest request =
     (let body = ''400:Bad Request'';
          response = SetStatus BAD_REQUEST new_Response;
          response = ReSetHeader ''Content-Type'' ''text/plain'' response;
          response = SetHeader ''Content-Length'' (to_string (length body)) response;
          response = SetBody body response
      in (response, [''::HandlerMetrics:: handler:bad'',
                     ''::ResponseMetrics:: response_code:400'']))"

section \<open>Not found\<close>

definition ErrorHandler_create :: "config \<Rightarrow> string \<Rightarrow> simple_handler res" where
  "ErrorHandler_create config path = Inr \<lparr>root = path, uri = ''''\<rparr>"

definition ErrorHandler_HandleRequest :: "request \<Rightarrow> response \<times> string list" where
  "ErrorHandler_HandleRequest request =
     (let error_msg = ''404: File not found on path. Please provide correct path.'';
          response = SetStatus NOT_FOUND new_Response;
          response = ReSetHeader ''Content-Type'' ''text/plain'' response;
          response = SetHeader ''Content-Length'' (to_string (length error_msg)) response;
          response = SetBody error_msg response
      in (response, [''::HandlerMetrics:: handler:error'',
                     ''::ResponseMetrics:: response_code:404'']))"

section \<open>Status\<close>

definition StatusHandler_create :: "config \<Rightarrow> string \<Rightarrow> simple_handler res" where
  "StatusHandler_create config path =
     bind_res (GetAttribute config ''url'') (\<lambda>url. Inr \<lparr>root = path, uri = url\<rparr>)"

text \<open>The two loops of the handler: over the registered URLs, and over the entries.\<close>

fun handler_lines :: "string std_map \<Rightarrow> string" where
  "handler_lines [] = []"
| "handler_lines ((url, name) # m) =
     ''Handler Type: '' @ name @ '' | URL Prefix: '' @ url @ [CHR 0x0A] @ handler_lines m"

fun entry_lines :: "status_entry list \<Rightarrow> string" where
  "entry_lines [] = []"
| "entry_lines ((n, url, code) # es) =
     ''Request URL: '' @ url @ '' | Response Code: '' @ code @ '' | Request Count: '' @
     int_to_string (sint n) @ [CHR 0x0A] @ entry_lines es"

definition status_body :: "status_entry list \<Rightarrow> string std_map \<Rightarrow> string" where
  "status_body status_entries url_handlers =
     ''Status Page: git-r-done Server '' @ [CHR 0x0A] @
     [CHR 0x0A] @ ''Request Handlers That Exist and Their Corresponding URL Prefixes:'' @ [CHR 0x0A] @
     handler_lines url_handlers @ [CHR 0x0A] @
     ''Total Requests Made To git-r-done Server: '' @
     int_to_string (getStatusCalls status_entries) @ [CHR 0x0A] @
     entry_lines (getStatusEntries status_entries)"

definition StatusHandler_HandleRequest ::
  "status_entry list \<Rightarrow> string std_map \<Rightarrow> request \<Rightarrow> response \<times> string list" where
  "StatusHandler_HandleRequest status_entries url_handlers request =
     (let body = status_body status_entries url_handlers;
          response = SetStatus OK new_Response;
          response = ReSetHeader ''Content-Type'' ''text/plain'' response;
          response = SetHeader ''Content-Length'' (to_string (length body)) response;
          response = SetBody body response
      in (response, [''::HandlerMetrics:: handler:status'',
                     ''::ResponseMetrics:: response_code:200'']))"

section \<open>What they answer\<close>

lemma simple_responses:
  "EchoHandler_HandleRequest q = (build_response OK ''text/plain'' (req_raw q),
     [''::HandlerMetrics:: handler:echo'', ''::ResponseMetrics:: response_code:200''])"
  "HealthHandler_HandleRequest q = (build_response OK ''text/plain'' ''OK'',
     [''::HandlerMetrics:: handler:health'', ''::ResponseMetrics:: response_code:200''])"
  "BadHandler_HandleRequest q = (build_response BAD_REQUEST ''text/plain'' ''400:Bad Request'',
     [''::HandlerMetrics:: handler:bad'', ''::ResponseMetrics:: response_code:400''])"
  "ErrorHandler_HandleRequest q = (build_response NOT_FOUND ''text/plain''
       ''404: File not found on path. Please provide correct path.'',
     [''::HandlerMetrics:: handler:error'', ''::ResponseMetrics:: response_code:404''])"
  "StatusHandler_HandleRequest es m q = (build_response OK ''text/plain'' (status_body es m),
     [''::HandlerMetrics:: handler:status'', ''::ResponseMetrics:: response_code:200''])"
  by (simp_all add: EchoHandler_HandleRequest_def HealthHandler_HandleRequest_def
      BadHandler_HandleRequest_def ErrorHandler_HandleRequest_def StatusHandler_HandleRequest_def
      build_response_def Let_def)

lemma code_strings:
  "to_string 200 = ''200''" "to_string 302 = ''302''" "to_string 400 = ''400''" "to_string 404 = ''404''"
  by code_simp+

lemma logs_status_two:
  assumes "to_string (code_of c) = code" and "\<not> prefix ''::ResponseMetrics'' line"
  shows "logs_status (build_response c ty b) [line, ''::ResponseMetrics:: response_code:'' @ code]"
  using assms by (auto simp: logs_status_def response_metric_def)

lemma logs_status_nil: "logs_status r []"
  by (simp add: logs_status_def)

interpretation echo: handler_contract "\<lambda>q r log. EchoHandler_HandleRequest q = (r, log)"
  by unfold_locales
    (auto simp: simple_responses code_strings logs_status_two[where c = OK and code = "''200''", simplified])

interpretation health: handler_contract "\<lambda>q r log. HealthHandler_HandleRequest q = (r, log)"
  by unfold_locales
    (auto simp: simple_responses code_strings logs_status_two[where c = OK and code = "''200''", simplified])

interpretation bad: handler_contract "\<lambda>q r log. BadHandler_HandleRequest q = (r, log)"
  by unfold_locales
    (auto simp: simple_responses code_strings
      logs_status_two[where c = BAD_REQUEST and code = "''400''", simplified])

interpretation error: handler_contract "\<lambda>q r log. ErrorHandler_HandleRequest q = (r, log)"
  by unfold_locales
    (auto simp: simple_responses code_strings
      logs_status_two[where c = NOT_FOUND and code = "''404''", simplified])

interpretation status: handler_contract
  "\<lambda>(es, m, q) r log. StatusHandler_HandleRequest es m q = (r, log)"
  by unfold_locales
    (auto simp: simple_responses code_strings logs_status_two[where c = OK and code = "''200''", simplified])

end
