(* ===== verification/Url_Parser.thy ===== *)
theory Url_Parser
  imports Boost_Strings
begin

text \<open>
  \<^verbatim>\<open>src/url_parser.cc\<close>, \<^verbatim>\<open>include/url_parser.h\<close>: percent decoding and the HTML entities.
\<close>

section \<open>Percent decoding\<close>

definition is_hex :: "char \<Rightarrow> bool" where
  "is_hex c \<longleftrightarrow> c \<in> set ''0123456789ABCDEFabcdef''"

definition hex_val :: "char \<Rightarrow> nat" where
  "hex_val c = (if is_digit c then of_char c - 48
                else if c \<in> set ''ABCDEF'' then of_char c - 55 else of_char c - 87)"

text \<open>
  What \<^verbatim>\<open>sscanf(s, "%x", &j)\<close> stores: white space and a sign are skipped, an optional
  \<open>0x\<close> must be followed by a digit; \<open>None\<close> when nothing is stored.
\<close>

definition scan_hex :: "string \<Rightarrow> int option" where
  "scan_hex s =
     (let s1 = dropWhile is_space (c_str s);
          (neg, s2) = (case s1 of [] \<Rightarrow> (False, [])
                       | c # r \<Rightarrow> if c = CHR ''-'' then (True, r)
                                 else if c = CHR ''+'' then (False, r) else (False, c # r));
          s3 = (if prefix ''0x'' s2 \<or> prefix ''0X'' s2 then drop 2 s2 else s2);
          ds = takeWhile is_hex s3;
          v = int (foldl (\<lambda>v c. 16 * v + hex_val c) 0 ds)
      in if ds = [] then None else Some (if neg then - v else v))"

text \<open>
  \<^verbatim>\<open>URLParser::urlDecode\<close>: the loop, with the variable \<^verbatim>\<open>j\<close>, which keeps its value between
  the rounds and has none before the first conversion. The cast to \<^verbatim>\<open>char\<close> keeps the low byte.
\<close>

function url_decode_loop :: "int option \<Rightarrow> string \<Rightarrow> string res" where
  "url_decode_loop j [] = Inr []"
| "url_decode_loop j (c # s) =
     (if c = CHR ''%'' then
        (let j' = (case scan_hex (take 2 s) of None \<Rightarrow> j | Some v \<Rightarrow> Some v) in
         case j' of
           None \<Rightarrow> Inl Undefined
         | Some v \<Rightarrow> bind_res (url_decode_loop j' (drop 2 s)) (\<lambda>ret.
             Inr (char_of (nat (v mod 256)) # ret)))
      else bind_res (url_decode_loop j s) (\<lambda>ret. Inr (c # ret)))"
  by pat_completeness auto
termination
  by (relation "measure (\<lambda>(j, s). length s)") auto

definition urlDecode :: "string \<Rightarrow> string res" where
  "urlDecode eString = url_decode_loop None eString"

section \<open>HTML entities\<close>

definition html_char :: "char \<Rightarrow> string" where
  "html_char c =
     (if c = CHR ''&'' then ''&amp;''
      else if c = CHR 0x22 then ''&quot;''
      else if c = CHR 0x27 then ''&apos;''
      else if c = CHR ''<'' then ''&lt;''
      else if c = CHR ''>'' then ''&gt;''
      else if c = CHR '' '' then ''&nbsp;''
      else [c])"

text \<open>\<^verbatim>\<open>URLParser::htmlEncode\<close>\<close>

fun htmlEncode :: "string \<Rightarrow> string" where
  "htmlEncode [] = []"
| "htmlEncode (c # data) = html_char c @ htmlEncode data"

text \<open>\<^verbatim>\<open>URLParser::htmlDecode\<close>, over \<^verbatim>\<open>boost::replace_all\<close>; the ampersand is decoded first.\<close>

definition htmlDecode :: "(string \<Rightarrow> string \<Rightarrow> string \<Rightarrow> string) \<Rightarrow> string \<Rightarrow> string" where
  "htmlDecode replace_all data =
     (let buffer = data;
          buffer = replace_all buffer ''&amp;'' ''&'';
          buffer = replace_all buffer ''&quot;'' [CHR 0x22];
          buffer = replace_all buffer ''&apos;'' [CHR 0x27];
          buffer = replace_all buffer ''&lt;'' ''<'';
          buffer = replace_all buffer ''&gt;'' ''>'';
          buffer = replace_all buffer ''&nbsp;'' '' ''
      in buffer)"

section \<open>Percent decoding inverts percent encoding\<close>

definition hex_digit :: "nat \<Rightarrow> char" where
  "hex_digit n = ''0123456789ABCDEF'' ! n"

definition percent_byte :: "char \<Rightarrow> string" where
  "percent_byte c = [CHR ''%'', hex_digit (of_char c div 16), hex_digit (of_char c mod 16)]"

text \<open>An encoder that may leave any bytes but the percent sign as they are.\<close>

definition percent_encode :: "(char \<Rightarrow> bool) \<Rightarrow> string \<Rightarrow> string" where
  "percent_encode plain s =
     concat (map (\<lambda>c. if plain c \<and> c \<noteq> CHR ''%'' then [c] else percent_byte c) s)"

lemma hex_digit_cases:
  assumes "n < 16"
  shows "is_hex (hex_digit n)" "hex_val (hex_digit n) = n" "\<not> is_space (hex_digit n)"
    "hex_digit n \<noteq> CHR 0x00" "hex_digit n \<noteq> CHR ''-''" "hex_digit n \<noteq> CHR ''+''"
    "hex_digit n \<noteq> CHR ''x''" "hex_digit n \<noteq> CHR ''X''"
proof -
  have "list_all (\<lambda>n. is_hex (hex_digit n) \<and> hex_val (hex_digit n) = n \<and> \<not> is_space (hex_digit n) \<and>
      hex_digit n \<notin> {CHR 0x00, CHR ''-'', CHR ''+'', CHR ''x'', CHR ''X''}) [0..<16]"
    by code_simp
  with assms show "is_hex (hex_digit n)" "hex_val (hex_digit n) = n" "\<not> is_space (hex_digit n)"
    "hex_digit n \<noteq> CHR 0x00" "hex_digit n \<noteq> CHR ''-''" "hex_digit n \<noteq> CHR ''+''"
    "hex_digit n \<noteq> CHR ''x''" "hex_digit n \<noteq> CHR ''X''"
    by (simp_all add: list_all_iff)
qed

lemma scan_hex_digits:
  "m < 16 \<Longrightarrow> n < 16 \<Longrightarrow> scan_hex [hex_digit m, hex_digit n] = Some (int (16 * m + n))"
  using hex_digit_cases[of m] hex_digit_cases[of n]
  by (simp add: scan_hex_def c_str_def)

lemma of_char_less_256: "of_char c < (256 :: nat)"
  by (metis char_of_char of_char_of mod_less_divisor zero_less_numeral)

lemma url_decode_byte:
  "url_decode_loop j (percent_byte c @ s) =
   bind_res (url_decode_loop (Some (int (of_char c))) s) (\<lambda>r. Inr (c # r))"
proof -
  have "of_char c < (256 :: nat)" by (rule of_char_less_256)
  then have m: "of_char c div 16 < (16 :: nat)" by (simp add: less_mult_imp_div_less)
  have "int (16 * (of_char c div 16) + of_char c mod 16) = int (of_char c)"
    by (metis mult_div_mod_eq)
  with scan_hex_digits[OF m, of "of_char c mod 16"] show ?thesis
    by (simp add: percent_byte_def)
qed

lemma url_decode_encode: "url_decode_loop j (percent_encode plain s) = Inr s"
proof (induction s arbitrary: j)
  case Nil
  show ?case by (simp add: percent_encode_def)
next
  case (Cons c s)
  then show ?case
    using url_decode_byte[of j c "percent_encode plain s"] by (auto simp: percent_encode_def)
qed

section \<open>Entities: what encoding guarantees and when decoding inverts it\<close>

lemma htmlEncode_concat: "htmlEncode s = concat (map html_char s)"
  by (induction s) simp_all

definition html_special :: "char set" where
  "html_special = {CHR 0x22, CHR 0x27, CHR ''<'', CHR ''>'', CHR '' ''}"

lemma htmlEncode_no_special: "c \<in> set (htmlEncode s) \<Longrightarrow> c \<notin> html_special"
  by (induction s) (auto simp: html_char_def html_special_def split: if_splits)

text \<open>Two texts that differ at a position both have, so neither is the start of the other.\<close>

fun differ :: "string \<Rightarrow> string \<Rightarrow> bool" where
  "differ (x # xs) (y # ys) \<longleftrightarrow> x \<noteq> y \<or> differ xs ys"
| "differ _ _ \<longleftrightarrow> False"

fun never_starts :: "string \<Rightarrow> string \<Rightarrow> bool" where
  "never_starts p [] \<longleftrightarrow> True"
| "never_starts p (c # u) \<longleftrightarrow> differ p (c # u) \<and> never_starts p u"

lemma differ_no_prefix: "differ p u \<Longrightarrow> \<not> prefix p (u @ r)"
  by (induction p u rule: differ.induct) auto

lemma never_starts_drop: "never_starts p u \<Longrightarrow> j < length u \<Longrightarrow> \<not> prefix p (drop j (u @ r))"
proof (induction u arbitrary: j)
  case Nil
  then show ?case by simp
next
  case (Cons c u)
  then show ?case
    using differ_no_prefix[of p "c # u" r] by (cases j) auto
qed

context boost_replace
begin

lemma replace_pieces:
  assumes "p \<noteq> []"
  shows "(\<And>c. c \<in> set s \<Longrightarrow> f c = p \<and> g c = t \<or> g c = f c \<and> never_starts p (f c)) \<Longrightarrow>
    replace_all (concat (map f s)) p t = concat (map g s)"
proof (induction s)
  case Nil
  show ?case using replace_nil[OF assms] by simp
next
  case (Cons c s)
  then have IH: "replace_all (concat (map f s)) p t = concat (map g s)" by simp
  from Cons.prems[of c] consider "f c = p" "g c = t" | "g c = f c" "never_starts p (f c)" by auto
  then show ?case
  proof cases
    case 1
    with IH replace_here[OF assms] show ?thesis by simp
  next
    case 2
    then have "replace_all (f c @ concat (map f s)) p t = f c @ replace_all (concat (map f s)) p t"
      by (intro replace_skip[OF assms]) (rule never_starts_drop)
    with IH 2 show ?thesis by simp
  qed
qed

lemma htmlDecode_htmlEncode:
  assumes "CHR ''&'' \<notin> set s"
  shows "htmlDecode replace_all (htmlEncode s) = s"
proof -
  define after where "after = (\<lambda>S c. if c \<in> S then [c] else html_char c)"
  note defs = after_def html_char_def
  have amp: "c \<in> set s \<Longrightarrow> c \<noteq> CHR ''&''" for c using assms by auto
  have "replace_all (concat (map (after {}) s)) ''&amp;'' ''&'' = concat (map (after {}) s)"
    by (rule replace_pieces) (use amp in \<open>auto simp: defs\<close>)
  moreover have "replace_all (concat (map (after {}) s)) ''&quot;'' [CHR 0x22] =
      concat (map (after {CHR 0x22}) s)"
    by (rule replace_pieces) (use amp in \<open>auto simp: defs\<close>)
  moreover have "replace_all (concat (map (after {CHR 0x22}) s)) ''&apos;'' [CHR 0x27] =
      concat (map (after {CHR 0x22, CHR 0x27}) s)"
    by (rule replace_pieces) (use amp in \<open>auto simp: defs\<close>)
  moreover have "replace_all (concat (map (after {CHR 0x22, CHR 0x27}) s)) ''&lt;'' ''<'' =
      concat (map (after {CHR 0x22, CHR 0x27, CHR ''<''}) s)"
    by (rule replace_pieces) (use amp in \<open>auto simp: defs\<close>)
  moreover have "replace_all (concat (map (after {CHR 0x22, CHR 0x27, CHR ''<''}) s)) ''&gt;'' ''>'' =
      concat (map (after {CHR 0x22, CHR 0x27, CHR ''<'', CHR ''>''}) s)"
    by (rule replace_pieces) (use amp in \<open>auto simp: defs\<close>)
  moreover have "replace_all (concat (map (after {CHR 0x22, CHR 0x27, CHR ''<'', CHR ''>''}) s))
      ''&nbsp;'' '' '' = concat (map (\<lambda>c. [c]) s)"
    by (rule replace_pieces) (use amp in \<open>auto simp: defs\<close>)
  moreover have "htmlEncode s = concat (map (after {}) s)"
    by (simp add: htmlEncode_concat after_def)
  ultimately show ?thesis by (simp add: htmlDecode_def)
qed

end

section \<open>Properties\<close>

text \<open>C40: Percent decoding inverts percent encoding, for every encoder that encodes the percent sign and
  leaves any other bytes as they are or encodes them, and it is defined on such texts.\<close>

theorem urlDecode_inverts_encoding: "urlDecode (percent_encode plain s) = Inr s"
  by (simp add: urlDecode_def url_decode_encode)

text \<open>A percent sign that is not followed by a hexadecimal digit, in a text with no conversion before it,
  reads a variable that was never set.\<close>

theorem urlDecode_stray_percent:
  assumes "CHR ''%'' \<notin> set u" and "scan_hex (take 2 s) = None"
  shows "urlDecode (u @ CHR ''%'' # s) = Inl Undefined"
proof -
  have "url_decode_loop None (u @ CHR ''%'' # s) = Inl Undefined"
    using assms by (induction u) auto
  then show ?thesis by (simp add: urlDecode_def)
qed

theorem urlDecode_stray_percent_witness: "urlDecode ''100% sure'' = Inl Undefined"
proof -
  have "scan_hex (take 2 '' sure'') = None" by code_simp
  from urlDecode_stray_percent[of "''100''", OF _ this] show ?thesis by simp
qed

text \<open>Encoded text holds no quote, no angle bracket and no blank, so it can be put into an attribute or
  between tags; every ampersand in it starts one of the six entities.\<close>

theorem htmlEncode_is_safe:
  "htmlEncode s = concat (map html_char s) \<and> set (htmlEncode s) \<inter> html_special = {}"
  using htmlEncode_no_special by (auto simp: htmlEncode_concat)

text \<open>Decoding entities inverts encoding them on texts without an ampersand.\<close>

theorem htmlDecode_inverts_encode:
  assumes "boost_replace replace_all" and "CHR ''&'' \<notin> set s"
  shows "htmlDecode replace_all (htmlEncode s) = s"
  using assms by (rule boost_replace.htmlDecode_htmlEncode)

theorem htmlDecode_inverts_encode_witness:
  "htmlDecode replace_leftmost (htmlEncode ''<b> ='') = ''<b> =''"
  using htmlDecode_inverts_encode[OF leftmost.boost_replace_axioms, of "''<b> =''"] by simp

text \<open>With an ampersand decoding does not invert encoding: the ampersand is decoded first, and what
  follows it may then read as an entity.\<close>

theorem htmlDecode_not_inverse:
  "htmlDecode replace_leftmost (htmlEncode ''&lt;'') = ''<''"
  by code_simp

end
