(* ===== verification/Environment.thy ===== *)
theory Environment
  imports Url_Parser Std_Map
begin

text \<open>
  What the server calls and the repository does not hold, as one record of operations over an
  abstract state of the outside world \<open>'w\<close> (database, random numbers, network): the files that
  can be opened, the string algorithms of Boost, the SQLite C interface, \<^verbatim>\<open>rand\<close> and the
  sockets of Boost.Asio. The definitions of the handlers take this record as an argument.
\<close>

type_synonym file_system = "string \<Rightarrow> string option"

text \<open>A row of a query: the text of its columns, \<open>None\<close> where SQLite gives a null pointer.\<close>

type_synonym sql_row = "string option list"

text \<open>
  \<^item> \<open>env_file\<close>: the bytes of the files that \<^verbatim>\<open>std::ifstream\<close> can open, by path.
  \<^item> \<open>env_split\<close>, \<open>env_replace_all\<close>: \<^verbatim>\<open>boost::split\<close> and \<^verbatim>\<open>boost::replace_all\<close>.
  \<^item> \<open>env_rand\<close>: \<^verbatim>\<open>rand\<close>.
  \<^item> \<open>sql_open\<close>: \<^verbatim>\<open>sqlite3_open\<close>; whether it returned \<^verbatim>\<open>SQLITE_OK\<close> (the handle is part of \<open>'w\<close>).
  \<^item> \<open>sql_close\<close>: \<^verbatim>\<open>sqlite3_close\<close>.
  \<^item> \<open>sql_exec\<close>: \<^verbatim>\<open>sqlite3_exec\<close>; whether it returned \<^verbatim>\<open>SQLITE_OK\<close>, and the rows it passed
    to the callback, with the column names.
  \<^item> \<open>sql_prepare\<close>: \<^verbatim>\<open>sqlite3_prepare_v2\<close>; whether it returned \<^verbatim>\<open>SQLITE_OK\<close>.
  \<^item> \<open>sql_run\<close>: the results of \<^verbatim>\<open>sqlite3_step\<close> on a statement with its bound texts: the rows,
    and whether the step after the last row gives \<^verbatim>\<open>SQLITE_DONE\<close> (an error code otherwise).
  \<^item> \<open>net_connect\<close>: name resolution and \<^verbatim>\<open>boost::asio::connect\<close>, which throw on failure.
  \<^item> \<open>net_write\<close>, \<open>net_read_until\<close>: the two operations of \<^verbatim>\<open>SocketInf\<close>; the second one
    gets the contents of the buffer and the delimiter and gives the new contents.
  \<^item> \<open>net_read\<close>: \<^verbatim>\<open>boost::asio::read\<close> into the buffer; the number of bytes read and the new
    contents.
\<close>

record 'w env =
  env_file :: file_system
  env_split :: "(char \<Rightarrow> bool) \<Rightarrow> string \<Rightarrow> string list"
  env_replace_all :: "string \<Rightarrow> string \<Rightarrow> string \<Rightarrow> string"
  env_rand :: "'w \<Rightarrow> nat \<times> 'w"
  sql_open :: "string \<Rightarrow> 'w \<Rightarrow> bool \<times> 'w"
  sql_close :: "'w \<Rightarrow> 'w"
  sql_exec :: "string \<Rightarrow> 'w \<Rightarrow> bool \<times> (string \<times> string option) list list \<times> 'w"
  sql_prepare :: "string \<Rightarrow> 'w \<Rightarrow> bool"
  sql_run :: "string \<Rightarrow> string list \<Rightarrow> 'w \<Rightarrow> sql_row list \<times> bool \<times> 'w"
  net_connect :: "string \<Rightarrow> string \<Rightarrow> 'w \<Rightarrow> 'w res"
  net_write :: "string \<Rightarrow> 'w \<Rightarrow> 'w res"
  net_read_until :: "string \<Rightarrow> string \<Rightarrow> 'w \<Rightarrow> (string \<times> 'w) res"
  net_read :: "string \<Rightarrow> 'w \<Rightarrow> nat \<times> string \<times> 'w"

text \<open>The result of one \<^verbatim>\<open>sqlite3_step\<close>.\<close>

datatype step = ROW sql_row | DONE | STEP_ERROR

fun first_step :: "sql_row list \<Rightarrow> bool \<Rightarrow> step" where
  "first_step (r # rs) fin = ROW r"
| "first_step [] fin = (if fin then DONE else STEP_ERROR)"

text \<open>
  \<^verbatim>\<open>strdup((const char *)sqlite3_column_text(stmt, i))\<close> turned into a string: a null pointer
  (no such column, a NULL value, no row after an error) must not be copied.
\<close>

definition column_text :: "step \<Rightarrow> nat \<Rightarrow> string res" where
  "column_text st i =
     (case st of
        ROW r \<Rightarrow> (if i < length r then case r ! i of None \<Rightarrow> Inl Undefined | Some t \<Rightarrow> Inr (c_str t)
                  else Inl Undefined)
      | _ \<Rightarrow> Inl Undefined)"

text \<open>The loop that reads a file in blocks of 512 bytes, in the static and the meme handler.\<close>

function read_blocks :: "string \<Rightarrow> string" where
  "read_blocks content =
     (let buf = take 512 content in
      if length buf > 0 then buf @ read_blocks (drop 512 content) else [])"
  by pat_completeness auto
termination
  by (relation "measure length") auto

declare read_blocks.simps [simp del]

lemma read_blocks_eq [simp]: "read_blocks content = content"
proof (induction content rule: read_blocks.induct)
  case (1 content)
  then show ?case
    by (cases "content = []") (subst read_blocks.simps, simp add: Let_def)+
qed

end
