(* ===== verification/Static_Handler.thy ===== *)
theory Static_Handler
  imports Simple_Handlers Environment
begin

text \<open>
  \<^verbatim>\<open>src/static_handler.cc\<close>: files below a directory. The file system is the parameter \<open>fs\<close>,
  the bytes of every path that \<^verbatim>\<open>std::ifstream\<close> can open.
\<close>

record static_handler =
  st_root :: string
  st_uri :: string
  st_filedir :: string

definition StaticHandler_create :: "config \<Rightarrow> string \<Rightarrow> static_handler res" where
  "StaticHandler_create config path =
     bind_res (GetAttribute config ''url'') (\<lambda>url.
     bind_res (GetAttribute config ''location'') (\<lambda>location.
     Inr \<lparr>st_root = path, st_uri = url, st_filedir = location\<rparr>))"

text \<open>The chain of comparisons that gives the content type; \<open>None\<close> for its last \<^verbatim>\<open>else\<close>.\<close>

definition content_type_of :: "string \<Rightarrow> string option" where
  "content_type_of fileextension =
     (if fileextension = ''html'' then Some ''text/html''
      else if fileextension = ''htm'' then Some ''text/html''
      else if fileextension = ''css'' then Some ''text/css''
      else if fileextension = ''csv'' then Some ''text/csv''
      else if fileextension = ''txt'' then Some ''text/plain''
      else if fileextension = ''js'' then Some ''text/javascript''
      else if fileextension = ''xml'' then Some ''text/xml''
      else if fileextension = ''jpg'' \<or> fileextension = ''jpeg'' then Some ''image/jpeg''
      else if fileextension = ''png'' then Some ''image/png''
      else if fileextension = ''gif'' then Some ''image/gif''
      else if fileextension = ''tif'' \<or> fileextension = ''tiff'' then Some ''image/tiff''
      else if fileextension = ''pdf'' then Some ''application/pdf''
      else if fileextension = ''zip'' then Some ''application/zip''
      else if fileextension = ''rtf'' then Some ''application/rtf''
      else if fileextension = ''json'' then Some ''application/json''
      else if fileextension = ''doc'' then Some ''application/msword''
      else None)"

text \<open>The error response, written out twice in the source.\<close>

definition static_not_found :: "response \<times> string list" where
  "static_not_found =
     (let error_msg = ''404: File not found on uri_path. Please provide correct uri_path.'';
          response = SetStatus NOT_FOUND new_Response;
          response = ReSetHeader ''Content-Type'' ''text/plain'' response;
          response = SetHeader ''Content-Length'' (to_string (length error_msg)) response;
          response = SetBody error_msg response
      in (response, [''::HandlerMetrics:: handler:error'',
                     ''::ResponseMetrics:: response_code:404'']))"

definition StaticHandler_HandleRequest ::
  "file_system \<Rightarrow> static_handler \<Rightarrow> request \<Rightarrow> (response \<times> string list) res" where
  "StaticHandler_HandleRequest fs h request =
     (let full_url = req_uri_path request in
      bind_res (substr full_url (int (length (st_uri h)) + 1) (int (length full_url))) (\<lambda>filename.
      let dot_index = str_find_int filename ''.'' in
      bind_res (if dot_index \<noteq> -1
                then substr filename (dot_index + 1) (int (length filename) - dot_index - 1)
                else Inr '''') (\<lambda>fileextension.
      case fs (''static'' @ st_filedir h @ ''/'' @ filename) of
        None \<Rightarrow> Inr static_not_found
      | Some ifs \<Rightarrow>
          if length filename = 0 then Inr static_not_found
          else
            let image = read_blocks ifs in
            (case content_type_of fileextension of
               None \<Rightarrow> Inr static_not_found
             | Some contenttype \<Rightarrow>
                 let response = SetStatus OK new_Response;
                     response = SetHeader ''Content-Type'' contenttype response;
                     response = SetHeader ''Content-Length'' (to_string (length image)) response;
                     response = SetBody image response
                 in Inr (response, [''::HandlerMetrics:: handler:static'',
                                    ''::ResponseMetrics:: response_code:200''])))))"

section \<open>What is served\<close>

text \<open>
  The file name of a request, and the extension the handler takes: everything behind the
  first dot.
\<close>

definition extension :: "string \<Rightarrow> string" where
  "extension filename = (case str_find filename ''.'' of None \<Rightarrow> [] | Some i \<Rightarrow> drop (Suc i) filename)"

lemma static_not_found_eq:
  "static_not_found = (build_response NOT_FOUND ''text/plain''
     ''404: File not found on uri_path. Please provide correct uri_path.'',
     [''::HandlerMetrics:: handler:error'', ''::ResponseMetrics:: response_code:404''])"
  by (simp add: static_not_found_def build_response_def)

definition static_ok :: "string \<Rightarrow> string \<Rightarrow> response \<times> string list" where
  "static_ok contenttype content = (build_response OK contenttype content,
     [''::HandlerMetrics:: handler:static'', ''::ResponseMetrics:: response_code:200''])"

text \<open>The handler on every branch.\<close>

lemma static_cases:
  "StaticHandler_HandleRequest fs h q =
     (if length (req_uri_path q) < length (st_uri h) + 1 then Inl OutOfRange
      else let filename = drop (length (st_uri h) + 1) (req_uri_path q) in
        case (fs (''static'' @ st_filedir h @ ''/'' @ filename), content_type_of (extension filename)) of
          (Some content, Some contenttype) \<Rightarrow>
            if filename = [] then Inr static_not_found else Inr (static_ok contenttype content)
        | _ \<Rightarrow> Inr static_not_found)"
proof (cases "length (req_uri_path q) < length (st_uri h) + 1")
  case True
  then show ?thesis by (simp add: StaticHandler_HandleRequest_def substr_def)
next
  case False
  define f where "f = drop (length (st_uri h) + 1) (req_uri_path q)"
  have f: "substr (req_uri_path q) (int (length (st_uri h)) + 1) (int (length (req_uri_path q))) = Inr f"
    using False by (simp add: substr_def f_def nat_add_distrib)
  have ext: "(if str_find_int f ''.'' \<noteq> -1
      then substr f (str_find_int f ''.'' + 1) (int (length f) - str_find_int f ''.'' - 1)
      else Inr '''') = Inr (extension f)"
  proof (cases "str_find f ''.''")
    case None
    then show ?thesis by (simp add: str_find_int_def extension_def)
  next
    case (Some i)
    then have "i + 1 \<le> length f" using str_find_SomeD(2)[OF Some] by simp
    with Some show ?thesis
      by (simp add: str_find_int_def extension_def substr_def nat_add_distrib)
  qed
  have ok: "SetBody b (SetHeader ''Content-Length'' l (SetHeader ''Content-Type'' ty (SetStatus OK new_Response))) =
      SetBody b (SetHeader ''Content-Length'' l (ReSetHeader ''Content-Type'' ty (SetStatus OK new_Response)))"
    for b l ty by (simp add: response_ops)
  show ?thesis
    using False f ext unfolding StaticHandler_HandleRequest_def Let_def f_def[symmetric]
    by (auto simp: static_ok_def build_response_def ok split: option.split)
qed

definition served_extensions :: "string list" where
  "served_extensions = [''html'', ''htm'', ''css'', ''csv'', ''txt'', ''js'', ''xml'', ''jpg'', ''jpeg'',
     ''png'', ''gif'', ''tif'', ''tiff'', ''pdf'', ''zip'', ''rtf'', ''json'', ''doc'']"

lemma content_type_served: "content_type_of e = Some ty \<Longrightarrow> e \<in> set served_extensions"
proof (rule ccontr)
  assume "e \<notin> set served_extensions"
  then have "content_type_of e = None"
    unfolding served_extensions_def list.set insert_iff empty_iff de_Morgan_disj content_type_of_def
    by (simp only: if_False simp_thms)
  moreover assume "content_type_of e = Some ty"
  ultimately show False by simp
qed

lemma served_extensions_plain:
  "list_all (\<lambda>e. CHR ''.'' \<notin> set e \<and> CHR ''/'' \<notin> set e \<and> e \<noteq> []) served_extensions"
  by code_simp

lemma content_type_plain: "content_type_of e = Some ty \<Longrightarrow> CHR ''.'' \<notin> set e \<and> CHR ''/'' \<notin> set e \<and> e \<noteq> []"
  using content_type_served served_extensions_plain by (simp add: list_all_iff)

text \<open>An extension that is served holds no dot, so the name holds no two dots.\<close>

lemma served_name_no_dotdot:
  assumes "content_type_of (extension f) = Some ty"
  shows "\<not> sublist ''..'' f"
proof
  assume "sublist ''..'' f"
  then obtain u v where uv: "f = u @ ''..'' @ v" by (auto simp: sublist_def)
  have "str_find f ''.'' \<noteq> None" unfolding uv using str_find_app_None[of u "''.''" "''.'' @ v"] by simp
  then obtain i where i: "str_find f ''.'' = Some i" by blast
  note no_dot = content_type_plain[OF assms]
  have "i \<le> length u"
    using i unfolding str_find_Some_iff uv by (metis append_eq_conv_conj append_Cons append_Nil
      leI prefix_def append_assoc)
  then have "CHR ''.'' \<in> set (drop (Suc i) f)"
    unfolding uv by (cases "i = length u") auto
  with i no_dot show False by (simp add: extension_def)
qed

interpretation static: handler_contract
  "\<lambda>(fs, h, q) r log. StaticHandler_HandleRequest fs h q = Inr (r, log)"
  by unfold_locales
    (auto simp: static_cases static_not_found_eq static_ok_def Let_def code_strings
      logs_status_two[where c = OK and code = "''200''", simplified]
      logs_status_two[where c = NOT_FOUND and code = "''404''", simplified]
      split: option.splits if_splits)

section \<open>Properties\<close>

text \<open>The static handler on every branch: a path no longer than the prefix throws, a file that cannot be
  opened, an empty name or an unknown extension give the 404 page, and any other file is sent
  whole with the content type of its extension.\<close>

theorem static_handler_cases:
  "StaticHandler_HandleRequest files h q =
     (if length (req_uri_path q) \<le> length (st_uri h) then Inl OutOfRange
      else let filename = drop (length (st_uri h) + 1) (req_uri_path q) in
        case (files (''static'' @ st_filedir h @ ''/'' @ filename), content_type_of (extension filename)) of
          (Some content, Some contenttype) \<Rightarrow>
            if filename = [] then Inr static_not_found else Inr (static_ok contenttype content)
        | _ \<Rightarrow> Inr static_not_found)"
  unfolding static_cases by (simp add: less_Suc_eq_le)

text \<open>C31: No request makes the static handler send a file whose name holds two dots in a row, so it cannot
  leave its directory through a parent directory.\<close>

theorem static_stays_inside:
  assumes "StaticHandler_HandleRequest files h q = Inr (r, log)" and "rsp_status r = Some OK"
  shows "\<exists>name content. req_uri_path q = take (length (st_uri h) + 1) (req_uri_path q) @ name \<and>
    \<not> sublist ''..'' name \<and>
    files (''static'' @ st_filedir h @ ''/'' @ name) = Some content \<and> rsp_body r = content"
proof -
  let ?name = "drop (length (st_uri h) + 1) (req_uri_path q)"
  obtain content ty where c: "files (''static'' @ st_filedir h @ ''/'' @ ?name) = Some content"
    "content_type_of (extension ?name) = Some ty" "r = build_response OK ty content"
    using assms by (auto simp: static_cases static_not_found_eq static_ok_def Let_def
        split: if_splits option.splits)
  from served_name_no_dotdot[OF c(2)] c show ?thesis
    by (intro exI[of _ ?name] exI[of _ content]) simp
qed

definition one_page :: file_system where
  "one_page path = (if path = ''static/files/a.txt'' then Some ''hello'' else None)"

theorem static_stays_inside_witness:
  "\<exists>name content. ''/static/a.txt'' = ''/static/'' @ name \<and> \<not> sublist ''..'' name \<and>
     one_page (''static/files/'' @ name) = Some content \<and> content = ''hello''"
proof -
  let ?h = "\<lparr>st_root = '''', st_uri = ''/static'', st_filedir = ''/files''\<rparr>"
  let ?q = "(new_Request [])\<lparr>req_uri_path := ''/static/a.txt''\<rparr>"
  have "extension ''a.txt'' = ''txt''" "content_type_of ''txt'' = Some ''text/plain''"
    by code_simp+
  then have "StaticHandler_HandleRequest one_page ?h ?q = Inr (static_ok ''text/plain'' ''hello'')"
    by (simp add: static_cases one_page_def new_Request_def)
  with static_stays_inside[of one_page ?h ?q "fst (static_ok ''text/plain'' ''hello'')"
      "snd (static_ok ''text/plain'' ''hello'')"]
  show ?thesis by (simp add: static_ok_def new_Request_def)
qed

end
