(* ===== verification/Meme_Body.thy ===== *)
theory Meme_Body
  imports Environment
begin

text \<open>
  \<^verbatim>\<open>MemeHandler::parseRequestBody\<close> of \<^verbatim>\<open>src/meme_handler.cc\<close>: the form fields of a posted
  body as a map. The operation returns the map and the lines it prints on standard output.
\<close>

section \<open>The operation\<close>

text \<open>\<^verbatim>\<open>s.replace(symbol_ind, 3, "/")\<close> at the first \<open>%2F\<close>, if there is one.\<close>

definition replace_slash :: "string \<Rightarrow> string" where
  "replace_slash s =
     (let symbol_ind = str_find_int s ''%2F'' in
      if symbol_ind \<noteq> -1
      then take (nat symbol_ind) s @ ''/'' @ drop (nat symbol_ind + 3) s else s)"

text \<open>\<^verbatim>\<open>while ((n = s.find("+", n)) != npos) { s[n] = ' '; n += 1; }\<close>\<close>

function replace_plus :: "string \<Rightarrow> nat \<Rightarrow> string" where
  "replace_plus s n =
     (case str_find_from s ''+'' n of
        None \<Rightarrow> s
      | Some i \<Rightarrow> replace_plus (s[i := CHR '' '']) (i + 1))"
  by pat_completeness auto
termination
proof (relation "measure (\<lambda>(s, n). length s - n)", goal_cases)
  case 1
  show ?case by simp
next
  case (2 s n i)
  then obtain k where k: "str_find (drop n s) ''+'' = Some k" "i = n + k" "n \<le> length s"
    by (auto simp: str_find_from_def split: if_splits)
  from str_find_SomeD(2)[OF k(1)] k show ?case by simp
qed

declare replace_plus.simps [simp del]

text \<open>
  The loop over the items: \<^verbatim>\<open>key_value[1]\<close> is read before the number of pieces is checked,
  so an item without an equals sign is undefined; an item with two equals signs ends the
  function with the map so far (\<open>False\<close> in the result).
\<close>

fun parse_items ::
  "((char \<Rightarrow> bool) \<Rightarrow> string \<Rightarrow> string list) \<Rightarrow> string list \<Rightarrow> bool \<Rightarrow> string std_map \<Rightarrow>
   (bool \<times> bool \<times> string std_map) res" where
  "parse_items split [] deepfry memeMap = Inr (True, deepfry, memeMap)"
| "parse_items split (item # items) deepfry memeMap =
     (let key_value = split (\<lambda>c. c \<in> set ''='') item in
      bind_res (vec_at key_value 1) (\<lambda>v.
      bind_res (urlDecode v) (\<lambda>v.
      if length key_value \<noteq> 2 then Inr (False, deepfry, memeMap)
      else
        let v = replace_plus (replace_slash v) 0;
            key = key_value ! 0;
            deepfry = (if key = ''deepfry'' \<and> v = ''True'' then True else deepfry)
        in parse_items split items deepfry (map_set key v memeMap))))"

text \<open>\<^verbatim>\<open>MemeHandler::parseRequestBody\<close>\<close>

definition parseRequestBody ::
  "((char \<Rightarrow> bool) \<Rightarrow> string \<Rightarrow> string list) \<Rightarrow> string \<Rightarrow> (string std_map \<times> string list) res" where
  "parseRequestBody split body =
     (let items = split (\<lambda>c. c \<in> set ''&'') body in
      if length items < 3 then
        (if str_find body ''access'' \<noteq> None then
           bind_res (vec_at items 0) (\<lambda>item.
           let key_value = split (\<lambda>c. c \<in> set ''='') item in
           bind_res (vec_at key_value 0) (\<lambda>k.
           bind_res (vec_at key_value 1) (\<lambda>v. Inr (map_set k v [], []))))
         else Inr ([], []))
      else
        bind_res (parse_items split items False []) (\<lambda>(completed, deepfry, memeMap).
        if \<not> completed then Inr (memeMap, [])
        else
          let memeMap = (if deepfry then map_set ''image'' (''df-'' @ map_index memeMap ''image'') memeMap
                         else memeMap);
              memeMap = map_set ''image'' (''meme_templates/'' @ map_index memeMap ''image'') memeMap;
              memeMap = map_set ''name'' (htmlEncode (map_index memeMap ''name'')) memeMap;
              memeMap = map_set ''top'' (htmlEncode (map_index memeMap ''top'')) memeMap;
              memeMap = map_set ''bottom'' (htmlEncode (map_index memeMap ''bottom'')) memeMap
          in Inr (memeMap, [htmlEncode (map_index memeMap ''top'')])))"


section \<open>The value of a form field\<close>

definition plus_space :: "char \<Rightarrow> char" where
  "plus_space c = (if c = CHR ''+'' then CHR '' '' else c)"

lemma replace_plus_map: "n \<le> length s \<Longrightarrow> replace_plus s n = take n s @ map plus_space (drop n s)"
proof (induction s n rule: replace_plus.induct)
  case (1 s n)
  show ?case
  proof (cases "str_find (drop n s) ''+''")
    case None
    then have "CHR ''+'' \<notin> set (drop n s)"
      by (metis str_find_None_iff append_Cons append_Nil in_set_conv_decomp sublist_appendI)
    then have "map plus_space (drop n s) = drop n s"
      by (auto intro!: map_idI simp: plus_space_def)
    with None 1 show ?thesis
      by (subst replace_plus.simps) (simp add: str_find_from_def)
  next
    case (Some k)
    define u where "u = take k (drop n s)"
    have k: "k < length (drop n s)" "drop n s = u @ CHR ''+'' # drop (Suc k) (drop n s)"
      using str_find_SomeD[OF Some] by (simp_all add: u_def)
    have "CHR ''+'' \<notin> set u"
    proof
      assume "CHR ''+'' \<in> set u"
      then obtain j where j: "j < k" "drop n s ! j = CHR ''+''"
        by (auto simp: u_def in_set_conv_nth)
      then have "prefix ''+'' (drop j (drop n s))"
        using k(1) by (subst Cons_nth_drop_Suc[symmetric]) auto
      with Some j(1) show False by (simp only: str_find_Some_iff)
    qed
    then have u: "map plus_space u = u" by (auto intro!: map_idI simp: plus_space_def)
    have len: "length u = k" using k(1) by (simp add: u_def)
    define t where "t = drop (Suc k) (drop n s)"
    have s: "s = take n s @ u @ CHR ''+'' # t"
      using k(2) by (metis t_def append_take_drop_id)
    have dn: "drop n s = u @ CHR ''+'' # t" using k(2) by (simp only: t_def)
    have tn: "length (take n s) = n" using "1.prems" by simp
    have find: "str_find_from s ''+'' n = Some (n + k)"
      using Some "1.prems" by (simp add: str_find_from_def)
    have upd: "s[n + k := CHR '' ''] = (take n s @ u) @ CHR '' '' # t"
      using tn len by (metis append.assoc length_append list_update_length s)
    have "replace_plus s n = replace_plus (s[n + k := CHR '' '']) (n + k + 1)"
      by (subst replace_plus.simps) (simp add: find)
    also have "\<dots> = take n s @ u @ CHR '' '' # map plus_space t"
      using "1.IH"[OF find] k(1) unfolding upd by (simp add: len tn)
    also have "\<dots> = take n s @ map plus_space (drop n s)"
      using u by (simp add: dn plus_space_def)
    finally show ?thesis .
  qed
qed

definition form_value :: "string \<Rightarrow> string" where
  "form_value v = map plus_space (replace_slash v)"

lemma replace_plus_slash: "replace_plus (replace_slash v) 0 = form_value v"
  by (simp add: replace_plus_map form_value_def)

lemma form_value_plain: "CHR ''+'' \<notin> set v \<Longrightarrow> \<not> sublist ''%2F'' v \<Longrightarrow> form_value v = v"
  using str_find_None_iff[of v "''%2F''"]
  by (auto simp: form_value_def replace_slash_def str_find_int_def plus_space_def intro!: map_idI)

section \<open>A form and its body\<close>

text \<open>The body a browser sends: fields joined by ampersands, the values percent-encoded.\<close>

definition form_item :: "(char \<Rightarrow> bool) \<Rightarrow> string \<times> string \<Rightarrow> string" where
  "form_item plain kv = fst kv @ ''='' @ percent_encode plain (snd kv)"

fun join_items :: "string list \<Rightarrow> string" where
  "join_items [] = []"
| "join_items [t] = t"
| "join_items (t # ts) = t @ ''&'' @ join_items ts"

definition form_body :: "(char \<Rightarrow> bool) \<Rightarrow> (string \<times> string) list \<Rightarrow> string" where
  "form_body plain kvs = join_items (map (form_item plain) kvs)"

text \<open>Bytes that separate fields must be encoded in values and must not occur in names.\<close>

definition form_ok :: "(char \<Rightarrow> bool) \<Rightarrow> (string \<times> string) list \<Rightarrow> bool" where
  "form_ok plain kvs \<longleftrightarrow> \<not> plain (CHR ''&'') \<and> \<not> plain (CHR ''='') \<and>
     list_all (\<lambda>(k, v). CHR ''&'' \<notin> set k \<and> CHR ''='' \<notin> set k) kvs"

lemma percent_byte_safe: "CHR ''&'' \<notin> set (percent_byte c)" "CHR ''='' \<notin> set (percent_byte c)"
proof -
  have "list_all (\<lambda>n. hex_digit n \<noteq> CHR ''&'' \<and> hex_digit n \<noteq> CHR ''='') [0..<16]"
    by code_simp
  moreover have "of_char c div 16 < (16 :: nat)"
    using of_char_less_256[of c] by (simp add: less_mult_imp_div_less)
  ultimately show "CHR ''&'' \<notin> set (percent_byte c)" "CHR ''='' \<notin> set (percent_byte c)"
    by (auto simp: percent_byte_def list_all_iff)
qed

lemma percent_encode_safe:
  "\<not> plain (CHR ''&'') \<Longrightarrow> CHR ''&'' \<notin> set (percent_encode plain v)"
  "\<not> plain (CHR ''='') \<Longrightarrow> CHR ''='' \<notin> set (percent_encode plain v)"
  by (auto simp: percent_encode_def percent_byte_safe split: if_splits)

context boost_split
begin

lemma split_join_items:
  assumes "ts \<noteq> []"
  shows "\<forall>t\<in>set ts. t \<noteq> [] \<and> CHR ''&'' \<notin> set t \<Longrightarrow> split (\<lambda>c. c \<in> set ''&'') (join_items ts) = ts"
  using assms
proof (induction ts rule: join_items.induct)
  case (3 t t' ts)
  have "hd (join_items (t' # ts)) = hd t'" "join_items (t' # ts) \<noteq> []"
    using 3 by (cases ts; simp)+
  moreover have "hd t' \<noteq> CHR ''&''" using 3 by (metis hd_in_set list.set_intros)
  ultimately have "split (\<lambda>c. c \<in> set ''&'') (t @ ''&'' @ join_items (t' # ts)) =
      t # split (\<lambda>c. c \<in> set ''&'') (join_items (t' # ts))"
    using 3 by (intro split_step) auto
  with 3 show ?case by simp
next
  case (2 t)
  then show ?case using split_one[of t "\<lambda>c. c \<in> set ''&''"] by auto
qed simp

lemma split_item:
  assumes "CHR ''='' \<notin> set k" and "CHR ''='' \<notin> set v"
  shows "split (\<lambda>c. c \<in> set ''='') (k @ ''='' @ v) = [k, v]"
proof -
  have "split (\<lambda>c. c \<in> set ''='') (k @ ''='' @ v) = k # split (\<lambda>c. c \<in> set ''='') v"
    using assms by (intro split_step) (auto, metis hd_in_set)
  also have "split (\<lambda>c. c \<in> set ''='') v = [v]"
    using assms by (intro split_one) auto
  finally show ?thesis .
qed

lemma parse_items_form:
  assumes "form_ok plain kvs"
  shows "parse_items split (map (form_item plain) kvs) d m =
    Inr (True, d \<or> (\<exists>v. (''deepfry'', v) \<in> set kvs \<and> form_value v = ''True''),
         fold (\<lambda>(k, v). map_set k (form_value v)) kvs m)"
  using assms
proof (induction kvs arbitrary: d m)
  case Nil
  then show ?case by simp
next
  case (Cons kv kvs)
  obtain k v where kv: "kv = (k, v)" by (cases kv)
  have "split (\<lambda>c. c \<in> set ''='') (form_item plain kv) = [k, percent_encode plain v]"
    using split_item[of k "percent_encode plain v"] Cons.prems
    by (simp add: kv form_item_def form_ok_def percent_encode_safe)
  moreover have "form_ok plain kvs" using Cons.prems by (simp add: form_ok_def)
  ultimately show ?case
    using Cons.IH[of "if k = ''deepfry'' \<and> form_value v = ''True'' then True else d"]
    by (auto simp: kv vec_at_def urlDecode_def url_decode_encode replace_plus_slash Let_def)
qed

end

section \<open>The finished map\<close>

text \<open>The statements behind the loop.\<close>

definition finish_form :: "bool \<Rightarrow> string std_map \<Rightarrow> string std_map" where
  "finish_form deepfry m =
     (let m = (if deepfry then map_set ''image'' (''df-'' @ map_index m ''image'') m else m);
          m = map_set ''image'' (''meme_templates/'' @ map_index m ''image'') m;
          m = map_set ''name'' (htmlEncode (map_index m ''name'')) m;
          m = map_set ''top'' (htmlEncode (map_index m ''top'')) m
      in map_set ''bottom'' (htmlEncode (map_index m ''bottom'')) m)"

lemma map_index_finish_form:
  assumes "ascending m"
  shows "map_index (finish_form d m) k =
     (if k \<in> {''name'', ''top'', ''bottom''} then htmlEncode (map_index m k)
      else if k = ''image'' then ''meme_templates/'' @ (if d then ''df-'' else '''') @ map_index m k
      else map_index m k)"
  using assms by (simp add: finish_form_def Let_def ascending_map_set)

lemma ascending_fold_map_set: "ascending m \<Longrightarrow> ascending (fold (\<lambda>(k, v). map_set k (f v)) kvs m)"
  by (induction kvs arbitrary: m) (auto simp: ascending_map_set)

lemma map_index_fold_map_set:
  "ascending m \<Longrightarrow> distinct (map fst kvs) \<Longrightarrow>
   map_index (fold (\<lambda>(k, v). map_set k (f v)) kvs m) x =
     (case map_of kvs x of Some v \<Rightarrow> f v | None \<Rightarrow> map_index m x)"
proof (induction kvs arbitrary: m)
  case (Cons kv kvs)
  then have "map_of kvs (fst kv) = None" by (simp add: map_of_eq_None_iff)
  with Cons show ?case
    by (cases kv) (auto simp: ascending_map_set split: option.split)
qed simp

lemma parse_items_ascending:
  "parse_items split items d m = Inr (c, d', m') \<Longrightarrow> ascending m \<Longrightarrow> ascending m'"
  by (induction split items d m rule: parse_items.induct)
    (auto simp: Let_def ascending_map_set split: if_splits)

lemma parseRequestBody_long:
  assumes "3 \<le> length (split (\<lambda>c. c \<in> set ''&'') body)"
  shows "parseRequestBody split body =
    bind_res (parse_items split (split (\<lambda>c. c \<in> set ''&'') body) False []) (\<lambda>(completed, d, m).
      if completed
      then Inr (finish_form d m, [htmlEncode (map_index (finish_form d m) ''top'')]) else Inr (m, []))"
  using assms
  by (auto simp: parseRequestBody_def finish_form_def Let_def
      intro!: arg_cong[where f = "bind_res _"] ext)

context boost_split
begin

lemma parseRequestBody_form:
  assumes "form_ok plain kvs" and "3 \<le> length kvs" and "distinct (map fst kvs)"
  shows "\<exists>m log. parseRequestBody split (form_body plain kvs) = Inr (m, log) \<and> ascending m \<and>
    (\<forall>k v. map_of kvs k = Some v \<longrightarrow> map_index m k =
      (if k \<in> {''name'', ''top'', ''bottom''} then htmlEncode (form_value v)
       else if k = ''image'' then ''meme_templates/'' @
         (if \<exists>v. (''deepfry'', v) \<in> set kvs \<and> form_value v = ''True'' then ''df-'' else '''') @ form_value v
       else form_value v))"
proof -
  let ?d = "\<exists>v. (''deepfry'', v) \<in> set kvs \<and> form_value v = ''True''"
  let ?m = "fold (\<lambda>(k, v). map_set k (form_value v)) kvs []"
  have "split (\<lambda>c. c \<in> set ''&'') (form_body plain kvs) = map (form_item plain) kvs"
    unfolding form_body_def using assms(1,2)
    by (intro split_join_items) (auto simp: form_item_def form_ok_def list_all_iff percent_encode_safe)
  with parse_items_form[OF assms(1)] assms(2)
  have "parseRequestBody split (form_body plain kvs) =
      Inr (finish_form ?d ?m, [htmlEncode (map_index (finish_form ?d ?m) ''top'')])"
    by (simp add: parseRequestBody_long)
  moreover have asc: "ascending ?m" by (rule ascending_fold_map_set) simp
  moreover have "ascending (finish_form ?d ?m)"
    using asc by (simp add: finish_form_def Let_def ascending_map_set)
  ultimately show ?thesis
    using map_index_fold_map_set[of "[]" kvs form_value] assms(3)
    by (simp add: map_index_finish_form)
qed

end

lemma parsed_form:
  assumes "boost_split split" and "form_ok plain kvs" and "3 \<le> length kvs" and "distinct (map fst kvs)"
    and "\<forall>(k, v)\<in>set kvs. CHR ''+'' \<notin> set v \<and> \<not> sublist ''%2F'' v"
  shows "\<exists>m log. parseRequestBody split (form_body plain kvs) = Inr (m, log) \<and>
    (\<forall>k v. map_of kvs k = Some v \<longrightarrow> map_index m k =
      (if k \<in> {''name'', ''top'', ''bottom''} then htmlEncode v
       else if k = ''image'' then ''meme_templates/'' @
         (if map_of kvs ''deepfry'' = Some ''True'' then ''df-'' else '''') @ v
       else v))"
proof -
  have plain: "form_value v = v" if "(k, v) \<in> set kvs" for k v
    using assms(5) that by (auto intro: form_value_plain)
  have "(\<exists>v. (''deepfry'', v) \<in> set kvs \<and> form_value v = ''True'') \<longleftrightarrow> map_of kvs ''deepfry'' = Some ''True''"
    using plain assms(4) by (auto dest: map_of_SomeD)
  with boost_split.parseRequestBody_form[OF assms(1-4)] plain show ?thesis
    by (fastforce dest: map_of_SomeD)
qed

section \<open>Properties\<close>

text \<open>C33: The body a browser sends for a form of three or more fields is parsed into these fields: name, top
  and bottom come out with their special characters encoded, image with the directory of the
  templates in front (and the mark df- with a ticked deepfry field), all others as they were
  entered.\<close>

theorem form_fields_recovered:
  assumes "boost_split split" and "form_ok plain kvs" and "3 \<le> length kvs" and "distinct (map fst kvs)"
    and "\<forall>(k, v)\<in>set kvs. CHR ''+'' \<notin> set v \<and> \<not> sublist ''%2F'' v"
  shows "\<exists>m log. parseRequestBody split (form_body plain kvs) = Inr (m, log) \<and>
    (\<forall>k v. map_of kvs k = Some v \<longrightarrow> map_index m k =
      (if k \<in> {''name'', ''top'', ''bottom''} then htmlEncode v
       else if k = ''image'' then ''meme_templates/'' @
         (if map_of kvs ''deepfry'' = Some ''True'' then ''df-'' else '''') @ v
       else v))"
  using assms by (rule parsed_form)

theorem form_fields_recovered_witness:
  "\<exists>m log. parseRequestBody split_compress
      (form_body (\<lambda>c. False) [(''name'', ''a&b''), (''image'', ''cat.png''), (''deepfry'', ''True'')]) = Inr (m, log) \<and>
    map_index m ''name'' = ''a&amp;b'' \<and> map_index m ''image'' = ''meme_templates/df-cat.png''"
proof -
  let ?kvs = "[(''name'', ''a&b''), (''image'', ''cat.png''), (''deepfry'', ''True'')]"
  have "form_ok (\<lambda>c. False) ?kvs" "\<forall>(k, v)\<in>set ?kvs. CHR ''+'' \<notin> set v \<and> \<not> sublist ''%2F'' v"
    by (simp_all add: form_ok_def sublist_Cons_right)
  from form_fields_recovered[OF compress.boost_split_axioms this(1) _ _ this(2)] obtain m log where
    m: "parseRequestBody split_compress (form_body (\<lambda>c. False) ?kvs) = Inr (m, log)"
      "\<And>k v. map_of ?kvs k = Some v \<Longrightarrow> map_index m k =
        (if k \<in> {''name'', ''top'', ''bottom''} then htmlEncode v
         else if k = ''image'' then ''meme_templates/'' @
           (if map_of ?kvs ''deepfry'' = Some ''True'' then ''df-'' else '''') @ v
         else v)"
    by auto
  with m(2)[of "''name''" "''a&b''"] m(2)[of "''image''" "''cat.png''"] show ?thesis
    by (simp add: html_char_def)
qed

text \<open>C25: A body that the parser reads to its end (it then prints a line) gives texts without quotes, angle
  brackets and blanks for name, top and bottom, so the pages can include them.\<close>

theorem form_texts_encoded:
  assumes "parseRequestBody split body = Inr (m, log)" and "log \<noteq> []"
    and "k \<in> {''name'', ''top'', ''bottom''}"
  shows "set (map_index m k) \<inter> html_special = {}"
proof -
  have long: "3 \<le> length (split (\<lambda>c. c \<in> set ''&'') body)"
    using assms(1,2) by (auto simp: parseRequestBody_def Let_def split: if_splits)
  from assms(1,2) obtain d m' where "parse_items split (split (\<lambda>c. c \<in> set ''&'') body) False [] = Inr (True, d, m')"
    and m: "m = finish_form d m'"
    by (auto simp: parseRequestBody_long[of split body, OF long] split: if_splits)
  then have "ascending m'" by (simp add: parse_items_ascending)
  then show ?thesis
    using assms(3) m htmlEncode_no_special by (auto simp: map_index_finish_form)
qed

theorem form_texts_encoded_witness:
  "\<exists>m log. parseRequestBody split_compress ''name=%3Cb%3E&top=a&bottom=b'' = Inr (m, log) \<and>
     set (map_index m ''name'') \<inter> html_special = {}"
proof -
  have "parseRequestBody split_compress ''name=%3Cb%3E&top=a&bottom=b'' =
    Inr ([(''bottom'', ''b''), (''image'', ''meme_templates/''), (''name'', ''&lt;b&gt;''), (''top'', ''a'')], [''a''])"
    by code_simp
  from form_texts_encoded[OF this, of "''name''"] this show ?thesis by blast
qed

text \<open>A field with two equals signs makes the parser return early, with the fields before it as they were
  sent: a script element in the name then reaches the database, and from there the pages.\<close>

theorem form_early_return_unencoded:
  "parseRequestBody split_compress ''name=%3Cscript%3E&top=a&bottom=b=c'' =
     Inr ([(''name'', ''<script>''), (''top'', ''a'')], [])"
  by code_simp

end
