(* ===== verification/Meme_Store.thy ===== *)
theory Meme_Store
  imports Meme_Body
begin

text \<open>
  The storage of the memes, \<^verbatim>\<open>AddToDatabase\<close>, \<^verbatim>\<open>GetMemeFromDatabase\<close>, \<^verbatim>\<open>GetAllFromDatabase\<close>,
  \<^verbatim>\<open>SearchFromDatabase\<close>, the callback and \<^verbatim>\<open>gen_access_token\<close> of \<^verbatim>\<open>src/meme_handler.cc\<close>, over
  the SQLite interface of the environment. An operation returns its result with the new state
  of the outside world. The member \<^verbatim>\<open>savedir_\<close> is the argument \<open>savedir\<close>; the pointer \<^verbatim>\<open>db\<close>
  is part of the world.
\<close>

section \<open>The statements\<close>

definition db_path :: "string \<Rightarrow> string" where
  "db_path savedir = c_str (''../'' @ savedir @ ''/meme_vault.db'')"

definition sql_create :: string where
  "sql_create = ''CREATE TABLE IF NOT EXISTS MEME_HISTORY('' @
     ''MEME_ID  TEXT     PRIMARY KEY  NOT NULL,'' @
     ''NAME     TEXT                  NOT NULL,'' @
     ''IMAGE    TEXT                  NOT NULL,'' @
     ''TOP      TEXT                  NOT NULL,'' @
     ''BOTTOM   TEXT                  NOT NULL,'' @
     ''ACCESS_TOKEN TEXT              NOT NULL);''"

definition sql_select_id :: string where
  "sql_select_id = ''SELECT * FROM MEME_HISTORY WHERE MEME_ID = ?''"

definition sql_select_max :: string where
  "sql_select_max =
     ''SELECT * FROM MEME_HISTORY WHERE MEME_ID = (SELECT MAX(MEME_ID) FROM MEME_HISTORY)''"

definition sql_select_token :: string where
  "sql_select_token = ''SELECT ACCESS_TOKEN FROM MEME_HISTORY WHERE MEME_ID = ?''"

definition sql_insert :: string where
  "sql_insert =
     ''INSERT OR REPLACE INTO MEME_HISTORY (MEME_ID,NAME,IMAGE,TOP,BOTTOM,ACCESS_TOKEN) '' @
     ''VALUES (?,?,?,?,?,?);''"

definition sql_select_all :: string where
  "sql_select_all = ''SELECT * FROM MEME_HISTORY''"

definition sql_delete :: string where
  "sql_delete = ''DELETE FROM MEME_HISTORY WHERE MEME_ID = ''"

definition sql_search :: "string \<Rightarrow> string" where
  "sql_search sorting =
     (let selector = ''SELECT * FROM MEME_HISTORY WHERE NAME LIKE ? OR TOP LIKE ? OR BOTTOM LIKE ?'' in
      if sorting = ''a-z'' then
        ''SELECT * FROM MEME_HISTORY WHERE NAME LIKE ? OR TOP LIKE ? OR BOTTOM LIKE ? ORDER BY NAME ASC''
      else if sorting = ''z-a'' then
        ''SELECT * FROM MEME_HISTORY WHERE NAME LIKE ? OR TOP LIKE ? OR BOTTOM LIKE ? ORDER BY NAME DESC''
      else if sorting = ''id'' then
        ''SELECT * FROM MEME_HISTORY WHERE NAME LIKE ? OR TOP LIKE ? OR BOTTOM LIKE ? ORDER BY MEME_ID ASC''
      else selector)"

section \<open>Reading\<close>

text \<open>The six insertions of a row into a map, in \<^verbatim>\<open>GetMemeFromDatabase\<close> and \<^verbatim>\<open>SearchFromDatabase\<close>.\<close>

definition row_map :: "step \<Rightarrow> string std_map res" where
  "row_map st =
     bind_res (column_text st 0) (\<lambda>c0.
     bind_res (column_text st 1) (\<lambda>c1.
     bind_res (column_text st 2) (\<lambda>c2.
     bind_res (column_text st 3) (\<lambda>c3.
     bind_res (column_text st 4) (\<lambda>c4.
     bind_res (column_text st 5) (\<lambda>c5.
     Inr (map_insert ''ACCESS_TOKEN'' c5 (map_insert ''BOTTOM'' c4 (map_insert ''TOP'' c3
       (map_insert ''IMAGE'' c2 (map_insert ''NAME'' c1 (map_insert ''MEME_ID'' c0 []))))))))))))"

text \<open>\<^verbatim>\<open>MemeHandler::GetMemeFromDatabase\<close>\<close>

definition GetMemeFromDatabase ::
  "'w env \<Rightarrow> string \<Rightarrow> string \<Rightarrow> 'w \<Rightarrow> (string std_map \<times> 'w) res" where
  "GetMemeFromDatabase env savedir ident w =
     (case sql_open env (db_path savedir) w of (opened, w) \<Rightarrow>
      bind_res
        (if sql_prepare env sql_select_id w then
           (case sql_run env sql_select_id [ident] w of (rows, fin, w) \<Rightarrow>
            case first_step rows fin of
              DONE \<Rightarrow> Inr ([], w)
            | st \<Rightarrow> bind_res (row_map st) (\<lambda>meme_object. Inr (meme_object, w)))
         else Inr ([], w))
        (\<lambda>(meme_object, w). Inr (meme_object, sql_close env w)))"

text \<open>\<^verbatim>\<open>callback_GetAllFromDatabase\<close>: one row, given as column names and values.\<close>

fun callback_entry :: "(string \<times> string option) list \<Rightarrow> string std_map \<Rightarrow> string std_map res" where
  "callback_entry [] entry = Inr entry"
| "callback_entry ((name, None) # cols) entry = Inl Undefined"
| "callback_entry ((name, Some text) # cols) entry =
     callback_entry cols (map_insert (c_str name) (c_str text) entry)"

fun callback_GetAllFromDatabase ::
  "(string \<times> string option) list list \<Rightarrow> string std_map list \<Rightarrow> string std_map list res" where
  "callback_GetAllFromDatabase [] vectormap = Inr vectormap"
| "callback_GetAllFromDatabase (row # rows) vectormap =
     bind_res (callback_entry row []) (\<lambda>entry.
     callback_GetAllFromDatabase rows (vectormap @ [entry]))"

text \<open>\<^verbatim>\<open>MemeHandler::GetAllFromDatabase\<close>\<close>

definition GetAllFromDatabase :: "'w env \<Rightarrow> string \<Rightarrow> 'w \<Rightarrow> (string std_map list \<times> 'w) res" where
  "GetAllFromDatabase env savedir w =
     (case sql_open env (db_path savedir) w of (opened, w) \<Rightarrow>
      case sql_exec env sql_select_all w of (success, rows, w) \<Rightarrow>
      bind_res (callback_GetAllFromDatabase rows []) (\<lambda>meme_entries.
      Inr (meme_entries, sql_close env w)))"

text \<open>\<^verbatim>\<open>while (sqlite3_step(stmt) != SQLITE_DONE)\<close>\<close>

fun search_rows :: "sql_row list \<Rightarrow> bool \<Rightarrow> string std_map list res" where
  "search_rows (r # rows) fin =
     bind_res (row_map (ROW r)) (\<lambda>m. bind_res (search_rows rows fin) (\<lambda>ms. Inr (m # ms)))"
| "search_rows [] fin = (if fin then Inr [] else bind_res (row_map STEP_ERROR) (\<lambda>m. Inr [m]))"

text \<open>\<^verbatim>\<open>MemeHandler::SearchFromDatabase\<close>\<close>

definition SearchFromDatabase ::
  "'w env \<Rightarrow> string \<Rightarrow> string \<Rightarrow> string \<Rightarrow> 'w \<Rightarrow> (string std_map list \<times> 'w) res" where
  "SearchFromDatabase env savedir term sorting w =
     (let term = htmlEncode term;
          term = ''%'' @ term @ ''%'' in
      case sql_open env (db_path savedir) w of (opened, w) \<Rightarrow>
      let selector = sql_search sorting in
      bind_res
        (if sql_prepare env selector w then
           (case sql_run env selector [term, term, term] w of (rows, fin, w) \<Rightarrow>
            bind_res (search_rows rows fin) (\<lambda>meme_entries. Inr (meme_entries, w)))
         else Inr ([], w))
        (\<lambda>(meme_entries, w).
           let w = sql_close env w in
           Inr (if sorting = ''newest'' then rev meme_entries else meme_entries, w)))"

section \<open>Writing\<close>

definition scramble_char :: "nat \<Rightarrow> char" where
  "scramble_char randomChar =
     (if randomChar < 26 then char_of (97 + randomChar)
      else if randomChar < 26 + 26 then char_of (65 + randomChar - 26)
      else char_of (48 + randomChar - 26 - 26))"

text \<open>\<^verbatim>\<open>MemeHandler::gen_access_token\<close>; \<open>scramble_loop\<close> is its loop.\<close>

fun scramble_loop :: "'w env \<Rightarrow> nat \<Rightarrow> 'w \<Rightarrow> string \<times> 'w" where
  "scramble_loop env 0 w = ([], w)"
| "scramble_loop env (Suc n) w =
     (case env_rand env w of (r, w) \<Rightarrow>
      case scramble_loop env n w of (s, w) \<Rightarrow> (scramble_char (r mod (26 + 26 + 10)) # s, w))"

definition gen_access_token :: "'w env \<Rightarrow> nat \<Rightarrow> 'w \<Rightarrow> string \<times> 'w" where
  "gen_access_token env len w = scramble_loop env (len * 2) w"

text \<open>
  \<^verbatim>\<open>stoi(id_) + 1\<close>, converted to a string; the addition overflows at the largest \<^verbatim>\<open>int\<close>.
\<close>

definition next_id :: "string \<Rightarrow> string res" where
  "next_id ident = bind_res (stoi ident) (\<lambda>n.
     if int_range (n + 1) then Inr (int_to_string (n + 1)) else Inl Undefined)"

text \<open>The identifier and the token of a new meme (the branch \<open>newmeme_\<close>), and those of an edited one.\<close>

definition fresh_identity :: "'w env \<Rightarrow> 'w \<Rightarrow> (string \<times> string \<times> 'w) res" where
  "fresh_identity env w =
     (if sql_prepare env sql_select_max w then
        (case sql_run env sql_select_max [] w of (rows, fin, w) \<Rightarrow>
         bind_res (case first_step rows fin of
                     DONE \<Rightarrow> Inr ''10000''
                   | st \<Rightarrow> bind_res (column_text st 0) next_id) (\<lambda>ident.
         case gen_access_token env (length ident) w of (scramble, w) \<Rightarrow>
           Inr (ident, ident @ ''-'' @ scramble, w)))
      else Inr (''10000'', ''00001'', w))"

definition kept_identity :: "'w env \<Rightarrow> string \<Rightarrow> 'w \<Rightarrow> (string \<times> string \<times> 'w) res" where
  "kept_identity env meme_id w =
     (if sql_prepare env sql_select_token w then
        (case sql_run env sql_select_token [meme_id] w of (rows, fin, w) \<Rightarrow>
         bind_res (case first_step rows fin of
                     DONE \<Rightarrow> Inr ''00001''
                   | st \<Rightarrow> column_text st 0) (\<lambda>atoken. Inr (meme_id, atoken, w)))
      else Inr (meme_id, ''00001'', w))"

text \<open>
  \<^verbatim>\<open>MemeHandler::AddToDatabase\<close>. Where opening, \<^verbatim>\<open>CREATE\<close> or preparing the \<^verbatim>\<open>INSERT\<close> fails, the
  source closes the handle and goes on to use it (or to close it again), which is undefined.
  The parameter \<^verbatim>\<open>access_token_\<close> is not used; \<^verbatim>\<open>errorflag\<close>, set to \<^verbatim>\<open>false\<close> at the end, is
  overwritten by the only caller.
\<close>

definition AddToDatabase ::
  "'w env \<Rightarrow> string \<Rightarrow> string \<Rightarrow> string \<Rightarrow> string \<Rightarrow> string \<Rightarrow> string \<Rightarrow> string \<Rightarrow> bool \<Rightarrow> 'w \<Rightarrow>
   (string \<times> 'w) res" where
  "AddToDatabase env savedir meme_id access_token name img top_text bottom newmeme w =
     (case sql_open env (db_path savedir) w of (opened, w) \<Rightarrow>
      if \<not> opened then Inl Undefined
      else
        case sql_exec env sql_create w of (success, rows, w) \<Rightarrow>
        if \<not> success then Inl Undefined
        else
          bind_res (if newmeme then fresh_identity env w else kept_identity env meme_id w)
            (\<lambda>(ident, atoken, w).
             if sql_prepare env sql_insert w then
               (case sql_run env sql_insert [ident, name, img, top_text, bottom, atoken] w of
                  (rows, fin, w) \<Rightarrow> Inr (ident, sql_close env w))
             else Inl Undefined))"

end
