(* ===== verification/Sql_Like.thy ===== *)
theory Sql_Like
  imports Cpp_Prelude
begin

text \<open>
  The \<^verbatim>\<open>LIKE\<close> operator of SQLite on bytes, as far as the search of the memes needs it: a percent
  sign stands for any bytes, an underscore for one, and the case of the letters A to Z is ignored.
  The search puts percent signs around its term; what it finds are the texts that contain it.
\<close>

definition fold_case :: "char \<Rightarrow> char" where
  "fold_case c = (if CHR ''A'' \<le> c \<and> c \<le> CHR ''Z'' then char_of (of_char c + 32 :: nat) else c)"

fun like :: "string \<Rightarrow> string \<Rightarrow> bool" where
  "like [] s \<longleftrightarrow> s = []"
| "like (p # ps) [] \<longleftrightarrow> p = CHR ''%'' \<and> like ps []"
| "like (p # ps) (c # cs) \<longleftrightarrow>
     (if p = CHR ''%'' then like ps (c # cs) \<or> like (p # ps) cs
      else (p = CHR ''_'' \<or> fold_case p = fold_case c) \<and> like ps cs)"

definition contains_text :: "string \<Rightarrow> string \<Rightarrow> bool" where
  "contains_text term s \<longleftrightarrow> sublist (map fold_case term) (map fold_case s)"

text \<open>
  The patterns for which the bytes and the characters of UTF-8 agree and SQLite sets no limit:
  ASCII without an underscore, of at most 50000 bytes.
\<close>

definition ascii_pattern :: "string \<Rightarrow> bool" where
  "ascii_pattern t \<longleftrightarrow> length t \<le> 50000 \<and>
     (\<forall>c\<in>set t. c \<noteq> CHR ''_'' \<and> c \<noteq> CHR 0x00 \<and> of_char c < (128 :: nat))"

definition no_wildcard :: "string \<Rightarrow> bool" where
  "no_wildcard t \<longleftrightarrow> CHR ''%'' \<notin> set t \<and> CHR ''_'' \<notin> set t"

lemma like_all [simp]: "like ''%'' s"
  by (induction s) simp_all

lemma like_percent: "like (CHR ''%'' # ps) s \<longleftrightarrow> (\<exists>s'. suffix s' s \<and> like ps s')"
  by (induction s) (auto simp: suffix_Cons)

lemma like_prefix:
  "no_wildcard t \<Longrightarrow> like (t @ ''%'') s \<longleftrightarrow> prefix (map fold_case t) (map fold_case s)"
proof (induction t arbitrary: s)
  case (Cons p t)
  then show ?case by (cases s) (auto simp: no_wildcard_def)
qed simp

lemma like_contains:
  assumes "no_wildcard t"
  shows "like (''%'' @ t @ ''%'') s \<longleftrightarrow> contains_text t s"
proof -
  have "like (''%'' @ t @ ''%'') s \<longleftrightarrow> (\<exists>s'. suffix s' s \<and> prefix (map fold_case t) (map fold_case s'))"
    using like_percent[of "t @ ''%''" s] like_prefix[OF assms] by simp
  also have "\<dots> \<longleftrightarrow> contains_text t s"
  proof
    assume "\<exists>s'. suffix s' s \<and> prefix (map fold_case t) (map fold_case s')"
    then obtain u s' where "s = u @ s'" "prefix (map fold_case t) (map fold_case s')"
      by (auto simp: suffix_def)
    then show "contains_text t s" by (auto simp: contains_text_def sublist_def prefix_def)
  next
    assume "contains_text t s"
    then obtain u v where "map fold_case s = u @ map fold_case t @ v"
      by (auto simp: contains_text_def sublist_def)
    then obtain s1 s' where "s = s1 @ s'" "map fold_case s' = map fold_case t @ v"
      by (metis map_eq_append_conv)
    then show "\<exists>s'. suffix s' s \<and> prefix (map fold_case t) (map fold_case s')"
      by (auto simp: suffix_def)
  qed
  finally show ?thesis .
qed

text \<open>A term of one percent sign finds every text.\<close>

lemma like_percent_term: "like (''%'' @ ''%'' @ ''%'') s"
  using like_percent[of "''%%''" s] by (simp add: like_percent) blast

end
