(* ===== verification/Meme_Vault.thy ===== *)
theory Meme_Vault
  imports Meme_Store Sql_Like
begin

text \<open>
  What the storage operations of the meme handler guarantee. The contract of the database is
  the locale \<open>meme_vault\<close>: the documented effect of the statements the source sends, on a
  database that can be opened and whose disk does not fail, in terms of the table as a map
  from identifiers to memes. The lemmas on the operations are proved in it, and it is
  interpreted on a database that keeps the table as a sorted list of rows.
\<close>

record meme =
  meme_name :: string
  meme_img :: string
  meme_top :: string
  meme_bottom :: string
  meme_token :: string

type_synonym table = "string \<rightharpoonup> meme"

definition meme_row :: "string \<Rightarrow> meme \<Rightarrow> sql_row" where
  "meme_row k m = map Some [k, meme_name m, meme_img m, meme_top m, meme_bottom m, meme_token m]"

definition column_names :: "string list" where
  "column_names = [''MEME_ID'', ''NAME'', ''IMAGE'', ''TOP'', ''BOTTOM'', ''ACCESS_TOKEN'']"

text \<open>A row as the handler sees it: every text up to its first zero byte.\<close>

definition meme_map :: "string \<Rightarrow> meme \<Rightarrow> string std_map" where
  "meme_map k m =
     [(''ACCESS_TOKEN'', c_str (meme_token m)), (''BOTTOM'', c_str (meme_bottom m)),
      (''IMAGE'', c_str (meme_img m)), (''MEME_ID'', c_str k), (''NAME'', c_str (meme_name m)),
      (''TOP'', c_str (meme_top m))]"

text \<open>The table, where a table that was never created counts as empty.\<close>

definition memes :: "table option \<Rightarrow> table" where
  "memes c = (case c of None \<Rightarrow> Map.empty | Some v \<Rightarrow> v)"

lemma memes_simps [simp]: "memes None = Map.empty" "memes (Some v) = v"
  by (simp_all add: memes_def)

lemma meme_row_inject: "meme_row k m = meme_row k' m' \<longleftrightarrow> k = k' \<and> m = m'"
  by (cases m; cases m') (auto simp: meme_row_def)

lemma rows_inject: "map (\<lambda>(k, m). meme_row k m) es = map (\<lambda>(k, m). meme_row k m) es' \<longleftrightarrow> es = es'"
  by (rule inj_map_eq_map) (auto simp: inj_on_def meme_row_inject)

lemma column_text_row [simp]:
  "column_text (ROW (meme_row k m)) 0 = Inr (c_str k)"
  "column_text (ROW (meme_row k m)) (Suc 0) = Inr (c_str (meme_name m))"
  "column_text (ROW (meme_row k m)) 2 = Inr (c_str (meme_img m))"
  "column_text (ROW (meme_row k m)) 3 = Inr (c_str (meme_top m))"
  "column_text (ROW (meme_row k m)) 4 = Inr (c_str (meme_bottom m))"
  "column_text (ROW (meme_row k m)) 5 = Inr (c_str (meme_token m))"
  by (simp_all add: column_text_def meme_row_def eval_nat_numeral)

lemma key_order:
  "''ACCESS_TOKEN'' < (''BOTTOM'' :: string)" "''BOTTOM'' < (''IMAGE'' :: string)"
  "''IMAGE'' < (''MEME_ID'' :: string)" "''MEME_ID'' < (''NAME'' :: string)"
  "''NAME'' < (''TOP'' :: string)"
  by code_simp+

lemma inserted_columns:
  "map_insert ''ACCESS_TOKEN'' f (map_insert ''BOTTOM'' e (map_insert ''TOP'' d
     (map_insert ''IMAGE'' c (map_insert ''NAME'' b (map_insert ''MEME_ID'' a []))))) =
   [(''ACCESS_TOKEN'', f), (''BOTTOM'', e), (''IMAGE'', c), (''MEME_ID'', a), (''NAME'', b), (''TOP'', d)]"
  by simp

lemma row_map_row [simp]: "row_map (ROW (meme_row k m)) = Inr (meme_map k m)"
  by (simp add: row_map_def inserted_columns meme_map_def)

lemma callback_entry_row:
  "callback_entry (zip column_names (meme_row k m)) [] = Inr (meme_map k m)"
  using inserted_columns
  by (simp add: column_names_def meme_row_def c_str_def meme_map_def)

lemma callback_rows:
  "callback_GetAllFromDatabase (map (\<lambda>(k, m). zip column_names (meme_row k m)) es) acc =
   Inr (acc @ map (\<lambda>(k, m). meme_map k m) es)"
  by (induction es arbitrary: acc) (auto simp: callback_entry_row)

section \<open>The contract of the database\<close>

text \<open>The identifier of a new meme: it follows the largest one.\<close>

definition new_identifier :: "table \<Rightarrow> string res" where
  "new_identifier v =
     (if dom v = {} then Inr ''10000'' else next_id (c_str (Max (dom v))))"

text \<open>
  \<open>healthy w\<close>: the database file can be opened and its statements do not fail for lack of
  memory, disk space or a lock. \<open>contents w\<close>: the table \<^verbatim>\<open>MEME_HISTORY\<close>, \<open>None\<close> before it
  is created. Statements on a table that does not exist do not compile. \<^verbatim>\<open>MAX\<close> on a column
  of texts is the largest one in the order of the bytes. An integer literal compared with a
  column of texts is compared as its text; from \<open>2 ^ 63\<close> on a literal is no integer but a
  floating-point number, with another text.
\<close>

locale meme_vault =
  fixes env :: "'w env"
    and savedir :: string
    and healthy :: "'w \<Rightarrow> bool"
    and contents :: "'w \<Rightarrow> table option"
  assumes open_ok: "healthy w \<Longrightarrow> \<exists>w'. sql_open env (db_path savedir) w = (True, w') \<and>
      healthy w' \<and> contents w' = contents w"
    and close_ok: "healthy w \<Longrightarrow> healthy (sql_close env w) \<and> contents (sql_close env w) = contents w"
    and rand_ok: "healthy w \<Longrightarrow> healthy (snd (env_rand env w)) \<and>
      contents (snd (env_rand env w)) = contents w"
    and create_ok: "healthy w \<Longrightarrow> \<exists>rows w'. sql_exec env sql_create w = (True, rows, w') \<and>
      healthy w' \<and> contents w' = Some (memes (contents w))"
    and prepare_ok: "healthy w \<Longrightarrow> sql \<in> {sql_select_id, sql_select_max, sql_select_token, sql_insert} \<Longrightarrow>
      sql_prepare env sql w \<longleftrightarrow> contents w \<noteq> None"
    and finite_ok: "healthy w \<Longrightarrow> finite (dom (memes (contents w)))"
    and select_id_ok: "healthy w \<Longrightarrow> contents w = Some v \<Longrightarrow> \<exists>w'. sql_run env sql_select_id [k] w =
      (case v k of None \<Rightarrow> [] | Some m \<Rightarrow> [meme_row k m], True, w') \<and>
      healthy w' \<and> contents w' = contents w"
    and select_max_ok: "healthy w \<Longrightarrow> contents w = Some v \<Longrightarrow> \<exists>w'. sql_run env sql_select_max [] w =
      (if dom v = {} then [] else [meme_row (Max (dom v)) (the (v (Max (dom v))))], True, w') \<and>
      healthy w' \<and> contents w' = contents w"
    and select_token_ok: "healthy w \<Longrightarrow> contents w = Some v \<Longrightarrow>
      \<exists>w'. sql_run env sql_select_token [k] w =
      (case v k of None \<Rightarrow> [] | Some m \<Rightarrow> [[Some (meme_token m)]], True, w') \<and>
      healthy w' \<and> contents w' = contents w"
    and insert_ok: "healthy w \<Longrightarrow> contents w = Some v \<Longrightarrow>
      \<exists>w'. sql_run env sql_insert [k, n, i, t, b, a] w = ([], True, w') \<and> healthy w' \<and>
      contents w' = Some (v(k \<mapsto> \<lparr>meme_name = n, meme_img = i, meme_top = t, meme_bottom = b,
        meme_token = a\<rparr>))"
    and select_all_ok: "healthy w \<Longrightarrow> \<exists>es w'. sql_exec env sql_select_all w =
      (contents w \<noteq> None, map (\<lambda>(k, m). zip column_names (meme_row k m)) es, w') \<and>
      distinct es \<and> set es = {(k, m). memes (contents w) k = Some m} \<and>
      healthy w' \<and> contents w' = contents w"
    and delete_ok: "healthy w \<Longrightarrow> num < 2 ^ 63 \<Longrightarrow> \<exists>w'. sql_exec env (sql_delete @ to_string num) w =
      (contents w \<noteq> None, [], w') \<and> healthy w' \<and>
      contents w' = map_option (\<lambda>v. v(to_string num := None)) (contents w)"
begin

lemma GetMemeFromDatabase_vault:
  assumes "healthy w"
  shows "\<exists>w'. GetMemeFromDatabase env savedir k w =
    Inr (case memes (contents w) k of None \<Rightarrow> [] | Some m \<Rightarrow> meme_map k m, w') \<and>
    healthy w' \<and> contents w' = contents w"
proof -
  obtain w1 where w1: "sql_open env (db_path savedir) w = (True, w1)" "healthy w1" "contents w1 = contents w"
    using open_ok[OF assms] by blast
  show ?thesis
  proof (cases "contents w")
    case None
    then have "\<not> sql_prepare env sql_select_id w1"
      using prepare_ok[of w1 sql_select_id] w1 by simp
    with None w1 close_ok[of w1] show ?thesis by (simp add: GetMemeFromDatabase_def)
  next
    case (Some v)
    then have "sql_prepare env sql_select_id w1"
      using prepare_ok[of w1 sql_select_id] w1 by simp
    moreover obtain w2 where "sql_run env sql_select_id [k] w1 =
        (case v k of None \<Rightarrow> [] | Some m \<Rightarrow> [meme_row k m], True, w2)" "healthy w2" "contents w2 = contents w"
      using select_id_ok[of w1 v k] w1 Some by auto
    ultimately show ?thesis
      using w1 Some close_ok[of w2] by (auto simp: GetMemeFromDatabase_def split: option.splits)
  qed
qed

lemma GetAllFromDatabase_vault:
  assumes "healthy w"
  shows "\<exists>es w'. GetAllFromDatabase env savedir w = Inr (map (\<lambda>(k, m). meme_map k m) es, w') \<and>
    distinct es \<and> set es = {(k, m). memes (contents w) k = Some m} \<and>
    healthy w' \<and> contents w' = contents w \<and>
    (\<exists>w1 w2. contents w1 = contents w \<and> sql_exec env sql_select_all w1 =
      (contents w \<noteq> None, map (\<lambda>(k, m). zip column_names (meme_row k m)) es, w2))"
proof -
  obtain w1 where w1: "sql_open env (db_path savedir) w = (True, w1)" "healthy w1" "contents w1 = contents w"
    using open_ok[OF assms] by blast
  with select_all_ok[of w1] obtain es w2 where es: "sql_exec env sql_select_all w1 =
      (contents w \<noteq> None, map (\<lambda>(k, m). zip column_names (meme_row k m)) es, w2)"
      "distinct es" "set es = {(k, m). memes (contents w) k = Some m}" "healthy w2" "contents w2 = contents w"
    by auto
  with w1 close_ok[of w2] show ?thesis
    by (intro exI[of _ es] exI[of _ "sql_close env w2"]) (auto simp: GetAllFromDatabase_def callback_rows)
qed

lemma scramble_vault: "healthy w \<Longrightarrow>
  healthy (snd (scramble_loop env n w)) \<and> contents (snd (scramble_loop env n w)) = contents w"
proof (induction n arbitrary: w)
  case (Suc n)
  then show ?case
    using rand_ok[of w] Suc.IH[of "snd (env_rand env w)"] by (simp add: split_beta)
qed simp

text \<open>An edit keeps the token of the meme and replaces the rest.\<close>

lemma AddToDatabase_edit:
  assumes "healthy w"
  shows "\<exists>w'. AddToDatabase env savedir k tok n i t b False w = Inr (k, w') \<and> healthy w' \<and>
    memes (contents w') = (memes (contents w))(k \<mapsto> \<lparr>meme_name = n, meme_img = i, meme_top = t,
      meme_bottom = b, meme_token = (case memes (contents w) k of None \<Rightarrow> ''00001''
        | Some m \<Rightarrow> c_str (meme_token m))\<rparr>)"
proof -
  obtain w1 where w1: "sql_open env (db_path savedir) w = (True, w1)" "healthy w1" "contents w1 = contents w"
    using open_ok[OF assms] by blast
  obtain rows w2 where w2: "sql_exec env sql_create w1 = (True, rows, w2)" "healthy w2"
    "contents w2 = Some (memes (contents w))"
    using create_ok[of w1] w1 by auto
  obtain w3 where w3: "sql_run env sql_select_token [k] w2 =
      (case memes (contents w) k of None \<Rightarrow> [] | Some m \<Rightarrow> [[Some (meme_token m)]], True, w3)"
      "healthy w3" "contents w3 = Some (memes (contents w))"
    using select_token_ok[of w2 "memes (contents w)" k] w2 by auto
  let ?a = "case memes (contents w) k of None \<Rightarrow> ''00001'' | Some m \<Rightarrow> c_str (meme_token m)"
  have kept: "kept_identity env k w2 = Inr (k, ?a, w3)"
    using w3 prepare_ok[of w2 sql_select_token] w2
    by (auto simp: kept_identity_def column_text_def split: option.splits)
  obtain w4 where w4: "sql_run env sql_insert [k, n, i, t, b, ?a] w3 = ([], True, w4)" "healthy w4"
      "contents w4 = Some ((memes (contents w))(k \<mapsto> \<lparr>meme_name = n, meme_img = i, meme_top = t,
         meme_bottom = b, meme_token = ?a\<rparr>))"
    using insert_ok[OF w3(2,3), of k n i t b ?a] by blast
  have "sql_prepare env sql_insert w3" using prepare_ok[of w3 sql_insert] w3 by simp
  with w1 w2 kept w4 close_ok[of w4] show ?thesis by (simp add: AddToDatabase_def)
qed

text \<open>Where there is no new identifier, a new meme cannot be stored.\<close>

lemma AddToDatabase_refused:
  assumes "healthy w" and "new_identifier (memes (contents w)) = Inl e"
  shows "AddToDatabase env savedir j tok n i t b True w = Inl e"
proof -
  obtain w1 where w1: "sql_open env (db_path savedir) w = (True, w1)" "healthy w1" "contents w1 = contents w"
    using open_ok[OF assms(1)] by blast
  obtain rows w2 where w2: "sql_exec env sql_create w1 = (True, rows, w2)" "healthy w2"
    "contents w2 = Some (memes (contents w))"
    using create_ok[of w1] w1 by auto
  let ?v = "memes (contents w)"
  have dom: "dom ?v \<noteq> {}" "next_id (c_str (Max (dom ?v))) = Inl e"
    using assms(2) by (auto simp: new_identifier_def split: if_splits)
  then obtain w3 where w3: "sql_run env sql_select_max [] w2 =
      ([meme_row (Max (dom ?v)) (the (?v (Max (dom ?v))))], True, w3)"
    using select_max_ok[of w2 ?v] w2 by auto
  then have "fresh_identity env w2 = Inl e"
    using prepare_ok[of w2 sql_select_max] w2 dom(2) by (simp add: fresh_identity_def)
  with w1 w2 show ?thesis by (simp add: AddToDatabase_def)
qed

text \<open>A new meme gets the new identifier, and a token drawn at random.\<close>

lemma AddToDatabase_new:
  assumes "healthy w" and "new_identifier (memes (contents w)) = Inr k"
  shows "\<exists>w0 w'. AddToDatabase env savedir j tok n i t b True w = Inr (k, w') \<and> healthy w' \<and>
    memes (contents w') = (memes (contents w))(k \<mapsto> \<lparr>meme_name = n, meme_img = i, meme_top = t,
      meme_bottom = b, meme_token = k @ ''-'' @ fst (gen_access_token env (length k) w0)\<rparr>)"
proof -
  obtain w1 where w1: "sql_open env (db_path savedir) w = (True, w1)" "healthy w1" "contents w1 = contents w"
    using open_ok[OF assms(1)] by blast
  obtain rows w2 where w2: "sql_exec env sql_create w1 = (True, rows, w2)" "healthy w2"
    "contents w2 = Some (memes (contents w))"
    using create_ok[of w1] w1 by auto
  let ?v = "memes (contents w)"
  obtain w3 where w3: "sql_run env sql_select_max [] w2 =
      (if dom ?v = {} then [] else [meme_row (Max (dom ?v)) (the (?v (Max (dom ?v))))], True, w3)"
      "healthy w3" "contents w3 = Some ?v"
    using select_max_ok[of w2 ?v] w2 by auto
  obtain s w4 where s: "gen_access_token env (length k) w3 = (s, w4)" by (cases "gen_access_token env (length k) w3")
  then have w4: "healthy w4" "contents w4 = Some ?v"
    using scramble_vault[OF w3(2), of "length k * 2"] w3 by (simp_all add: gen_access_token_def)
  have fresh: "fresh_identity env w2 = Inr (k, k @ ''-'' @ s, w4)"
    using w3 prepare_ok[of w2 sql_select_max] w2 assms(2) s
    by (auto simp: fresh_identity_def new_identifier_def Let_def split: if_splits)
  obtain w5 where w5: "sql_run env sql_insert [k, n, i, t, b, k @ ''-'' @ s] w4 = ([], True, w5)" "healthy w5"
      "contents w5 = Some (?v(k \<mapsto> \<lparr>meme_name = n, meme_img = i, meme_top = t,
         meme_bottom = b, meme_token = k @ ''-'' @ s\<rparr>))"
    using insert_ok[OF w4, of k n i t b "k @ ''-'' @ s"] by blast
  have "sql_prepare env sql_insert w4" using prepare_ok[of w4 sql_insert] w4 by simp
  then have "AddToDatabase env savedir j tok n i t b True w = Inr (k, sql_close env w5)"
    using w1 w2 fresh w5 by (simp add: AddToDatabase_def)
  moreover have "s = fst (gen_access_token env (length k) w3)" using s by simp
  ultimately show ?thesis using w5 close_ok[of w5] by auto
qed

end

section \<open>A database and a network with these laws\<close>

text \<open>
  The table as a list of rows in the order of the identifiers, a linear congruential generator
  for \<^verbatim>\<open>rand\<close>, and a peer that sends a fixed sequence of chunks and closes the connection. It
  takes the statements of the program and refuses all others.
\<close>

record ref_world =
  rw_table :: "meme std_map option"
  rw_seed :: nat
  rw_chunks :: "string list"

definition ref_exec :: "string \<Rightarrow> ref_world \<Rightarrow> bool \<times> (string \<times> string option) list list \<times> ref_world" where
  "ref_exec sql w =
     (if sql = sql_create then
        (True, [], w\<lparr>rw_table := Some (case rw_table w of None \<Rightarrow> [] | Some t \<Rightarrow> t)\<rparr>)
      else case rw_table w of
        None \<Rightarrow> (False, [], w)
      | Some t \<Rightarrow>
          if sql = sql_select_all then (True, map (\<lambda>(k, m). zip column_names (meme_row k m)) t, w)
          else if sql = sql_delete @ ''MEME_ID'' then (True, [], w\<lparr>rw_table := Some []\<rparr>)
          else if prefix sql_delete sql then
            (True, [], w\<lparr>rw_table := Some (filter (\<lambda>(k, m). k \<noteq> drop (length sql_delete) sql) t)\<rparr>)
          else (False, [], w))"

text \<open>The statements of a search: the selection, and the ways to order what it gives.\<close>

definition like_statement :: string where
  "like_statement = ''SELECT * FROM MEME_HISTORY WHERE NAME LIKE ? OR TOP LIKE ? OR BOTTOM LIKE ?''"

definition order_clauses :: "string list" where
  "order_clauses = ['''', '' ORDER BY NAME ASC'', '' ORDER BY NAME DESC'', '' ORDER BY MEME_ID ASC'']"

definition search_statements :: "string set" where
  "search_statements = set (map ((@) like_statement) order_clauses)"

definition ref_prepare :: "string \<Rightarrow> ref_world \<Rightarrow> bool" where
  "ref_prepare sql w \<longleftrightarrow> rw_table w \<noteq> None \<and>
     sql \<in> {sql_select_id, sql_select_max, sql_select_token, sql_insert} \<union> search_statements"

text \<open>The rows a search for three patterns finds, in the order of the statement.\<close>

definition found_by :: "string list \<Rightarrow> meme \<Rightarrow> bool" where
  "found_by ts m \<longleftrightarrow> like (ts ! 0) (c_str (meme_name m)) \<or> like (ts ! 1) (c_str (meme_top m)) \<or>
     like (ts ! 2) (c_str (meme_bottom m))"

definition ref_order :: "string \<Rightarrow> meme std_map \<Rightarrow> meme std_map" where
  "ref_order sql t =
     (if sql = like_statement @ '' ORDER BY NAME ASC'' then sort_key (\<lambda>(k, m). meme_name m) t
      else if sql = like_statement @ '' ORDER BY NAME DESC'' then rev (sort_key (\<lambda>(k, m). meme_name m) t)
      else t)"

definition ref_run :: "string \<Rightarrow> string list \<Rightarrow> ref_world \<Rightarrow> sql_row list \<times> bool \<times> ref_world" where
  "ref_run sql args w =
     (case rw_table w of
        None \<Rightarrow> ([], False, w)
      | Some t \<Rightarrow>
          if sql = sql_select_id then
            (case map_of t (args ! 0) of None \<Rightarrow> [] | Some m \<Rightarrow> [meme_row (args ! 0) m], True, w)
          else if sql = sql_select_max then
            (if t = [] then [] else [meme_row (fst (last t)) (snd (last t))], True, w)
          else if sql = sql_select_token then
            (case map_of t (args ! 0) of None \<Rightarrow> [] | Some m \<Rightarrow> [[Some (meme_token m)]], True, w)
          else if sql = sql_insert then
            ([], True, w\<lparr>rw_table := Some (map_set (args ! 0)
               \<lparr>meme_name = args ! 1, meme_img = args ! 2, meme_top = args ! 3,
                meme_bottom = args ! 4, meme_token = args ! 5\<rparr> t)\<rparr>)
          else if sql \<in> search_statements then
            (map (\<lambda>(k, m). meme_row k m) (ref_order sql (filter (\<lambda>(k, m). found_by args m) t)), True, w)
          else ([], False, w))"

fun ref_read_until :: "string \<Rightarrow> string \<Rightarrow> string list \<Rightarrow> (string \<times> string list) res" where
  "ref_read_until delim buf [] = (if str_find buf delim \<noteq> None then Inr (buf, []) else Inl SystemError)"
| "ref_read_until delim buf (c # cs) =
     (if str_find buf delim \<noteq> None then Inr (buf, c # cs) else ref_read_until delim (buf @ c) cs)"

definition ref_env :: "file_system \<Rightarrow> ref_world env" where
  "ref_env files = \<lparr>
     env_file = files,
     env_split = split_compress,
     env_replace_all = replace_leftmost,
     env_rand = (\<lambda>w. (rw_seed w, w\<lparr>rw_seed := (rw_seed w * 1103515245 + 12345) mod 2147483648\<rparr>)),
     sql_open = (\<lambda>path w. (True, w)),
     sql_close = (\<lambda>w. w),
     sql_exec = ref_exec,
     sql_prepare = ref_prepare,
     sql_run = ref_run,
     net_connect = (\<lambda>host port w. Inr w),
     net_write = (\<lambda>request w. Inr w),
     net_read_until = (\<lambda>buf delim w. bind_res (ref_read_until delim buf (rw_chunks w))
       (\<lambda>(buf, cs). Inr (buf, w\<lparr>rw_chunks := cs\<rparr>))),
     net_read = (\<lambda>buf w. (length (concat (rw_chunks w)), buf @ concat (rw_chunks w), w\<lparr>rw_chunks := []\<rparr>))\<rparr>"

definition ref_healthy :: "ref_world \<Rightarrow> bool" where
  "ref_healthy w \<longleftrightarrow> (case rw_table w of None \<Rightarrow> True | Some t \<Rightarrow> ascending t)"

definition ref_contents :: "ref_world \<Rightarrow> table option" where
  "ref_contents w = map_option map_of (rw_table w)"

lemma sql_distinct:
  "distinct [sql_create, sql_select_all, sql_select_id, sql_select_max, sql_select_token, sql_insert]"
  "\<not> prefix sql_delete sql_select_all" "sql_delete @ s \<noteq> sql_create" "sql_delete @ s \<noteq> sql_select_all"
  by (code_simp, code_simp) (simp_all add: sql_delete_def sql_create_def sql_select_all_def)

lemma search_statement: "clause \<in> set order_clauses \<Longrightarrow> like_statement @ clause \<in> search_statements"
  by (simp add: search_statements_def)

lemma sql_distinct_search:
  "{sql_create, sql_select_all, sql_select_id, sql_select_max, sql_select_token, sql_insert} \<inter> search_statements = {}"
  by code_simp

lemma numeral_not_column: "to_string n \<noteq> ''MEME_ID''"
  using to_string_digits[of "CHR ''M''" n] by (auto simp: is_digit_def)

lemmas ref_defs = ref_healthy_def ref_contents_def ref_env_def ref_exec_def ref_prepare_def ref_run_def

lemma ascending_last: "ascending t \<Longrightarrow> t \<noteq> [] \<Longrightarrow> Max (dom (map_of t)) = fst (last t)"
proof (rule Max_eqI)
  assume t: "ascending t" "t \<noteq> []"
  then have "sorted_wrt (<) (map fst t)" by (simp add: ascending_def)
  then show "y \<le> fst (last t)" if "y \<in> dom (map_of t)" for y
    using that t(2) by (cases t rule: rev_cases) (auto simp: sorted_wrt_append dom_map_of_conv_image_fst)
  show "fst (last t) \<in> dom (map_of t)"
    using t(2) by (simp add: dom_map_of_conv_image_fst)
qed (simp add: finite_dom_map_of)

lemma ascending_map_of: "ascending t \<Longrightarrow> map_of t k = Some v \<longleftrightarrow> (k, v) \<in> set t"
  using std_map.in_entries_iff[of t k v] by simp

lemma ascending_distinct: "ascending t \<Longrightarrow> distinct t"
  using strict_sorted_iff[of "map fst t"] by (auto simp: ascending_def distinct_map)

lemma ascending_filter: "ascending t \<Longrightarrow> ascending (filter P t)"
  by (auto simp: ascending_def sorted_wrt_filter filter_map[symmetric] sorted_wrt_map)

lemma map_of_filter_key: "map_of (filter (\<lambda>(k, m). k \<noteq> x) t) = (map_of t)(x := None)"
  by (induction t) auto

interpretation ref_vault: meme_vault "ref_env files" savedir ref_healthy ref_contents
proof (unfold_locales, goal_cases)
  case (8 w v)
  then obtain t where t: "rw_table w = Some t" "ascending t" "v = map_of t"
    by (auto simp: ref_defs)
  then have "dom v = {} \<longleftrightarrow> t = []" by (simp add: dom_map_of_conv_image_fst)
  moreover have "t \<noteq> [] \<Longrightarrow> map_of t (fst (last t)) = Some (snd (last t))"
    using t(2) by (simp add: ascending_map_of)
  ultimately show ?case
    using t sql_distinct(1) ascending_last[of t] by (auto simp: ref_defs)
next
  case (11 w)
  then show ?case
    using sql_distinct(1)
    by (auto simp: ref_defs ascending_map_of ascending_distinct split: option.splits)
next
  case (12 w num)
  then show ?case
    using sql_distinct numeral_not_column[of num]
    by (auto simp: ref_defs ascending_filter map_of_filter_key split: option.splits)
qed (use sql_distinct(1) in \<open>auto simp: ref_defs memes_def finite_dom_map_of ascending_map_set
   map_of_map_set split: option.splits\<close>)

section \<open>Identifiers\<close>

lemma dec_val_Cons: "dec_val (d # ds) = digit_val d * 10 ^ length ds + dec_val ds"
proof -
  have "foldl (\<lambda>v c. 10 * v + digit_val c) k ds = k * 10 ^ length ds + foldl (\<lambda>v c. 10 * v + digit_val c) 0 ds" for k
  proof (induction ds arbitrary: k)
    case (Cons e ds)
    from Cons.IH[of "10 * k + digit_val e"] Cons.IH[of "digit_val e"] show ?case
      by (simp add: algebra_simps)
  qed simp
  from this[of "digit_val d"] show ?thesis by (simp add: dec_val_def)
qed

lemma digit_val_less: "is_digit c \<Longrightarrow> digit_val c < 10"
  by (auto simp: is_digit_def digit_val_def)

lemma digit_val_mono: "is_digit c \<Longrightarrow> is_digit d \<Longrightarrow> c < d \<longleftrightarrow> digit_val c < digit_val d"
proof -
  have "list_all (\<lambda>c. list_all (\<lambda>d. (c < d) = (digit_val c < digit_val d)) ''0123456789'') ''0123456789''"
    by code_simp
  then show "is_digit c \<Longrightarrow> is_digit d \<Longrightarrow> c < d \<longleftrightarrow> digit_val c < digit_val d"
    unfolding is_digit_def list_all_iff by blast
qed

lemma digit_val_inject: "is_digit c \<Longrightarrow> is_digit d \<Longrightarrow> digit_val c = digit_val d \<Longrightarrow> c = d"
  using digit_val_mono[of c d] digit_val_mono[of d c] by (metis less_irrefl linorder_less_linear)

lemma dec_val_bound: "\<forall>c\<in>set ds. is_digit c \<Longrightarrow> dec_val ds < 10 ^ length ds"
proof (induction ds)
  case Nil
  show ?case by (simp add: dec_val_def)
next
  case (Cons d ds)
  then have "digit_val d \<le> 9" "dec_val ds < 10 ^ length ds"
    using digit_val_less[of d] by (simp_all add: less_Suc_eq_le)
  moreover from this(1) have "digit_val d * 10 ^ length ds \<le> 9 * 10 ^ length ds"
    by (rule mult_le_mono1)
  ultimately have "digit_val d * 10 ^ length ds + dec_val ds < 10 * 10 ^ length ds"
    by linarith
  then show ?case by (simp add: dec_val_Cons)
qed

text \<open>Numerals of the same length are ordered as texts the way they are as numbers.\<close>

lemma numeral_order:
  "length ds = length es \<Longrightarrow> \<forall>c\<in>set ds. is_digit c \<Longrightarrow> \<forall>c\<in>set es. is_digit c \<Longrightarrow>
   ds < es \<longleftrightarrow> dec_val ds < dec_val es"
proof (induction ds es rule: list_induct2)
  case Nil
  show ?case by simp
next
  case (Cons d ds e es)
  have b: "dec_val ds < 10 ^ length es" "dec_val es < 10 ^ length es"
    using dec_val_bound[of ds] dec_val_bound[of es] Cons by auto
  have de: "is_digit d" "is_digit e" using Cons.prems by auto
  consider "digit_val d < digit_val e" | "digit_val d = digit_val e" | "digit_val e < digit_val d" by linarith
  then show ?case
  proof cases
    case 1
    then have "(digit_val d + 1) * 10 ^ length es \<le> digit_val e * 10 ^ length es"
      by (intro mult_le_mono1) simp
    then have "dec_val (d # ds) < dec_val (e # es)"
      using b Cons.hyps by (simp add: dec_val_Cons)
    with 1 de show ?thesis by (simp add: digit_val_mono)
  next
    case 2
    then have "d = e" using de digit_val_inject by blast
    with Cons show ?thesis by (simp add: dec_val_Cons)
  next
    case 3
    then have "(digit_val e + 1) * 10 ^ length es \<le> digit_val d * 10 ^ length es"
      by (intro mult_le_mono1) simp
    then have "dec_val (e # es) < dec_val (d # ds)"
      using b Cons.hyps by (simp add: dec_val_Cons)
    with 3 de show ?thesis by (auto simp: digit_val_mono)
  qed
qed

lemma length_to_string: "length (to_string n) = (if n < 10 then 1 else Suc (length (to_string (n div 10))))"
  by (subst to_string.simps) simp

lemma to_string_less:
  "length (to_string m) = length (to_string n) \<Longrightarrow> to_string m < to_string n \<longleftrightarrow> m < n"
  using numeral_order[of "to_string m" "to_string n"] to_string_digits by simp

lemma five_digits: "10000 \<le> n \<Longrightarrow> n < 100000 \<Longrightarrow> length (to_string n) = 5"
  by (simp add: length_to_string flip: div_mult2_eq) linarith

lemma c_str_to_string: "c_str (to_string n) = to_string n"
proof -
  have "\<forall>c\<in>set (to_string n). c \<noteq> CHR 0x00"
    using to_string_digits[of _ n] by (auto simp: is_digit_def)
  then show ?thesis unfolding c_str_def by (simp add: takeWhile_eq_all_conv)
qed

lemma next_id_number: "n < 2 ^ 31 - 1 \<Longrightarrow> next_id (to_string n) = Inr (to_string (n + 1))"
  using stoi_to_string[of n "[]"] by (simp add: next_id_def int_range_def int_to_string_def nat_add_distrib)

lemma small_ids:
  "to_string 10000 = ''10000''" "to_string 99999 = ''99999''" "to_string 100000 = ''100000''"
  by (simp_all add: to_string.simps[of 100000] to_string.simps[of 10000] to_string.simps[of 1000]
      to_string.simps[of 100] to_string.simps[of 10] to_string.simps[of "Suc 0"]
      to_string.simps[of 99999] to_string.simps[of 9999] to_string.simps[of 999]
      to_string.simps[of 99] to_string.simps[of 9])

definition five_digit_ids :: "table \<Rightarrow> bool" where
  "five_digit_ids v \<longleftrightarrow> finite (dom v) \<and> dom v \<subseteq> to_string ` {10000..<99999}"

lemma max_five_digit:
  assumes "five_digit_ids v" and "dom v \<noteq> {}"
  shows "\<exists>n\<in>{10000..<99999}. Max (dom v) = to_string n \<and> (\<forall>m. to_string m \<in> dom v \<longrightarrow> m \<le> n)"
proof -
  have fin: "finite (dom v)" using assms(1) by (simp add: five_digit_ids_def)
  have "Max (dom v) \<in> dom v" using fin assms(2) by simp
  then obtain n where n: "n \<in> {10000..<99999}" "Max (dom v) = to_string n"
    using assms(1) by (auto simp: five_digit_ids_def)
  have "m \<le> n" if "to_string m \<in> dom v" for m
  proof -
    have "m \<in> {10000..<99999}"
      using that assms(1) by (auto simp: five_digit_ids_def to_string_inject)
    then have "length (to_string m) = length (to_string n)" using n five_digits by simp
    moreover have "\<not> to_string n < to_string m"
      using Max_ge[OF fin that] n by simp
    ultimately show ?thesis using to_string_less[of n m] by simp
  qed
  with n show ?thesis by blast
qed

text \<open>The new identifier as a numeral: the successor of the largest one.\<close>

lemma new_identifier_next:
  assumes "five_digit_ids v"
  shows "\<exists>n. 10000 \<le> n \<and> n \<le> 99999 \<and> new_identifier v = Inr (to_string n) \<and>
    (\<forall>m. to_string m \<in> dom v \<longrightarrow> m < n) \<and> to_string n \<notin> dom v \<and>
    (dom v \<noteq> {} \<longrightarrow> (\<exists>j. n = j + 1 \<and> to_string j \<in> dom v)) \<and> (dom v = {} \<longrightarrow> n = 10000)"
proof (cases "dom v = {}")
  case True
  from True show ?thesis by (intro exI[of _ 10000]) (simp add: new_identifier_def small_ids)
next
  case False
  then obtain n where n: "n \<in> {10000..<99999}" "Max (dom v) = to_string n" "\<forall>m. to_string m \<in> dom v \<longrightarrow> m \<le> n"
    using max_five_digit[OF assms] by blast
  then have "new_identifier v = Inr (to_string (n + 1))"
    using False next_id_number[of n] by (simp add: new_identifier_def c_str_to_string)
  moreover have "to_string n \<in> dom v"
    using Max_in[OF _ False] assms n(2) by (simp add: five_digit_ids_def)
  ultimately show ?thesis using n False by (intro exI[of _ "n + 1"]) (auto simp: less_Suc_eq_le)
qed

section \<open>Tokens\<close>

definition token_alphabet :: string where
  "token_alphabet = ''abcdefghijklmnopqrstuvwxyzABCDEFGHIJKLMNOPQRSTUVWXYZ0123456789''"

lemma scramble_chars: "map scramble_char [0..<62] = token_alphabet"
  by (simp add: upt_rec scramble_char_def char_of_eq_iff token_alphabet_def)

lemma scramble_char_alphabet: "r < 62 \<Longrightarrow> scramble_char r \<in> set token_alphabet"
  unfolding scramble_chars[symmetric] by simp

lemma scramble_loop_shape:
  "length (fst (scramble_loop env n w)) = n \<and> set (fst (scramble_loop env n w)) \<subseteq> set token_alphabet"
proof (induction n arbitrary: w)
  case (Suc n)
  from Suc[of "snd (env_rand env w)"] show ?case
    by (simp add: split_beta scramble_char_alphabet)
qed simp

section \<open>Properties\<close>

text \<open>C19: Storing a new meme, on a database that works, gives it the new identifier and a token that is the
  identifier, a hyphen and twice as many random letters and digits; nothing else of the table
  changes, and reading the identifier back gives the stored texts.\<close>

theorem new_meme_stored:
  assumes "meme_vault env savedir healthy contents" and "healthy w"
    and "new_identifier (memes (contents w)) = Inr k"
  shows "\<exists>s w' w''. AddToDatabase env savedir j tok n i t b True w = Inr (k, w') \<and>
    length s = 2 * length k \<and> set s \<subseteq> set token_alphabet \<and>
    memes (contents w') = (memes (contents w))(k \<mapsto> \<lparr>meme_name = n, meme_img = i, meme_top = t,
      meme_bottom = b, meme_token = k @ ''-'' @ s\<rparr>) \<and>
    GetMemeFromDatabase env savedir k w' = Inr (meme_map k \<lparr>meme_name = n, meme_img = i, meme_top = t,
      meme_bottom = b, meme_token = k @ ''-'' @ s\<rparr>, w'')"
proof -
  obtain w0 w' where add: "AddToDatabase env savedir j tok n i t b True w = Inr (k, w')" "healthy w'"
    "memes (contents w') = (memes (contents w))(k \<mapsto> \<lparr>meme_name = n, meme_img = i, meme_top = t,
      meme_bottom = b, meme_token = k @ ''-'' @ fst (gen_access_token env (length k) w0)\<rparr>)"
    using meme_vault.AddToDatabase_new[OF assms] by blast
  moreover obtain w'' where "GetMemeFromDatabase env savedir k w' =
      Inr (case memes (contents w') k of None \<Rightarrow> [] | Some m \<Rightarrow> meme_map k m, w'')"
    using meme_vault.GetMemeFromDatabase_vault[OF assms(1) add(2)] by blast
  ultimately show ?thesis
    using scramble_loop_shape[of env "length k * 2" w0]
    by (intro exI[of _ "fst (gen_access_token env (length k) w0)"] exI[of _ w'] exI[of _ w''])
      (simp add: gen_access_token_def)
qed

definition empty_world :: ref_world where
  "empty_world = \<lparr>rw_table = None, rw_seed = 7, rw_chunks = []\<rparr>"

theorem new_meme_stored_witness:
  "\<exists>s w' w''. AddToDatabase (ref_env (\<lambda>_. None)) ''/data'' [] [] ''n'' ''i'' ''t'' ''b'' True empty_world = Inr (''10000'', w') \<and>
    length s = 10 \<and>
    GetMemeFromDatabase (ref_env (\<lambda>_. None)) ''/data'' ''10000'' w' = Inr (meme_map ''10000''
      \<lparr>meme_name = ''n'', meme_img = ''i'', meme_top = ''t'', meme_bottom = ''b'',
       meme_token = ''10000-'' @ s\<rparr>, w'')"
proof -
  have h: "ref_healthy empty_world" "ref_contents empty_world = None"
    by (simp_all add: empty_world_def ref_healthy_def ref_contents_def)
  then have "new_identifier (memes (ref_contents empty_world)) = Inr ''10000''"
    by (simp add: new_identifier_def)
  from new_meme_stored[OF ref_vault.meme_vault_axioms h(1) this, of "(\<lambda>_. None)" "''/data''" "[]" "[]" "''n''" "''i''" "''t''" "''b''"]
  show ?thesis by fastforce
qed

text \<open>Storing an edited meme replaces its texts under the old identifier and keeps its token, whatever token
  the request carried; every other meme stays as it is.\<close>

theorem edited_meme_keeps_token:
  assumes "meme_vault env savedir healthy contents" and "healthy w"
    and "memes (contents w) k = Some m"
  shows "\<exists>w'. AddToDatabase env savedir k tok n i t b False w = Inr (k, w') \<and>
    memes (contents w') = (memes (contents w))(k \<mapsto> \<lparr>meme_name = n, meme_img = i, meme_top = t,
      meme_bottom = b, meme_token = c_str (meme_token m)\<rparr>)"
  using meme_vault.AddToDatabase_edit[OF assms(1,2), of k tok n i t b] assms(3) by auto

definition one_meme :: ref_world where
  "one_meme = \<lparr>rw_table = Some [(''10000'', \<lparr>meme_name = ''n'', meme_img = ''i'', meme_top = ''t'',
     meme_bottom = ''b'', meme_token = ''10000-aB3'' \<rparr>)], rw_seed = 7, rw_chunks = []\<rparr>"

lemma one_meme_healthy: "ref_healthy one_meme"
  by (simp add: one_meme_def ref_healthy_def)

lemma one_meme_contents:
  "memes (ref_contents one_meme) = [''10000'' \<mapsto> \<lparr>meme_name = ''n'', meme_img = ''i'', meme_top = ''t'',
     meme_bottom = ''b'', meme_token = ''10000-aB3''\<rparr>]"
  by (simp add: one_meme_def ref_contents_def)

theorem edited_meme_keeps_token_witness:
  "\<exists>w'. AddToDatabase (ref_env (\<lambda>_. None)) ''/data'' ''10000'' [] ''x'' ''i'' ''t'' ''b'' False one_meme = Inr (''10000'', w') \<and>
    memes (ref_contents w') ''10000'' = Some \<lparr>meme_name = ''x'', meme_img = ''i'', meme_top = ''t'',
      meme_bottom = ''b'', meme_token = ''10000-aB3''\<rparr>"
proof -
  have "c_str ''10000-aB3'' = ''10000-aB3''" by code_simp
  then show ?thesis
    using edited_meme_keeps_token[OF ref_vault.meme_vault_axioms one_meme_healthy, of "''10000''" _
      "(\<lambda>_. None)" "''/data''" "[]" "''x''" "''i''" "''t''" "''b''"]
    by (auto simp: one_meme_contents)
qed

text \<open>As long as all identifiers are numerals of five digits below 99999, the new identifier is again such a
  numeral, larger than all of them, so no stored meme is overwritten.\<close>

theorem new_identifier_is_fresh:
  assumes "five_digit_ids v"
  shows "\<exists>n. 10000 \<le> n \<and> n \<le> 99999 \<and> new_identifier v = Inr (to_string n) \<and>
    (\<forall>m. to_string m \<in> dom v \<longrightarrow> m < n) \<and> to_string n \<notin> dom v"
  using new_identifier_next[OF assms] by blast

theorem new_identifier_is_fresh_witness:
  "\<exists>n. new_identifier (memes (ref_contents one_meme)) = Inr (to_string n) \<and> 10000 < n"
proof -
  have five: "five_digit_ids (memes (ref_contents one_meme))"
    by (simp add: five_digit_ids_def one_meme_contents small_ids(1)[symmetric])
  from new_identifier_is_fresh[OF this] obtain n where
    "new_identifier (memes (ref_contents one_meme)) = Inr (to_string n)"
    "\<forall>m. to_string m \<in> dom (memes (ref_contents one_meme)) \<longrightarrow> m < n" by blast
  moreover have "to_string 10000 \<in> dom (memes (ref_contents one_meme))"
    by (simp add: one_meme_contents small_ids)
  ultimately show ?thesis by blast
qed

text \<open>With six digits the order of the texts is no longer that of the numbers: after the memes 99999 and
  100000 the next new meme gets the identifier 100000 again and replaces the stored one.\<close>

theorem new_identifier_collides:
  assumes "dom v = {''99999'', ''100000''}"
  shows "new_identifier v = Inr ''100000'' \<and> ''100000'' \<in> dom v"
proof -
  have "\<not> (''99999'' :: string) \<le> ''100000''" by code_simp
  then have "Max (dom v) = ''99999''" using assms by simp
  moreover have "next_id (c_str ''99999'') = Inr ''100000''"
    using next_id_number[of 99999] c_str_to_string[of 99999] by (simp add: small_ids)
  ultimately show ?thesis using assms by (simp add: new_identifier_def)
qed

theorem new_identifier_collides_witness:
  "new_identifier [''99999'' \<mapsto> m, ''100000'' \<mapsto> m] = Inr ''100000''"
  using new_identifier_collides[of "[''99999'' \<mapsto> m, ''100000'' \<mapsto> m]"] by auto

end
