(* ===== verification/Page_Template.thy ===== *)
theory Page_Template
  imports Boost_Strings
begin

text \<open>
  Pages with marks, as a browser is to see them: texts with a value between any two of them. What the
  program does, one replacement over the whole page for each mark, is proved to put each value in the
  place of its mark, as long as the marks stand apart from the text around them and no value holds one.
\<close>

section \<open>Pages\<close>

definition page_with :: "('f \<Rightarrow> string) \<Rightarrow> (string \<times> 'f) list \<Rightarrow> string \<Rightarrow> string" where
  "page_with value tp rest = concat (map (\<lambda>(s, x). s @ value x) tp) @ rest"

lemma page_with_simps [simp]:
  "page_with f [] rest = rest"
  "page_with f ((s, x) # tp) rest = s @ f x @ page_with f tp rest"
  by (simp_all add: page_with_def)

lemma page_with_append: "page_with f tp rest @ u = page_with f tp (rest @ u)"
  by (simp add: page_with_def)

text \<open>A text that holds no mark and whose first and last byte are in no mark.\<close>

definition stands_apart :: "string \<Rightarrow> string \<Rightarrow> bool" where
  "stands_apart p s \<longleftrightarrow> s \<noteq> [] \<and> hd s \<notin> set p \<and> last s \<notin> set p \<and> \<not> sublist p s"

definition page_apart :: "string \<Rightarrow> (string \<times> 'f) list \<Rightarrow> string \<Rightarrow> bool" where
  "page_apart p tp rest \<longleftrightarrow> list_all (\<lambda>(s, x). stands_apart p s) tp \<and> stands_apart p rest"

context boost_replace
begin

lemma replace_text:
  assumes "stands_apart p s" and "p \<noteq> []" and "r \<noteq> []" and "hd r \<notin> set p"
  shows "replace_all (s @ v @ r) p t = s @ replace_all v p t @ replace_all r p t"
proof -
  obtain u c where s: "s = u @ [c]" using assms(1) by (cases s rule: rev_cases) (auto simp: stands_apart_def)
  obtain d q where r: "r = d # q" using assms(3) by (cases r) auto
  have c: "c \<notin> set p" "\<not> sublist p u" and d: "d \<notin> set p"
    using assms(1,4) sublist_order.order_trans[of p u "u @ [c]"] by (auto simp: stands_apart_def s r)
  have "replace_all r p t = d # replace_all q p t"
    using replace_separated[OF d assms(2), of "[]" q t] by (simp add: r replace_nil[OF assms(2)])
  moreover have "replace_all u p t = u" using c(2) assms(2) by (simp add: replace_none str_find_None_iff)
  ultimately show ?thesis
    using replace_separated[OF c(1) assms(2), of u "v @ d # q" t] replace_separated[OF d assms(2), of v q t]
    by (simp add: s r)
qed

text \<open>One replacement puts the text in the place of one mark.\<close>

lemma replace_mark:
  assumes "p \<noteq> []" and "page_apart p tp rest" and "\<forall>y. f y = p \<or> \<not> sublist p (f y)"
  shows "replace_all (page_with f tp rest) p t = page_with (\<lambda>y. if f y = p then t else f y) tp rest"
  using assms(2)
proof (induction tp)
  case Nil
  then show ?case using assms(1) by (simp add: page_apart_def stands_apart_def replace_none str_find_None_iff)
next
  case (Cons e tp)
  obtain s x where e: "e = (s, x)" by (cases e)
  with Cons.prems have s: "stands_apart p s" and tp: "page_apart p tp rest" by (simp_all add: page_apart_def)
  from tp have "page_with f tp rest \<noteq> []" "hd (page_with f tp rest) \<notin> set p"
    by (cases tp; auto simp: page_apart_def stands_apart_def)+
  from replace_text[OF s assms(1) this, of "f x" t] Cons.IH[OF tp]
  have "replace_all (page_with f (e # tp) rest) p t =
      s @ replace_all (f x) p t @ page_with (\<lambda>y. if f y = p then t else f y) tp rest"
    by (simp add: e)
  moreover have "replace_all (f x) p t = (if f x = p then t else f x)"
    using assms(1,3) replace_here[OF assms(1), of "[]" t] by (auto simp: replace_nil replace_none str_find_None_iff)
  ultimately show ?case by (simp add: e)
qed

end

section \<open>The marks of the meme pages\<close>

datatype mark = Id_mark | Name_mark | Image_mark | Top_mark | Bottom_mark | Token_mark

fun mark_text :: "mark \<Rightarrow> string" where
  "mark_text Id_mark = ''meme_object_id''"
| "mark_text Name_mark = ''meme_object_name''"
| "mark_text Image_mark = ''meme_object_img''"
| "mark_text Top_mark = ''meme_object_top''"
| "mark_text Bottom_mark = ''meme_object_bot''"
| "mark_text Token_mark = ''meme_object_atoken''"

definition all_marks :: "mark list" where
  "all_marks = [Id_mark, Name_mark, Image_mark, Top_mark, Bottom_mark, Token_mark]"

lemma in_all_marks [simp]: "x \<in> set all_marks"
  by (cases x) (simp_all add: all_marks_def)

definition template_ok :: "(string \<times> mark) list \<Rightarrow> string \<Rightarrow> bool" where
  "template_ok tp rest \<longleftrightarrow> list_all (\<lambda>x. page_apart (mark_text x) tp rest) all_marks"

definition no_marks :: "(mark \<Rightarrow> string) \<Rightarrow> bool" where
  "no_marks value \<longleftrightarrow> list_all (\<lambda>x. list_all (\<lambda>y. \<not> sublist (mark_text x) (value y)) all_marks) all_marks"

lemma no_marksD: "no_marks value \<Longrightarrow> \<not> sublist (mark_text x) (value y)"
  by (auto simp: no_marks_def list_all_iff)

lemma template_okD: "template_ok tp rest \<Longrightarrow> page_apart (mark_text x) tp rest"
  by (auto simp: template_ok_def list_all_iff)

lemma marks_apart: "sublist (mark_text x) (mark_text y) \<longleftrightarrow> x = y"
proof -
  have "list_all (\<lambda>x. list_all (\<lambda>y. str_find (mark_text y) (mark_text x) = None \<longleftrightarrow> x \<noteq> y) all_marks) all_marks"
    by code_simp
  then have "str_find (mark_text y) (mark_text x) = None \<longleftrightarrow> x \<noteq> y" by (simp add: list_all_iff)
  then show ?thesis by (simp add: str_find_None_iff)
qed

context boost_replace
begin

text \<open>The replacements of some marks, one after the other.\<close>

lemma replace_next_mark:
  assumes "template_ok tp rest" and "no_marks value" and "x \<notin> set ys"
  shows "replace_all (page_with (\<lambda>y. if y \<in> set ys then value y else mark_text y) tp rest) (mark_text x) (value x) =
    page_with (\<lambda>y. if y \<in> set (x # ys) then value y else mark_text y) tp rest"
proof -
  let ?f = "\<lambda>y. if y \<in> set ys then value y else mark_text y"
  have here: "?f y = mark_text x \<longleftrightarrow> y = x" for y
  proof (cases "y \<in> set ys")
    case True
    then have "value y \<noteq> mark_text x" using no_marksD[OF assms(2), of x y] by fastforce
    with True assms(3) show ?thesis by auto
  next
    case False
    then show ?thesis using marks_apart[of x y] by fastforce
  qed
  have "\<not> sublist (mark_text x) (?f y)" if "y \<noteq> x" for y
    using that no_marksD[OF assms(2), of x y] marks_apart[of x y] by simp
  with here have apart: "\<forall>y. ?f y = mark_text x \<or> \<not> sublist (mark_text x) (?f y)" by blast
  have "mark_text x \<noteq> []" by (cases x) simp_all
  from replace_mark[where f = ?f, OF this template_okD[OF assms(1)] apart, of "value x"]
  have "replace_all (page_with ?f tp rest) (mark_text x) (value x) =
      page_with (\<lambda>y. if y = x then value x else ?f y) tp rest"
    unfolding here .
  moreover have "(\<lambda>y. if y = x then value x else ?f y) = (\<lambda>y. if y \<in> set (x # ys) then value y else mark_text y)"
    by (rule ext) simp
  ultimately show ?thesis by simp
qed

end

end
