(* ===== verification/Meme_Handler.thy ===== *)
theory Meme_Handler
  imports Meme_Vault Simple_Handlers Page_Template
begin

text \<open>
  The pages of \<^verbatim>\<open>src/meme_handler.cc\<close> and its \<^verbatim>\<open>HandleRequest\<close>. The members of the object
  are a record; a page returns its error flag with the object and the world. The page
  templates are files of the environment, by the paths the source spells out. The mutex
  around \<^verbatim>\<open>AddToDatabase\<close> is left out: one thread runs the handlers.
\<close>

record meme_handler =
  mh_root :: string
  mh_uri :: string
  mh_filedir :: string
  mh_savedir :: string
  memepage :: string
  memebody :: string
  errorflag :: bool

definition MemeHandler_create :: "config \<Rightarrow> string \<Rightarrow> meme_handler res" where
  "MemeHandler_create config path =
     bind_res (GetAttribute config ''location'') (\<lambda>location.
     bind_res (GetAttribute config ''save'') (\<lambda>save.
     bind_res (GetAttribute config ''url'') (\<lambda>url.
     Inr \<lparr>mh_root = path, mh_uri = url, mh_filedir = location, mh_savedir = save,
          memepage = '''', memebody = '''', errorflag = False\<rparr>)))"

section \<open>The pages\<close>

text \<open>
  \<^verbatim>\<open>std::ifstream ifs(path)\<close>, the test, and the loop that appends the blocks to \<^verbatim>\<open>memebody_\<close>:
  \<open>None\<close> where the page returns \<^verbatim>\<open>true\<close>.
\<close>

definition append_template :: "'w env \<Rightarrow> string \<Rightarrow> meme_handler \<Rightarrow> meme_handler option" where
  "append_template env path h =
     (case env_file env path of
        None \<Rightarrow> None
      | Some ifs \<Rightarrow> if length (memepage h) = 0 then None
                    else Some (h\<lparr>memebody := memebody h @ read_blocks ifs\<rparr>))"

definition MemeCreate :: "'w env \<Rightarrow> meme_handler \<Rightarrow> bool \<times> meme_handler" where
  "MemeCreate env h =
     (case append_template env ''memes_r_us/create.html'' h of None \<Rightarrow> (True, h) | Some h \<Rightarrow> (False, h))"

text \<open>The five columns two of the pages read, and the six replacements three of them make.\<close>

definition view_columns :: "step \<Rightarrow> (string \<times> string \<times> string \<times> string \<times> string) res" where
  "view_columns st =
     bind_res (column_text st 1) (\<lambda>name.
     bind_res (column_text st 2) (\<lambda>img.
     bind_res (column_text st 3) (\<lambda>upper.
     bind_res (column_text st 4) (\<lambda>lower.
     bind_res (column_text st 5) (\<lambda>atoken. Inr (name, img, upper, lower, atoken))))))"

definition fill_page ::
  "'w env \<Rightarrow> string \<Rightarrow> string \<times> string \<times> string \<times> string \<times> string \<Rightarrow> string \<Rightarrow> string" where
  "fill_page env meme_id vals body =
     (case vals of (name, img, upper, lower, atoken) \<Rightarrow>
      let body = env_replace_all env body ''meme_object_id'' meme_id;
          body = env_replace_all env body ''meme_object_name'' name;
          body = env_replace_all env body ''meme_object_img'' img;
          body = env_replace_all env body ''meme_object_top'' upper;
          body = env_replace_all env body ''meme_object_bot'' lower
      in env_replace_all env body ''meme_object_atoken'' atoken)"

text \<open>\<^verbatim>\<open>memepage_.substr(memepage_.find("id=") + 3, memepage_.length() - 1)\<close>\<close>

definition page_id :: "meme_handler \<Rightarrow> string res" where
  "page_id h = substr (memepage h) (str_find_int (memepage h) ''id='' + 3) (int (length (memepage h)) - 1)"

text \<open>\<^verbatim>\<open>MemeHandler::MemeView\<close>\<close>

definition view_page :: "'w env \<Rightarrow> bool \<Rightarrow> string \<Rightarrow> string \<times> string \<times> string \<times> string \<times> string \<Rightarrow>
  meme_handler \<Rightarrow> bool \<times> meme_handler" where
  "view_page env incorrectAccessToken meme_id vals h =
     (case append_template env ''memes_r_us/view.html'' h of
        None \<Rightarrow> (True, h)
      | Some h \<Rightarrow>
          let body = memebody h;
              body = (if incorrectAccessToken
                      then body @ ''<div id='' @ [CHR 0x22] @ ''editor'' @ [CHR 0x22] @
                        ''><p>Access Token Denied</p>'' else body);
              body = body @ ''</div></body></html>''
          in (False, h\<lparr>memebody := fill_page env meme_id vals body\<rparr>))"

definition MemeView :: "'w env \<Rightarrow> bool \<Rightarrow> meme_handler \<Rightarrow> 'w \<Rightarrow> (bool \<times> meme_handler \<times> 'w) res" where
  "MemeView env incorrectAccessToken h w =
     (if str_find_int (memepage h) ''id='' = -1 then Inr (True, h, w)
      else bind_res (page_id h) (\<lambda>meme_id.
        case sql_open env (db_path (mh_savedir h)) w of (opened, w) \<Rightarrow>
        if \<not> opened then Inr (True, h, sql_close env w)
        else if sql_prepare env sql_select_id w then
          (case sql_run env sql_select_id [meme_id] w of (rows, fin, w) \<Rightarrow>
           case first_step rows fin of
             DONE \<Rightarrow> Inr (True, h, w)
           | st \<Rightarrow> bind_res (view_columns st) (\<lambda>vals.
               case view_page env incorrectAccessToken meme_id vals h of (e, h) \<Rightarrow>
               Inr (e, h, sql_close env w)))
        else
          (case view_page env incorrectAccessToken meme_id ('''', '''', '''', '''', '''') h of (e, h) \<Rightarrow>
           Inr (e, h, sql_close env w))))"

text \<open>\<^verbatim>\<open>MemeHandler::MemeResult\<close>\<close>

definition infobox :: "string \<Rightarrow> string" where
  "infobox ident =
     (let q = [CHR 0x22] in
      ''<div id='' @ q @ ''infobox'' @ q @ ''>'' @
      ''<a href='' @ q @ ''http://ss.gitrdone.cs130.org/meme/view?id='' @ ident @ q @ '' class='' @ q @
      ''description'' @ q @ ''> URL: http://ss.gitrdone.cs130.org/meme/view?id='' @ ident @ ''</a><br>'' @
      ''<p>Access Token (Used for Deletion): meme_object_atoken</p>'' @
      ''</div>'' @
      ''</body></html>'')"

definition result_page :: "'w env \<Rightarrow> string \<Rightarrow> string \<times> string \<times> string \<times> string \<times> string \<Rightarrow>
  meme_handler \<Rightarrow> bool \<times> meme_handler" where
  "result_page env ident vals h =
     (case append_template env ''memes_r_us/view.html'' h of
        None \<Rightarrow> (True, h)
      | Some h \<Rightarrow>
          let (name, img, upper, lower, atoken) = vals;
              body = memebody h;
              body = (if length atoken > 0 then body @ infobox ident else body)
          in (False, h\<lparr>memebody := fill_page env ident vals body\<rparr>))"

definition MemeResult :: "'w env \<Rightarrow> string \<Rightarrow> meme_handler \<Rightarrow> 'w \<Rightarrow> (bool \<times> meme_handler \<times> 'w) res" where
  "MemeResult env ident h w =
     (case sql_open env (db_path (mh_savedir h)) w of (opened, w) \<Rightarrow>
      if \<not> opened then Inr (True, h, sql_close env w)
      else
        bind_res
          (if sql_prepare env sql_select_id w then
             (case sql_run env sql_select_id [ident] w of (rows, fin, w) \<Rightarrow>
              case first_step rows fin of
                DONE \<Rightarrow> Inr (('''', '''', '''', '''', ''''), w)
              | st \<Rightarrow> bind_res (view_columns st) (\<lambda>vals. Inr (vals, w)))
           else Inr (('''', '''', '''', '''', ''''), w))
          (\<lambda>(vals, w).
           case result_page env ident vals h of (e, h) \<Rightarrow> Inr (e, h, sql_close env w)))"

text \<open>The loop over the memes that two of the pages share.\<close>

fun list_entries :: "string std_map list \<Rightarrow> string" where
  "list_entries [] = []"
| "list_entries (m # ms) =
     ''<a id='' @ [CHR 0x22] @ ''entry'' @ [CHR 0x22] @ '' href='' @ [CHR 0x22] @
     ''http://ss.gitrdone.cs130.org/meme/view?id='' @ map_index m ''MEME_ID'' @ [CHR 0x22] @ ''>'' @
     ''MemeID: '' @ map_index m ''MEME_ID'' @ '' :-: Name: '' @ map_index m ''NAME'' @ [CHR 0x0A] @
     ''</a><br />'' @ [CHR 0x0A] @ list_entries ms"

definition list_end :: string where
  "list_end = ''</div>'' @ [CHR 0x0A] @ ''</div>'' @ [CHR 0x0A] @ ''</body>'' @ [CHR 0x0A] @ ''</html>''"

definition no_results :: string where
  "no_results = ''<p class='' @ [CHR 0x22] @ ''description'' @ [CHR 0x22] @ ''> No results found </p>''"

text \<open>\<^verbatim>\<open>MemeHandler::MemeList\<close>\<close>

definition MemeList :: "'w env \<Rightarrow> meme_handler \<Rightarrow> 'w \<Rightarrow> (bool \<times> meme_handler \<times> 'w) res" where
  "MemeList env h w =
     bind_res (GetAllFromDatabase env (mh_savedir h) w) (\<lambda>(memelist, w).
     let memelist = rev memelist in
     case append_template env ''memes_r_us/list.html'' h of
       None \<Rightarrow> Inr (True, h, w)
     | Some h \<Rightarrow>
         let body = memebody h;
             body = (if length memelist = 0 then body @ no_results else body);
             body = body @ list_entries memelist @ list_end
         in Inr (False, h\<lparr>memebody := env_replace_all env body ''searchterm_replacethis'' ''''\<rparr>, w))"

text \<open>\<^verbatim>\<open>MemeHandler::MemeSearch\<close>\<close>

definition MemeSearch :: "'w env \<Rightarrow> meme_handler \<Rightarrow> 'w \<Rightarrow> (bool \<times> meme_handler \<times> 'w) res" where
  "MemeSearch env h w =
     (let page = memepage h;
          search_index = str_find_int page ''list?q='';
          j = str_find_int page ''&'' in
      bind_res (substr page (search_index + 7) (j - search_index - 7)) (\<lambda>search_term.
      bind_res (urlDecode (env_replace_all env search_term ''+'' '' '')) (\<lambda>search_term.
      let search_term = htmlDecode (env_replace_all env) search_term;
          sort_index = str_find_int page ''&sort='' in
      if sort_index = -1 then Inr (True, h, w)
      else
        bind_res (substr page (sort_index + 6) (int (length page) - 1)) (\<lambda>sort_term.
        bind_res (SearchFromDatabase env (mh_savedir h) search_term sort_term w) (\<lambda>(memelist, w).
        case append_template env ''memes_r_us/list.html'' h of
          None \<Rightarrow> Inr (True, h, w)
        | Some h \<Rightarrow>
            let body = memebody h;
                body = (if length memelist = 0 then body @ no_results
                        else body @ ''<p class='' @ [CHR 0x22] @ ''description'' @ [CHR 0x22] @ ''> Found '' @
                          to_string (length memelist) @ '' current search terms</p>'');
                body = body @ list_entries memelist @ list_end;
                body = env_replace_all env body ''searchterm_replacethis'' search_term;
                body = env_replace_all env body ''sortterm_replacethis'' sort_term
            in Inr (False, h\<lparr>memebody := body\<rparr>, w))))))"

text \<open>\<^verbatim>\<open>MemeHandler::MemeEdit\<close>\<close>

definition MemeEdit :: "'w env \<Rightarrow> meme_handler \<Rightarrow> 'w \<Rightarrow> (bool \<times> meme_handler \<times> 'w) res" where
  "MemeEdit env h w =
     bind_res (page_id h) (\<lambda>meme_id.
     case append_template env ''memes_r_us/edit.html'' h of
       None \<Rightarrow> Inr (True, h, w)
     | Some h \<Rightarrow>
         bind_res (GetMemeFromDatabase env (mh_savedir h) meme_id w) (\<lambda>(meme_object, w).
         let decode = htmlDecode (env_replace_all env);
             vals = (decode (map_index meme_object ''NAME''), map_index meme_object ''IMAGE'',
                     decode (map_index meme_object ''TOP''), decode (map_index meme_object ''BOTTOM''),
                     map_index meme_object ''ACCESS_TOKEN'')
         in Inr (False, h\<lparr>memebody := fill_page env meme_id vals (memebody h)\<rparr>, w)))"

text \<open>
  \<^verbatim>\<open>MemeHandler::MemeDelete\<close>. The callback is given the address of the statement pointer where
  it expects a vector, so a statement that returns a row is undefined; and the function has no
  \<^verbatim>\<open>return\<close> behind the page. \<open>delete_row\<close> is the part that works on the database, with \<open>False\<close> when
  it cannot be opened.
\<close>

definition delete_row :: "'w env \<Rightarrow> string \<Rightarrow> string \<Rightarrow> 'w \<Rightarrow> (bool \<times> 'w) res" where
  "delete_row env savedir meme_id w =
     (case sql_open env (db_path savedir) w of (opened, w) \<Rightarrow>
      if \<not> opened then Inr (False, sql_close env w)
      else
        case sql_exec env (c_str (sql_delete @ meme_id)) w of (success, rows, w) \<Rightarrow>
        if rows \<noteq> [] then Inl Undefined
        else Inr (True, sql_close env w))"

definition MemeDelete :: "'w env \<Rightarrow> meme_handler \<Rightarrow> 'w \<Rightarrow> (bool \<times> meme_handler \<times> 'w) res" where
  "MemeDelete env h w =
     bind_res (page_id h) (\<lambda>meme_id.
     bind_res (GetMemeFromDatabase env (mh_savedir h) meme_id w) (\<lambda>(meme_object, w).
     bind_res (delete_row env (mh_savedir h) meme_id w) (\<lambda>(deleted, w).
       if \<not> deleted then Inr (True, h, w)
       else
           (case append_template env ''memes_r_us/delete.html'' h of
              None \<Rightarrow> Inr (True, h, w)
            | Some h \<Rightarrow> Inl Undefined))))"

section \<open>Authentication\<close>

text \<open>\<^verbatim>\<open>MemeHandler::verifyTokenAuthentication\<close>, with the lines the body parser prints.\<close>

definition verifyTokenAuthentication ::
  "'w env \<Rightarrow> meme_handler \<Rightarrow> request \<Rightarrow> 'w \<Rightarrow> (bool \<times> string list \<times> 'w) res" where
  "verifyTokenAuthentication env h req w =
     bind_res (parseRequestBody (env_split env) (req_body req)) (\<lambda>(memeMap, log).
     let token = map_index memeMap ''access-token'' in
     if length token > 0 \<and> token = ''partialnotcomplete'' then Inr (True, log, w)
     else if length token > 0 \<and> str_find token ''-'' \<noteq> None then
       bind_res (GetAllFromDatabase env (mh_savedir h) w) (\<lambda>(our_memes, w).
       bind_res (vec_at (env_split env (\<lambda>c. c \<in> set ''-'') token) 0) (\<lambda>meme_id.
       Inr (list_ex (\<lambda>m. map_index m ''ACCESS_TOKEN'' = token \<and> map_index m ''MEME_ID'' = meme_id) our_memes,
            log, w)))
     else Inr (False, log, w))"

section \<open>The request\<close>

text \<open>
  The chain of comparisons of \<^verbatim>\<open>MemeHandler::HandleRequest\<close>: the new \<^verbatim>\<open>errorflag\<close>, the object,
  the lines printed and the world.
\<close>

definition meme_action ::
  "'w env \<Rightarrow> meme_handler \<Rightarrow> request \<Rightarrow> 'w \<Rightarrow> (bool \<times> meme_handler \<times> string list \<times> 'w) res" where
  "meme_action env h request w =
     (let silent = (\<lambda>(e, h, w). Inr (e, h, [], w)) in
      if memepage h = ''create'' then (case MemeCreate env h of (e, h) \<Rightarrow> Inr (e, h, [], w))
      else if memepage h = ''list'' then bind_res (MemeList env h w) silent
      else if take 7 (memepage h) = ''list?q='' then bind_res (MemeSearch env h w) silent
      else if take 4 (memepage h) = ''view'' then bind_res (MemeView env False h w) silent
      else if take 8 (memepage h) = ''edit?id='' then
        bind_res (verifyTokenAuthentication env h request w) (\<lambda>(authorized, log, w).
        bind_res (if authorized then MemeEdit env h w else MemeView env True h w) (\<lambda>(e, h, w).
        Inr (e, h, log, w)))
      else if take 10 (memepage h) = ''delete?id='' then
        bind_res (verifyTokenAuthentication env h request w) (\<lambda>(authorized, log, w).
        bind_res (if authorized then MemeDelete env h w else MemeView env True h w) (\<lambda>(e, h, w).
        Inr (e, h, log, w)))
      else if req_method request = ''POST'' then
        bind_res (parseRequestBody (env_split env) (req_body request)) (\<lambda>(memeMap, log).
        let newMeme = (map_index memeMap ''posttype'' \<noteq> ''edit'') in
        bind_res (AddToDatabase env (mh_savedir h)
                    (map_index memeMap ''meme_id'') (map_index memeMap ''access_token'')
                    (map_index memeMap ''name'') (map_index memeMap ''image'')
                    (map_index memeMap ''top'') (map_index memeMap ''bottom'') newMeme w)
          (\<lambda>(redirect_id, w).
        bind_res (MemeResult env redirect_id h w) (\<lambda>(e, h, w). Inr (e, h, log, w))))
      else Inr (True, h, [], w))"

text \<open>The response behind the chain.\<close>

definition meme_response :: "bool \<Rightarrow> string \<Rightarrow> response \<times> string list" where
  "meme_response err body =
     (if \<not> err then
        let response = SetStatus OK new_Response;
            response = ReSetHeader ''Content-Type'' ''text/html'' response;
            response = SetHeader ''Content-Length'' (to_string (length body)) response;
            response = SetBody body response
        in (response, [])
      else
        let error_msg = ''404: File not found on uri_path. Please provide correct uri_path.'';
            response = SetStatus NOT_FOUND new_Response;
            response = ReSetHeader ''Content-Type'' ''text/plain'' response;
            response = SetHeader ''Content-Length'' (to_string (length error_msg)) response;
            response = SetBody error_msg response
        in (response, [''::HandlerMetrics:: handler:error'',
                       ''::ResponseMetrics:: response_code:404'']))"

definition MemeHandler_HandleRequest ::
  "'w env \<Rightarrow> meme_handler \<Rightarrow> request \<Rightarrow> 'w \<Rightarrow> (response \<times> string list \<times> 'w) res" where
  "MemeHandler_HandleRequest env h request w =
     (let full_url = req_uri_path request in
      bind_res (substr full_url (int (length (mh_uri h)) + 1) (int (length full_url))) (\<lambda>page.
      bind_res (meme_action env (h\<lparr>memepage := page\<rparr>) request w) (\<lambda>(err, h, log, w).
      let h = h\<lparr>errorflag := err\<rparr>;
          (response, lines) = meme_response (errorflag h) (memebody h)
      in Inr (response, log @ lines, w))))"

section \<open>The contract of a handler\<close>

lemma parseRequestBody_log:
  assumes "parseRequestBody split body = Inr (m, log)" and "line \<in> set log"
  shows "CHR '' '' \<notin> set line"
  using assms htmlEncode_no_special[of "CHR '' ''"]
  by (auto simp: parseRequestBody_def Let_def html_special_def split: if_splits)

lemma meme_action_log:
  assumes "meme_action env h q w = Inr (e, h', log, w')" and "line \<in> set log"
  shows "CHR '' '' \<notin> set line"
  using assms parseRequestBody_log[of "env_split env" "req_body q"]
  by (auto simp: meme_action_def verifyTokenAuthentication_def Let_def split: if_splits prod.splits)

lemma meme_response_eq:
  "meme_response e b =
     (if e then (build_response NOT_FOUND ''text/plain''
        ''404: File not found on uri_path. Please provide correct uri_path.'',
        [''::HandlerMetrics:: handler:error'', ''::ResponseMetrics:: response_code:404''])
      else (build_response OK ''text/html'' b, []))"
  by (simp add: meme_response_def build_response_def Let_def)

lemma response_metric_space: "CHR '' '' \<in> set (response_metric code)"
  by (simp add: response_metric_def)

lemma logs_status_more:
  assumes "logs_status r lines" and "\<And>line. line \<in> set log \<Longrightarrow> CHR '' '' \<notin> set line"
  shows "logs_status r (log @ lines)"
  using assms response_metric_space by (auto simp: logs_status_def)

lemma MemeHandler_InrD:
  assumes "MemeHandler_HandleRequest env h q w = Inr (r, log, w')"
  shows "\<exists>page e h' log' lines. substr (req_uri_path q) (int (length (mh_uri h)) + 1)
      (int (length (req_uri_path q))) = Inr page \<and>
    meme_action env (h\<lparr>memepage := page\<rparr>) q w = Inr (e, h', log', w') \<and>
    meme_response e (memebody h') = (r, lines) \<and> log = log' @ lines"
  using assms by (fastforce simp: MemeHandler_HandleRequest_def Let_def split_beta prod_eq_iff)

interpretation meme: handler_contract
  "\<lambda>(env, h, q, w) r log. \<exists>w'. MemeHandler_HandleRequest env h q w = Inr (r, log, w')"
proof (unfold_locales, goal_cases)
  case (1 i r log)
  obtain env h q w where "i = (env, h, q, w)" by (cases i)
  with 1 obtain w' where "MemeHandler_HandleRequest env h q w = Inr (r, log, w')" by auto
  then show ?case
    by (auto simp: meme_response_eq dest!: MemeHandler_InrD split: if_splits)
next
  case (2 i r log)
  obtain env h q w where "i = (env, h, q, w)" by (cases i)
  with 2 obtain w' where "MemeHandler_HandleRequest env h q w = Inr (r, log, w')" by auto
  then obtain h1 e h' log' lines where act: "meme_action env h1 q w = Inr (e, h', log', w')"
    and r: "meme_response e (memebody h') = (r, lines)" and log: "log = log' @ lines"
    by (blast dest: MemeHandler_InrD)
  have "logs_status r lines"
    using r by (auto simp: meme_response_eq code_strings logs_status_nil
      logs_status_two[where c = NOT_FOUND and code = "''404''", simplified] split: if_splits)
  then show ?case
    using meme_action_log[OF act] unfolding log by (rule logs_status_more)
qed

section \<open>The pages over the vault\<close>

text \<open>The texts of a meme as the pages read them.\<close>

definition meme_vals :: "meme \<Rightarrow> string \<times> string \<times> string \<times> string \<times> string" where
  "meme_vals m = (c_str (meme_name m), c_str (meme_img m), c_str (meme_top m), c_str (meme_bottom m),
     c_str (meme_token m))"

lemma view_columns_row [simp]: "view_columns (ROW (meme_row k m)) = Inr (meme_vals m)"
  by (simp add: view_columns_def meme_vals_def)

text \<open>The identifier a page of the form \<open>verb?id=k\<close> works on.\<close>

lemma page_id_of:
  assumes "memepage h = u @ ''id='' @ k" and "never_starts ''id='' u" and "u \<noteq> []"
  shows "page_id h = Inr k" and "str_find_int (memepage h) ''id='' = int (length u)"
proof -
  have "str_find (u @ ''id='' @ k) ''id='' = Some (length u)"
    using never_starts_drop[OF assms(2)] by (subst str_find_skip) auto
  then show i: "str_find_int (memepage h) ''id='' = int (length u)"
    by (simp add: str_find_int_def assms(1))
  have "drop (length u + 3) (u @ ''id='' @ k) = k" by simp
  moreover have "nat (int (length u) + 3) = length u + 3" by (simp add: nat_add_distrib)
  moreover have "length k \<le> nat (int (length (u @ ''id='' @ k)) - 1)"
    by (simp add: nat_add_distrib)
  ultimately show "page_id h = Inr k"
    using assms(3) i by (simp add: page_id_def substr_def assms(1) del: drop_append)
qed

context meme_vault
begin

lemma MemeView_vault:
  assumes "healthy w" and "contents w = Some v" and "mh_savedir h = savedir"
    and "page_id h = Inr k" and "str_find_int (memepage h) ''id='' \<noteq> -1"
  shows "\<exists>w'. MemeView env bad h w = Inr
    (case v k of None \<Rightarrow> (True, h, w')
     | Some m \<Rightarrow> (fst (view_page env bad k (meme_vals m) h), snd (view_page env bad k (meme_vals m) h), w')) \<and>
    healthy w' \<and> contents w' = contents w"
proof -
  obtain w1 where w1: "sql_open env (db_path savedir) w = (True, w1)" "healthy w1" "contents w1 = contents w"
    using open_ok[OF assms(1)] by blast
  moreover have "sql_prepare env sql_select_id w1"
    using prepare_ok[of w1 sql_select_id] w1 assms(2) by simp
  moreover obtain w2 where "sql_run env sql_select_id [k] w1 =
      (case v k of None \<Rightarrow> [] | Some m \<Rightarrow> [meme_row k m], True, w2)" "healthy w2" "contents w2 = contents w"
    using select_id_ok[of w1 v k] w1 assms(2) by auto
  ultimately show ?thesis
    using assms(3-5) close_ok[of w2] by (auto simp: MemeView_def split_beta split: option.splits)
qed

lemma MemeView_uncreated:
  assumes "healthy w" and "contents w = None" and "mh_savedir h = savedir"
    and "page_id h = Inr k" and "str_find_int (memepage h) ''id='' \<noteq> -1"
  shows "\<exists>w'. MemeView env bad h w = Inr (fst (view_page env bad k ('''', '''', '''', '''', '''') h),
      snd (view_page env bad k ('''', '''', '''', '''', '''') h), w') \<and> healthy w' \<and> contents w' = contents w"
proof -
  obtain w1 where w1: "sql_open env (db_path savedir) w = (True, w1)" "healthy w1" "contents w1 = contents w"
    using open_ok[OF assms(1)] by blast
  then have "\<not> sql_prepare env sql_select_id w1" using prepare_ok[of w1 sql_select_id] assms(2) by simp
  with w1 assms(3-5) close_ok[of w1] show ?thesis by (auto simp: MemeView_def split_beta)
qed

lemma MemeResult_vault:
  assumes "healthy w" and "mh_savedir h = savedir"
  shows "\<exists>e h' w'. MemeResult env k h w = Inr (e, h', w') \<and> healthy w' \<and> contents w' = contents w \<and>
    (\<forall>m. memes (contents w) k = Some m \<longrightarrow> (e, h') = result_page env k (meme_vals m) h)"
proof -
  obtain w1 where w1: "sql_open env (db_path savedir) w = (True, w1)" "healthy w1" "contents w1 = contents w"
    using open_ok[OF assms(1)] by blast
  show ?thesis
  proof (cases "contents w")
    case None
    then have "\<not> sql_prepare env sql_select_id w1" using prepare_ok[of w1 sql_select_id] w1 by simp
    with None w1 assms(2) close_ok[of w1] show ?thesis by (simp add: MemeResult_def split_beta)
  next
    case (Some v)
    then have "sql_prepare env sql_select_id w1" using prepare_ok[of w1 sql_select_id] w1 by simp
    moreover obtain w2 where "sql_run env sql_select_id [k] w1 =
        (case v k of None \<Rightarrow> [] | Some m \<Rightarrow> [meme_row k m], True, w2)" "healthy w2" "contents w2 = contents w"
      using select_id_ok[of w1 v k] w1 Some by auto
    ultimately show ?thesis
      using Some w1 assms(2) close_ok[of w2]
      by (cases "v k") (simp_all add: MemeResult_def split_beta meme_vals_def)
  qed
qed

lemma delete_row_vault:
  assumes "healthy w" and "n < 2 ^ 63"
  shows "\<exists>w'. delete_row env savedir (to_string n) w = Inr (True, w') \<and> healthy w' \<and>
    memes (contents w') = (memes (contents w))(to_string n := None)"
proof -
  obtain w1 where w1: "sql_open env (db_path savedir) w = (True, w1)" "healthy w1" "contents w1 = contents w"
    using open_ok[OF assms(1)] by blast
  obtain w2 where w2: "sql_exec env (sql_delete @ to_string n) w1 = (contents w1 \<noteq> None, [], w2)"
    "healthy w2" "contents w2 = map_option (\<lambda>v. v(to_string n := None)) (contents w)"
    using delete_ok[of w1 n] w1 assms(2) by auto
  have "CHR 0x00 \<notin> set (sql_delete @ to_string n)"
    using to_string_digits[of _ n] by (auto simp: sql_delete_def is_digit_def)
  then have "c_str (sql_delete @ to_string n) = sql_delete @ to_string n" by (rule c_str_id)
  with w1 w2 close_ok[of w2] show ?thesis
    by (cases "contents w") (simp_all add: delete_row_def)
qed

text \<open>The token test, over the table.\<close>

lemma verify_vault:
  assumes "healthy w" and "mh_savedir h = savedir"
    and "parseRequestBody (env_split env) (req_body q) = Inr (mm, log)"
    and "tok = map_index mm ''access-token''" and "env_split env (\<lambda>c. c \<in> set ''-'') tok \<noteq> []"
  shows "\<exists>w'. verifyTokenAuthentication env h q w = Inr
      (tok = ''partialnotcomplete'' \<or> CHR ''-'' \<in> set tok \<and>
         (\<exists>j m. memes (contents w) j = Some m \<and> c_str (meme_token m) = tok \<and>
            c_str j = env_split env (\<lambda>c. c \<in> set ''-'') tok ! 0), log, w') \<and>
    healthy w' \<and> contents w' = contents w"
proof -
  have hyphen: "str_find tok ''-'' \<noteq> None \<longleftrightarrow> CHR ''-'' \<in> set tok"
    by (simp add: str_find_None_iff sublist_def) (metis in_set_conv_decomp)
  obtain es w1 where all: "GetAllFromDatabase env savedir w = Inr (map (\<lambda>(k, m). meme_map k m) es, w1)"
    "set es = {(k, m). memes (contents w) k = Some m}" "healthy w1" "contents w1 = contents w"
    using GetAllFromDatabase_vault[OF assms(1)] by blast
  have keys: "map_index (meme_map k m) ''ACCESS_TOKEN'' = c_str (meme_token m)"
    "map_index (meme_map k m) ''MEME_ID'' = c_str k" for k m
    by (simp_all add: meme_map_def map_index_def)
  let ?at = "\<lambda>x. map_index x ''ACCESS_TOKEN'' = tok \<and>
     map_index x ''MEME_ID'' = env_split env (\<lambda>c. c \<in> set ''-'') tok ! 0"
  have found: "list_ex ?at (map (\<lambda>(k, m). meme_map k m) es) \<longleftrightarrow>
      (\<exists>j m. memes (contents w) j = Some m \<and> c_str (meme_token m) = tok \<and>
         c_str j = env_split env (\<lambda>c. c \<in> set ''-'') tok ! 0)"
    using all(2) by (fastforce simp: list_ex_iff keys)
  show ?thesis
  proof (cases "tok = ''partialnotcomplete''")
    case True
    then have "tok \<noteq> []" by simp
    with True assms show ?thesis by (simp add: verifyTokenAuthentication_def Let_def)
  next
    case False
    show ?thesis
    proof (cases "CHR ''-'' \<in> set tok")
      case True
      then have "tok \<noteq> []" by auto
      with True False hyphen all assms(2-5) found show ?thesis
        by (simp add: verifyTokenAuthentication_def Let_def)
    next
      case no: False
      with False hyphen assms(1,3,4) show ?thesis
        by (simp add: verifyTokenAuthentication_def Let_def)
    qed
  qed
qed

end

section \<open>Posting\<close>

text \<open>A page that none of the comparisons before the one of the method takes.\<close>

definition post_page :: "string \<Rightarrow> bool" where
  "post_page p \<longleftrightarrow> p \<noteq> ''create'' \<and> p \<noteq> ''list'' \<and> take 7 p \<noteq> ''list?q='' \<and> take 4 p \<noteq> ''view'' \<and>
     take 8 p \<noteq> ''edit?id='' \<and> take 10 p \<noteq> ''delete?id=''"

context meme_vault
begin

lemma post_action:
  assumes "post_page (memepage h)" and "req_method q = ''POST''" and "mh_savedir h = savedir"
    and "parseRequestBody (env_split env) (req_body q) = Inr (mm, log)"
    and "AddToDatabase env savedir (map_index mm ''meme_id'') (map_index mm ''access_token'')
      (map_index mm ''name'') (map_index mm ''image'') (map_index mm ''top'') (map_index mm ''bottom'')
      (map_index mm ''posttype'' \<noteq> ''edit'') w = Inr (k, w1)" and "healthy w1"
  shows "\<exists>e h' w'. meme_action env h q w = Inr (e, h', log, w') \<and> healthy w' \<and> contents w' = contents w1 \<and>
    (\<forall>m. memes (contents w1) k = Some m \<longrightarrow> (e, h') = result_page env k (meme_vals m) h)"
proof -
  obtain e h' w' where "MemeResult env k h w1 = Inr (e, h', w')" "healthy w'" "contents w' = contents w1"
    "\<forall>m. memes (contents w1) k = Some m \<longrightarrow> (e, h') = result_page env k (meme_vals m) h"
    using MemeResult_vault[OF assms(6,3)] by blast
  with assms show ?thesis by (simp add: meme_action_def post_page_def Let_def)
qed

end

text \<open>The fields of a meme form, and what is stored for them.\<close>

definition meme_form :: "(char \<Rightarrow> bool) \<Rightarrow> (string \<times> string) list \<Rightarrow> meme \<Rightarrow> bool" where
  "meme_form plain kvs m \<longleftrightarrow> form_ok plain kvs \<and> 3 \<le> length kvs \<and> distinct (map fst kvs) \<and>
     (\<forall>(k, v)\<in>set kvs. CHR ''+'' \<notin> set v \<and> \<not> sublist ''%2F'' v) \<and> map_of kvs ''deepfry'' = None \<and>
     (\<exists>n i t b. map_of kvs ''name'' = Some n \<and> map_of kvs ''image'' = Some i \<and>
        map_of kvs ''top'' = Some t \<and> map_of kvs ''bottom'' = Some b \<and>
        meme_name m = htmlEncode n \<and> meme_img m = ''meme_templates/'' @ i \<and>
        meme_top m = htmlEncode t \<and> meme_bottom m = htmlEncode b)"

lemma meme_form_parsed:
  assumes "boost_split split" and "meme_form plain kvs m"
    and "map_of kvs ''posttype'' = Some pt"
  shows "\<exists>mm log. parseRequestBody split (form_body plain kvs) = Inr (mm, log) \<and>
    map_index mm ''name'' = meme_name m \<and> map_index mm ''image'' = meme_img m \<and>
    map_index mm ''top'' = meme_top m \<and> map_index mm ''bottom'' = meme_bottom m \<and>
    map_index mm ''posttype'' = pt \<and>
    (\<forall>k. map_of kvs ''meme_id'' = Some k \<longrightarrow> map_index mm ''meme_id'' = k)"
proof -
  from assms(2) have f: "form_ok plain kvs" "3 \<le> length kvs" "distinct (map fst kvs)"
    "\<forall>(k, v)\<in>set kvs. CHR ''+'' \<notin> set v \<and> \<not> sublist ''%2F'' v"
    by (simp_all add: meme_form_def)
  with parsed_form[OF assms(1) f] assms(2,3) show ?thesis
    by (fastforce simp: meme_form_def)
qed

text \<open>A posted form with the texts of a meme stores them under a new identifier.\<close>

lemma post_new:
  assumes "meme_vault env savedir healthy contents" and "healthy w"
    and "boost_split (env_split env)" and "mh_savedir h = savedir"
    and "post_page (memepage h)" and "req_method q = ''POST''"
    and "meme_form plain kvs m" and "req_body q = form_body plain kvs"
    and "map_of kvs ''posttype'' = Some pt" and "pt \<noteq> ''edit''"
    and "new_identifier (memes (contents w)) = Inr k"
  shows "\<exists>e h' log w' s. meme_action env h q w = Inr (e, h', log, w') \<and>
    memes (contents w') = (memes (contents w))(k \<mapsto> \<lparr>meme_name = meme_name m, meme_img = meme_img m,
      meme_top = meme_top m, meme_bottom = meme_bottom m, meme_token = k @ ''-'' @ s\<rparr>)"
proof -
  obtain mm log where mm: "parseRequestBody (env_split env) (req_body q) = Inr (mm, log)"
    "map_index mm ''name'' = meme_name m" "map_index mm ''image'' = meme_img m"
    "map_index mm ''top'' = meme_top m" "map_index mm ''bottom'' = meme_bottom m"
    "map_index mm ''posttype'' = pt"
    using meme_form_parsed[OF assms(3,7,9)] assms(8) by auto
  obtain w0 w1 where "AddToDatabase env savedir (map_index mm ''meme_id'') (map_index mm ''access_token'')
      (meme_name m) (meme_img m) (meme_top m) (meme_bottom m) True w = Inr (k, w1)" "healthy w1"
    "memes (contents w1) = (memes (contents w))(k \<mapsto> \<lparr>meme_name = meme_name m, meme_img = meme_img m,
      meme_top = meme_top m, meme_bottom = meme_bottom m,
      meme_token = k @ ''-'' @ fst (gen_access_token env (length k) w0)\<rparr>)"
    using meme_vault.AddToDatabase_new[OF assms(1,2,11)] by blast
  with meme_vault.post_action[OF assms(1,5,6,4) mm(1), of w k w1] mm assms(10) show ?thesis
    by fastforce
qed

text \<open>A posted form of the edit type stores the texts under the identifier it names, known or not.\<close>

lemma post_edit:
  assumes "meme_vault env savedir healthy contents" and "healthy w"
    and "boost_split (env_split env)" and "mh_savedir h = savedir"
    and "post_page (memepage h)" and "req_method q = ''POST''"
    and "meme_form plain kvs m" and "req_body q = form_body plain kvs"
    and "map_of kvs ''posttype'' = Some ''edit''" and "map_of kvs ''meme_id'' = Some k"
  shows "\<exists>e h' log w'. meme_action env h q w = Inr (e, h', log, w') \<and> healthy w' \<and>
    memes (contents w') = (memes (contents w))(k \<mapsto> \<lparr>meme_name = meme_name m, meme_img = meme_img m,
      meme_top = meme_top m, meme_bottom = meme_bottom m, meme_token = (case memes (contents w) k of
        None \<Rightarrow> ''00001'' | Some old \<Rightarrow> c_str (meme_token old))\<rparr>) \<and>
    (\<forall>m'. memes (contents w') k = Some m' \<longrightarrow> (e, h') = result_page env k (meme_vals m') h)"
proof -
  obtain mm log where mm: "parseRequestBody (env_split env) (req_body q) = Inr (mm, log)"
    "map_index mm ''name'' = meme_name m" "map_index mm ''image'' = meme_img m"
    "map_index mm ''top'' = meme_top m" "map_index mm ''bottom'' = meme_bottom m"
    "map_index mm ''posttype'' = ''edit''" "map_index mm ''meme_id'' = k"
    using meme_form_parsed[OF assms(3,7,9)] assms(8,10) by auto
  obtain w1 where w1: "AddToDatabase env savedir k (map_index mm ''access_token'')
      (meme_name m) (meme_img m) (meme_top m) (meme_bottom m) False w = Inr (k, w1)" "healthy w1"
    "memes (contents w1) = (memes (contents w))(k \<mapsto> \<lparr>meme_name = meme_name m, meme_img = meme_img m,
      meme_top = meme_top m, meme_bottom = meme_bottom m, meme_token = (case memes (contents w) k of
        None \<Rightarrow> ''00001'' | Some old \<Rightarrow> c_str (meme_token old))\<rparr>)"
    using meme_vault.AddToDatabase_edit[OF assms(1,2), of k] by blast
  obtain e h' w' where "meme_action env h q w = Inr (e, h', log, w')" "healthy w'" "contents w' = contents w1"
    "\<forall>m'. memes (contents w1) k = Some m' \<longrightarrow> (e, h') = result_page env k (meme_vals m') h"
    using meme_vault.post_action[OF assms(1,5,6,4) mm(1), of w k w1] w1(1,2) mm by auto
  with w1(3) show ?thesis by (intro exI[of _ e] exI[of _ h'] exI[of _ log] exI[of _ w'] conjI) simp_all
qed

text \<open>Where there is no new identifier, a posted form of another type ends in this fault.\<close>

lemma post_refused:
  assumes "meme_vault env savedir healthy contents" and "healthy w"
    and "boost_split (env_split env)" and "mh_savedir h = savedir"
    and "post_page (memepage h)" and "req_method q = ''POST''"
    and "meme_form plain kvs m" and "req_body q = form_body plain kvs"
    and "map_of kvs ''posttype'' = Some pt" and "pt \<noteq> ''edit''"
    and "new_identifier (memes (contents w)) = Inl f"
  shows "meme_action env h q w = Inl f"
proof -
  obtain mm log where mm: "parseRequestBody (env_split env) (req_body q) = Inr (mm, log)"
    "map_index mm ''posttype'' = pt"
    using meme_form_parsed[OF assms(3,7,9)] assms(8) by auto
  with assms(4-6,10) meme_vault.AddToDatabase_refused[OF assms(1,2,11)] show ?thesis
    by (simp add: meme_action_def post_page_def Let_def)
qed

section \<open>The page of a meme\<close>

text \<open>What a page about a meme shows in the place of each mark.\<close>

definition shown :: "string \<Rightarrow> meme \<Rightarrow> mark \<Rightarrow> string" where
  "shown k m x = (case x of Id_mark \<Rightarrow> k | Name_mark \<Rightarrow> c_str (meme_name m) | Image_mark \<Rightarrow> c_str (meme_img m)
     | Top_mark \<Rightarrow> c_str (meme_top m) | Bottom_mark \<Rightarrow> c_str (meme_bottom m) | Token_mark \<Rightarrow> c_str (meme_token m))"

definition blank_meme :: meme where
  "blank_meme = \<lparr>meme_name = [], meme_img = [], meme_top = [], meme_bottom = [], meme_token = []\<rparr>"

lemma meme_vals_blank: "meme_vals blank_meme = ('''', '''', '''', '''', '''')"
  by (simp add: meme_vals_def blank_meme_def c_str_def)

lemma fill_page_shown:
  assumes "boost_replace (env_replace_all env)" and "template_ok tp rest" and "no_marks (shown k m)"
  shows "fill_page env k (meme_vals m) (page_with mark_text tp rest) = page_with (shown k m) tp rest"
proof -
  define f where "f ys = (\<lambda>y. if y \<in> set ys then shown k m y else mark_text y)" for ys
  have next_mark: "x \<notin> set ys \<Longrightarrow>
      env_replace_all env (page_with (f ys) tp rest) (mark_text x) (shown k m x) = page_with (f (x # ys)) tp rest" for x ys
    unfolding f_def using assms by (rule boost_replace.replace_next_mark)
  have "fill_page env k (meme_vals m) (page_with (f []) tp rest) =
      page_with (f [Token_mark, Bottom_mark, Top_mark, Image_mark, Name_mark, Id_mark]) tp rest"
    using next_mark[of Id_mark "[]"] next_mark[of Name_mark "[Id_mark]"]
      next_mark[of Image_mark "[Name_mark, Id_mark]"] next_mark[of Top_mark "[Image_mark, Name_mark, Id_mark]"]
      next_mark[of Bottom_mark "[Top_mark, Image_mark, Name_mark, Id_mark]"]
      next_mark[of Token_mark "[Bottom_mark, Top_mark, Image_mark, Name_mark, Id_mark]"]
    by (simp add: fill_page_def meme_vals_def shown_def)
  moreover have "f [] = mark_text" by (simp add: f_def)
  moreover have "f [Token_mark, Bottom_mark, Top_mark, Image_mark, Name_mark, Id_mark] y = shown k m y" for y
    by (cases y) (simp_all add: f_def)
  then have "f [Token_mark, Bottom_mark, Top_mark, Image_mark, Name_mark, Id_mark] = shown k m" by (rule ext)
  ultimately show ?thesis by simp
qed

section \<open>Properties\<close>

text \<open>C35: A view of an identifier that is not stored is the 404 page, and a view of a stored one is the page
  template with the identifier and the texts of the meme, each in the place of its own mark; before
  the table is created, a view of any identifier is the template with empty texts, and no error. The
  table is not changed.\<close>

theorem view_shows_stored_meme:
  assumes "meme_vault env savedir healthy contents" and "healthy w" and "boost_replace (env_replace_all env)"
    and "mh_savedir h = savedir" and "memepage h = ''view?'' @ ''id='' @ k" and "memebody h = []"
    and "env_file env ''memes_r_us/view.html'' = Some (page_with mark_text tp rest)"
    and "template_ok tp (rest @ ''</div></body></html>'')"
    and "case contents w of None \<Rightarrow> no_marks (shown k blank_meme)
      | Some v \<Rightarrow> (case v k of None \<Rightarrow> True | Some m \<Rightarrow> no_marks (shown k m))"
  shows "\<exists>w'. contents w' = contents w \<and> meme_action env h q w = Inr
      (let page = (\<lambda>m. h\<lparr>memebody := page_with (shown k m) tp (rest @ ''</div></body></html>'')\<rparr>) in
       case contents w of None \<Rightarrow> (False, page blank_meme, [], w')
       | Some v \<Rightarrow> (case v k of None \<Rightarrow> (True, h, [], w') | Some m \<Rightarrow> (False, page m, [], w')))"
proof -
  have id: "page_id h = Inr k" "str_find_int (memepage h) ''id='' \<noteq> -1"
    using page_id_of[OF assms(5)] by simp_all
  have view: "view_page env False k (meme_vals m) h = (False, h\<lparr>memebody := page_with (shown k m) tp (rest @ ''</div></body></html>'')\<rparr>)"
    if "no_marks (shown k m)" for m
    using assms(5-7) fill_page_shown[OF assms(3,8) that]
    by (simp add: view_page_def append_template_def page_with_append)
  show ?thesis
  proof (cases "contents w")
    case None
    with meme_vault.MemeView_uncreated[OF assms(1,2) None assms(4) id, of False] view[of blank_meme] assms(5,9)
    show ?thesis by (auto simp: meme_action_def meme_vals_blank Let_def)
  next
    case (Some v)
    with meme_vault.MemeView_vault[OF assms(1,2) Some assms(4) id, of False] view assms(5,9) show ?thesis
      by (cases "v k") (auto simp: meme_action_def Let_def)
  qed
qed

definition view_file :: file_system where
  "view_file path = (if path = ''memes_r_us/view.html'' then Some ''meme_object_top'' else None)"

definition view_handler :: meme_handler where
  "view_handler = \<lparr>mh_root = [], mh_uri = ''/meme'', mh_filedir = [], mh_savedir = ''/data'',
     memepage = ''view?id=10000'', memebody = [], errorflag = False\<rparr>"

definition meme_template :: "(string \<times> mark) list" where
  "meme_template = [(''<p> '', Name_mark), (''</p><img src=/'', Image_mark), (''><b>'', Top_mark),
     (''</b><b>'', Bottom_mark), (''</b><a href=/meme/edit?id='', Id_mark)]"

definition meme_page_file :: file_system where
  "meme_page_file path = (if path = ''memes_r_us/view.html'' then Some (page_with mark_text meme_template ''> edit </a>'')
     else None)"

theorem view_shows_stored_meme_witness:
  "\<exists>h' w'. meme_action (ref_env meme_page_file) view_handler (new_Request []) one_meme = Inr (False, h', [], w') \<and>
     memebody h' = ''<p> n</p><img src=/i><b>t</b><b>b</b><a href=/meme/edit?id=10000> edit </a></div></body></html>''"
proof -
  let ?m = "\<lparr>meme_name = ''n'', meme_img = ''i'', meme_top = ''t'', meme_bottom = ''b'', meme_token = ''10000-aB3''\<rparr>"
  have env: "env_file (ref_env meme_page_file) ''memes_r_us/view.html'' = Some (page_with mark_text meme_template ''> edit </a>'')"
    "boost_replace (env_replace_all (ref_env meme_page_file))"
    using leftmost.boost_replace_axioms by (simp_all add: ref_env_def meme_page_file_def)
  have h: "mh_savedir view_handler = ''/data''" "memepage view_handler = ''view?'' @ ''id='' @ ''10000''"
    "memebody view_handler = []" by (simp_all add: view_handler_def)
  obtain v where one: "ref_contents one_meme = Some v" "v ''10000'' = Some ?m"
    by (simp add: one_meme_def ref_contents_def)
  have ok: "template_ok meme_template (''> edit </a>'' @ ''</div></body></html>'')"
    by (simp add: template_ok_def all_marks_def page_apart_def meme_template_def stands_apart_def flip: str_find_None_iff)
  have "no_marks (shown ''10000'' ?m)"
    by (simp add: no_marks_def all_marks_def shown_def c_str_def flip: str_find_None_iff)
  then have marks: "case ref_contents one_meme of None \<Rightarrow> no_marks (shown ''10000'' blank_meme)
      | Some v \<Rightarrow> (case v ''10000'' of None \<Rightarrow> True | Some m \<Rightarrow> no_marks (shown ''10000'' m))"
    by (simp only: one option.case)
  obtain w' where "meme_action (ref_env meme_page_file) view_handler (new_Request []) one_meme = Inr (False,
      view_handler\<lparr>memebody := page_with (shown ''10000'' ?m) meme_template (''> edit </a>'' @ ''</div></body></html>'')\<rparr>, [], w')"
    using view_shows_stored_meme[OF ref_vault.meme_vault_axioms one_meme_healthy env(2) h env(1) ok marks, of "new_Request []"]
    by (simp only: one option.case Let_def) blast
  then show ?thesis by (simp add: meme_template_def shown_def c_str_def)
qed

text \<open>C36: The token test takes the master token, and a token with a hyphen that is the token of a stored meme
  whose identifier is what stands before the hyphen; it takes no other (such as the token
  00001 of a meme an edit created). Which meme the request is about does not matter: the token of one
  meme opens every other.\<close>

theorem token_of_any_meme:
  assumes "meme_vault env savedir healthy contents" and "healthy w"
    and "boost_split (env_split env)" and "mh_savedir h = savedir"
    and "parseRequestBody (env_split env) (req_body q) = Inr (mm, log)"
    and "tok = map_index mm ''access-token''"
  shows "\<exists>w'. verifyTokenAuthentication env (h\<lparr>memepage := p\<rparr>) q w = Inr
      (tok = ''partialnotcomplete'' \<or> CHR ''-'' \<in> set tok \<and>
         (\<exists>j m. memes (contents w) j = Some m \<and> c_str (meme_token m) = tok \<and>
            c_str j = takeWhile (\<lambda>c. c \<noteq> CHR ''-'') tok), log, w') \<and>
    contents w' = contents w"
  using meme_vault.verify_vault[OF assms(1,2) _ assms(5,6), of "h\<lparr>memepage := p\<rparr>"] assms(4)
    boost_split.split_first[OF assms(3), of "\<lambda>c. c \<in> set ''-''" tok]
    boost_split.split_nonempty[OF assms(3), of "\<lambda>c. c \<in> set ''-''" tok]
  by auto

theorem token_of_any_meme_witness:
  "\<exists>log w'. verifyTokenAuthentication (ref_env view_file) (view_handler\<lparr>memepage := ''delete?id=77777''\<rparr>)
     ((new_Request [])\<lparr>req_body := ''access-token=10000-aB3''\<rparr>) one_meme = Inr (True, log, w')"
proof -
  let ?q = "(new_Request [])\<lparr>req_body := ''access-token=10000-aB3''\<rparr>"
  have s: "env_split (ref_env view_file) = split_compress" by (simp add: ref_env_def)
  have "parseRequestBody split_compress ''access-token=10000-aB3'' = Inr ([(''access-token'', ''10000-aB3'')], [])"
    by code_simp
  then have p: "parseRequestBody (env_split (ref_env view_file)) (req_body ?q) = Inr ([(''access-token'', ''10000-aB3'')], [])"
    by (simp add: s)
  have "c_str ''10000-aB3'' = ''10000-aB3''" "c_str ''10000'' = ''10000''" by code_simp+
  then show ?thesis
    using token_of_any_meme[OF ref_vault.meme_vault_axioms[of view_file "''/data''"] one_meme_healthy _ _ p refl, of view_handler
      "''delete?id=77777''"] compress.boost_split_axioms
    by (auto simp: s view_handler_def one_meme_contents map_index_def)
qed

text \<open>C37: A posted form of the edit type changes the meme it names, whether or not the request carries the
  token of this meme: editing is not protected.\<close>

theorem post_edits_without_token:
  assumes "meme_vault env savedir healthy contents" and "healthy w"
    and "boost_split (env_split env)" and "mh_savedir h = savedir"
    and "post_page (memepage h)" and "req_method q = ''POST''"
    and "meme_form plain kvs m" and "req_body q = form_body plain kvs"
    and "map_of kvs ''posttype'' = Some ''edit''" and "map_of kvs ''meme_id'' = Some k"
    and "memes (contents w) k = Some old"
  shows "\<exists>e h' log w'. meme_action env h q w = Inr (e, h', log, w') \<and>
    memes (contents w') = (memes (contents w))(k \<mapsto> \<lparr>meme_name = meme_name m, meme_img = meme_img m,
      meme_top = meme_top m, meme_bottom = meme_bottom m, meme_token = c_str (meme_token old)\<rparr>)"
  using post_edit[OF assms(1-10)] assms(11) by fastforce

definition edit_form :: "(string \<times> string) list" where
  "edit_form = [(''posttype'', ''edit''), (''meme_id'', ''10000''), (''name'', ''x''), (''image'', ''i''),
     (''top'', ''<b>''), (''bottom'', ''z'')]"

definition edited :: meme where
  "edited = \<lparr>meme_name = ''x'', meme_img = ''meme_templates/i'', meme_top = ''&lt;b&gt;'',
     meme_bottom = ''z'', meme_token = []\<rparr>"

lemma edit_meme_form: "meme_form (\<lambda>c. False) edit_form edited"
  by (simp add: meme_form_def edit_form_def edited_def form_ok_def html_char_def sublist_Cons_right)

theorem post_edits_without_token_witness:
  "\<exists>e h' log w'. meme_action (ref_env view_file) (view_handler\<lparr>memepage := ''new''\<rparr>)
     ((new_Request [])\<lparr>req_method := ''POST'', req_body := form_body (\<lambda>c. False) edit_form\<rparr>) one_meme =
       Inr (e, h', log, w') \<and>
     memes (ref_contents w') ''10000'' = Some \<lparr>meme_name = ''x'', meme_img = ''meme_templates/i'',
       meme_top = ''&lt;b&gt;'', meme_bottom = ''z'', meme_token = ''10000-aB3''\<rparr>"
proof -
  have "boost_split (env_split (ref_env view_file))"
    using compress.boost_split_axioms by (simp add: ref_env_def)
  moreover have "map_of edit_form ''posttype'' = Some ''edit''" "map_of edit_form ''meme_id'' = Some ''10000''"
    by (simp_all add: edit_form_def)
  moreover have "post_page ''new''" "c_str ''10000-aB3'' = ''10000-aB3''" by code_simp+
  ultimately show ?thesis
    using post_edits_without_token[OF ref_vault.meme_vault_axioms[of view_file "''/data''"] one_meme_healthy _ _ _ _ edit_meme_form,
      where h = "view_handler\<lparr>memepage := ''new''\<rparr>"
      and k = "''10000''" and q = "(new_Request [])\<lparr>req_method := ''POST'', req_body := form_body (\<lambda>c. False) edit_form\<rparr>"]
    by (fastforce simp: view_handler_def one_meme_contents edited_def)
qed

definition new_form :: "(string \<times> string) list" where
  "new_form = [(''posttype'', ''new''), (''name'', ''x''), (''image'', ''i''), (''top'', ''<b>''), (''bottom'', ''z'')]"

lemma new_meme_form: "meme_form (\<lambda>c. False) new_form edited"
  by (simp add: meme_form_def new_form_def edited_def form_ok_def html_char_def sublist_Cons_right)

text \<open>C38: Deleting the meme of a numeral below 2^63 removes exactly its row, if there is one; the handler then runs
  off its end when the page that confirms it exists, and reports an error when it does not.\<close>

theorem delete_removes_row_and_crashes:
  assumes "meme_vault env savedir healthy contents" and "healthy w"
    and "mh_savedir h = savedir" and "memepage h = ''delete?'' @ ''id='' @ to_string n" and "n < 2 ^ 63"
  shows "\<exists>w1 w2. GetMemeFromDatabase env savedir (to_string n) w = Inr
      (case memes (contents w) (to_string n) of None \<Rightarrow> [] | Some m \<Rightarrow> meme_map (to_string n) m, w1) \<and>
    delete_row env savedir (to_string n) w1 = Inr (True, w2) \<and>
    memes (contents w2) = (memes (contents w))(to_string n := None) \<and>
    MemeDelete env h w = (case env_file env ''memes_r_us/delete.html'' of
      None \<Rightarrow> Inr (True, h, w2) | Some page \<Rightarrow> Inl Undefined)"
proof -
  obtain w1 where w1: "GetMemeFromDatabase env savedir (to_string n) w = Inr
      (case memes (contents w) (to_string n) of None \<Rightarrow> [] | Some m \<Rightarrow> meme_map (to_string n) m, w1)"
    "healthy w1" "contents w1 = contents w"
    using meme_vault.GetMemeFromDatabase_vault[OF assms(1,2)] by blast
  obtain w2 where w2: "delete_row env savedir (to_string n) w1 = Inr (True, w2)"
    "memes (contents w2) = (memes (contents w))(to_string n := None)"
    using meme_vault.delete_row_vault[OF assms(1) w1(2) assms(5)] w1(3) by auto
  have "page_id h = Inr (to_string n)" using page_id_of(1)[OF assms(4)] by simp
  with w1 w2 assms(3,4) show ?thesis
    by (auto simp: MemeDelete_def append_template_def split: option.splits)
qed

theorem delete_removes_row_and_crashes_witness:
  "\<exists>w1 w2. delete_row (ref_env view_file) ''/data'' (to_string 10000) w1 = Inr (True, w2) \<and>
    memes (ref_contents w2) = Map.empty \<and>
    MemeDelete (ref_env view_file) (view_handler\<lparr>memepage := ''delete?id='' @ to_string 10000\<rparr>) one_meme =
      Inr (True, view_handler\<lparr>memepage := ''delete?id='' @ to_string 10000\<rparr>, w2)"
proof -
  have "env_file (ref_env view_file) ''memes_r_us/delete.html'' = None"
    by (simp add: ref_env_def view_file_def)
  then show ?thesis
    using delete_removes_row_and_crashes[OF ref_vault.meme_vault_axioms[of view_file "''/data''"] one_meme_healthy,
      where n = 10000
      and h = "view_handler\<lparr>memepage := ''delete?id='' @ to_string 10000\<rparr>"]
    by (fastforce simp: view_handler_def one_meme_contents small_ids)
qed

end
