(* ===== verification/Cpp_Stream.thy ===== *)
theory Cpp_Stream
  imports Cpp_Prelude "HOL-Library.Word"
begin

text \<open>
  The operations of \<^verbatim>\<open>std::istream\<close> the proxy uses: the bytes still in the buffer, and the two
  state bits. An extraction from a stream that is not good only sets \<^verbatim>\<open>failbit\<close>.
\<close>

record istream =
  is_buf :: string
  is_eof :: bool
  is_fail :: bool

definition new_stream :: "string \<Rightarrow> istream" where
  "new_stream s = \<lparr>is_buf = s, is_eof = False, is_fail = False\<rparr>"

definition good :: "istream \<Rightarrow> bool" where
  "good st \<longleftrightarrow> \<not> is_eof st \<and> \<not> is_fail st"

text \<open>\<^verbatim>\<open>std::getline(st, str)\<close>\<close>

definition getline :: "string \<Rightarrow> istream \<Rightarrow> string \<times> istream" where
  "getline str st =
     (if \<not> good st then (str, st\<lparr>is_fail := True\<rparr>)
      else
        let line = takeWhile (\<lambda>c. c \<noteq> CHR 0x0A) (is_buf st);
            rest = dropWhile (\<lambda>c. c \<noteq> CHR 0x0A) (is_buf st) in
        if rest = [] then (line, \<lparr>is_buf = [], is_eof = True, is_fail = (line = [])\<rparr>)
        else (line, st\<lparr>is_buf := tl rest\<rparr>))"

text \<open>\<^verbatim>\<open>st >> str\<close> for a string.\<close>

definition read_word :: "string \<Rightarrow> istream \<Rightarrow> string \<times> istream" where
  "read_word str st =
     (if \<not> good st then (str, st\<lparr>is_fail := True\<rparr>)
      else
        let s = dropWhile is_space (is_buf st) in
        if s = [] then (str, \<lparr>is_buf = [], is_eof = True, is_fail = True\<rparr>)
        else
          let rest = dropWhile (\<lambda>c. \<not> is_space c) s in
          (takeWhile (\<lambda>c. \<not> is_space c) s, st\<lparr>is_buf := rest, is_eof := (rest = [])\<rparr>))"

text \<open>
  \<^verbatim>\<open>st >> n\<close> for an \<^verbatim>\<open>unsigned int\<close>: a minus sign gives the value modulo \<open>2 ^ 32\<close>; a number
  that does not fit, or no digit, sets \<^verbatim>\<open>failbit\<close>.
\<close>

definition read_unsigned :: "istream \<Rightarrow> 32 word \<times> istream" where
  "read_unsigned st =
     (if \<not> good st then (0, st\<lparr>is_fail := True\<rparr>)
      else
        let s = dropWhile is_space (is_buf st) in
        if s = [] then (0, \<lparr>is_buf = [], is_eof = True, is_fail = True\<rparr>)
        else
          let (neg, s) = (if hd s = CHR ''-'' then (True, tl s)
                          else if hd s = CHR ''+'' then (False, tl s) else (False, s));
              ds = takeWhile is_digit s;
              rest = dropWhile is_digit s;
              st = st\<lparr>is_buf := rest, is_eof := (rest = [])\<rparr> in
          if ds = [] then (0, st\<lparr>is_fail := True\<rparr>)
          else if 2 ^ 32 \<le> dec_val ds then (- 1, st\<lparr>is_fail := True\<rparr>)
          else (if neg then - of_nat (dec_val ds) else of_nat (dec_val ds), st))"

lemma getline_shorter:
  assumes "getline str st = (line, st')" and "\<not> is_fail st'"
  shows "length (is_buf st') < length (is_buf st)"
proof -
  let ?P = "\<lambda>c. c \<noteq> CHR 0x0A"
  have st': "st' = snd (getline str st)" and good: "good st"
    using assms by (auto simp: getline_def split: if_splits)
  show ?thesis
  proof (cases "dropWhile ?P (is_buf st)")
    case Nil
    then have "takeWhile ?P (is_buf st) \<noteq> []"
      using assms(2) good unfolding st' getline_def Let_def by simp
    then have "is_buf st \<noteq> []" by auto
    with Nil good show ?thesis unfolding st' getline_def Let_def by simp
  next
    case (Cons c r)
    moreover have "length (dropWhile ?P (is_buf st)) \<le> length (is_buf st)"
      by (rule length_dropWhile_le)
    ultimately show ?thesis using good unfolding st' getline_def Let_def by simp
  qed
qed

lemma dropWhile_all: "(\<And>c. c \<in> set l \<Longrightarrow> P c) \<Longrightarrow> dropWhile P (l @ r) = dropWhile P r"
  by (induction l) auto

lemma takeWhile_all: "(\<And>c. c \<in> set l \<Longrightarrow> P c) \<Longrightarrow> takeWhile P (l @ r) = l @ takeWhile P r"
  by (induction l) auto

lemma getline_line:
  assumes "CHR 0x0A \<notin> set l"
  shows "getline str (new_stream (l @ CHR 0x0A # r)) = (l, new_stream r)"
proof -
  have "takeWhile (\<lambda>c. c \<noteq> CHR 0x0A) (l @ CHR 0x0A # r) = l"
    using assms by (subst takeWhile_all) auto
  moreover have "dropWhile (\<lambda>c. c \<noteq> CHR 0x0A) (l @ CHR 0x0A # r) = CHR 0x0A # r"
    using assms by (subst dropWhile_all) auto
  ultimately show ?thesis by (simp add: getline_def new_stream_def good_def Let_def)
qed

lemma read_word_word:
  assumes "w \<noteq> []" and "\<forall>c\<in>set w. \<not> is_space c" and "is_space c"
  shows "read_word str (new_stream (w @ c # r)) = (w, new_stream (c # r))"
proof -
  have "dropWhile is_space (w @ c # r) = w @ c # r"
    using assms by (cases w) auto
  moreover have "takeWhile (\<lambda>c. \<not> is_space c) (w @ c # r) = w"
    "dropWhile (\<lambda>c. \<not> is_space c) (w @ c # r) = c # r"
    using assms by (simp_all add: takeWhile_all dropWhile_all)
  ultimately show ?thesis
    using assms by (simp add: read_word_def new_stream_def good_def Let_def)
qed

lemma read_unsigned_number:
  assumes "n < 2 ^ 32" and "c # r = [] \<or> \<not> is_digit c"
  shows "read_unsigned (new_stream (CHR '' '' # to_string n @ c # r)) = (of_nat n, new_stream (c # r))"
proof -
  obtain d ds where d: "to_string n = d # ds" by (cases "to_string n") auto
  have "is_digit d" using to_string_digits[of d n] d by simp
  then have nd: "\<not> is_space d" "d \<noteq> CHR ''-''" "d \<noteq> CHR ''+''"
    by (auto simp: is_digit_not_space) (auto simp: is_digit_def)
  have "dropWhile is_space (CHR '' '' # to_string n @ c # r) = to_string n @ c # r"
    using nd by (simp add: d is_space_def)
  moreover have "takeWhile is_digit (to_string n @ c # r) = to_string n"
    "dropWhile is_digit (to_string n @ c # r) = c # r"
    using assms(2) to_string_digits[of _ n] by (simp_all add: takeWhile_all dropWhile_all)
  moreover have "hd (to_string n @ c # r) = d" by (simp add: d)
  ultimately show ?thesis
    using assms nd by (simp add: read_unsigned_def new_stream_def good_def Let_def)
qed

end
