(* ===== verification/Html_Filter.thy ===== *)
theory Html_Filter
  imports Cpp_Prelude
begin

text \<open>
  \<^verbatim>\<open>ProxyHandler::HTMLFilter\<close> of \<^verbatim>\<open>src/proxy_handler.cc\<close>: the regular expression
  \<^verbatim>\<open>\b([a-zA-Z]*=")(/.*)(")\<close> in the ECMAScript grammar, and \<^verbatim>\<open>std::regex_replace\<close>, which
  replaces every match from the left. The matcher is written out for this one expression.
  The star over letters takes all of them, because none of them is an equals sign; the star
  over any byte but a line end takes as much as leaves a quote.
\<close>

definition is_alpha :: "char \<Rightarrow> bool" where
  "is_alpha c \<longleftrightarrow> (65 \<le> (of_char c :: nat) \<and> of_char c \<le> (90 :: nat)) \<or>
                 (97 \<le> (of_char c :: nat) \<and> of_char c \<le> (122 :: nat))"

definition is_wordchar :: "char \<Rightarrow> bool" where
  "is_wordchar c \<longleftrightarrow> is_alpha c \<or> is_digit c \<or> c = CHR ''_''"

text \<open>\<^verbatim>\<open>\b\<close> between the byte before the position (if any) and the text from it.\<close>

definition boundary :: "char option \<Rightarrow> string \<Rightarrow> bool" where
  "boundary prev s \<longleftrightarrow>
     (case prev of None \<Rightarrow> False | Some c \<Rightarrow> is_wordchar c) \<noteq> (case s of [] \<Rightarrow> False | c # _ \<Rightarrow> is_wordchar c)"

text \<open>\<^verbatim>\<open>(/.*)(")\<close>: the text before the last quote of the line, and what follows the quote.\<close>

fun split_last_quote :: "string \<Rightarrow> (string \<times> string) option" where
  "split_last_quote [] = None"
| "split_last_quote (c # s) =
     (if c = CHR 0x0A \<or> c = CHR 0x0D then None
      else case split_last_quote s of
        Some (a, b) \<Rightarrow> Some (c # a, b)
      | None \<Rightarrow> if c = CHR 0x22 then Some ([], s) else None)"

text \<open>The groups 1 and 2 of a match at a position (group 3 is a quote), and the text behind it.\<close>

definition match_at :: "char option \<Rightarrow> string \<Rightarrow> (string \<times> string \<times> string) option" where
  "match_at prev s =
     (let letters = takeWhile is_alpha s; rest = dropWhile is_alpha s in
      if boundary prev s \<and> prefix (''='' @ [CHR 0x22] @ ''/'') rest then
        (case split_last_quote (drop 3 rest) of
           None \<Rightarrow> None
         | Some (a, b) \<Rightarrow> Some (letters @ ''='' @ [CHR 0x22], CHR ''/'' # a, b))
      else None)"

text \<open>
  The format string of a replacement: \<^verbatim>\<open>$\<close> with one or two digits is a group (empty when there
  is none), \<^verbatim>\<open>$&\<close> the match, \<^verbatim>\<open>$`\<close> and \<^verbatim>\<open>$'\<close> the text before and behind it, \<^verbatim>\<open>$$\<close> a dollar.
\<close>

fun expand_format :: "(nat \<Rightarrow> string) \<Rightarrow> string \<Rightarrow> string \<Rightarrow> string \<Rightarrow> string" where
  "expand_format groups pre suf [] = []"
| "expand_format groups pre suf (c # s) =
     (if c \<noteq> CHR ''$'' then c # expand_format groups pre suf s
      else case s of
        [] \<Rightarrow> [c]
      | d # t \<Rightarrow>
          if d = CHR ''$'' then CHR ''$'' # expand_format groups pre suf t
          else if d = CHR ''&'' then groups 0 @ expand_format groups pre suf t
          else if d = CHR ''`'' then pre @ expand_format groups pre suf t
          else if d = CHR 0x27 then suf @ expand_format groups pre suf t
          else if is_digit d then
            (case t of
               e # u \<Rightarrow> if is_digit e
                 then groups (10 * digit_val d + digit_val e) @ expand_format groups pre suf u
                 else groups (digit_val d) @ expand_format groups pre suf t
             | [] \<Rightarrow> groups (digit_val d))
          else c # expand_format groups pre suf s)"

definition match_groups :: "string \<Rightarrow> string \<Rightarrow> nat \<Rightarrow> string" where
  "match_groups g1 g2 i =
     (if i = 0 then g1 @ g2 @ [CHR 0x22] else if i = 1 then g1 else if i = 2 then g2
      else if i = 3 then [CHR 0x22] else [])"

lemma split_last_quote_length: "split_last_quote s = Some (a, b) \<Longrightarrow> length b < length s"
  by (induction s arbitrary: a) (auto split: if_splits option.splits prod.splits)

lemma match_at_length: "match_at prev s = Some (g1, g2, rest) \<Longrightarrow> length rest < length s"
proof -
  assume m: "match_at prev s = Some (g1, g2, rest)"
  have "length (dropWhile is_alpha s) \<le> length s" by (rule length_dropWhile_le)
  with m show ?thesis
    by (auto simp: match_at_def Let_def dest!: split_last_quote_length split: if_splits option.splits)
qed

text \<open>
  The loop of \<^verbatim>\<open>regex_replace\<close> over the positions; \<open>pre\<close> is the text since the last match,
  which is copied.
\<close>

function replace_matches :: "string \<Rightarrow> char option \<Rightarrow> string \<Rightarrow> string \<Rightarrow> string" where
  "replace_matches fmt prev pre s =
     (case match_at prev s of
        Some (g1, g2, rest) \<Rightarrow>
          pre @ expand_format (match_groups g1 g2) pre rest fmt @ replace_matches fmt (Some (CHR 0x22)) [] rest
      | None \<Rightarrow> (case s of [] \<Rightarrow> pre | c # t \<Rightarrow> replace_matches fmt (Some c) (pre @ [c]) t))"
  by pat_completeness auto
termination
  by (relation "measure (\<lambda>(fmt, prev, pre, s). length s)") (auto dest: match_at_length[OF sym] match_at_length)

declare replace_matches.simps [simp del]

definition HTMLFilter :: "string \<Rightarrow> string \<Rightarrow> string \<Rightarrow> string" where
  "HTMLFilter host body type =
     (if str_find type ''text/html'' \<noteq> None
      then replace_matches (''$1'' @ ''http://'' @ host @ ''$2'' @ ''$3'') None [] body
      else body)"

section \<open>What the filter rewrites\<close>

lemma expand_plain:
  "CHR ''$'' \<notin> set u \<Longrightarrow> expand_format g pre suf (u @ r) = u @ expand_format g pre suf r"
  by (induction u) auto

lemma expand_replacement:
  assumes "CHR ''$'' \<notin> set host"
  shows "expand_format (match_groups g1 g2) pre suf (''$1'' @ ''http://'' @ host @ ''$2'' @ ''$3'') =
    g1 @ ''http://'' @ host @ g2 @ [CHR 0x22]"
proof -
  have "expand_format (match_groups g1 g2) pre suf (''$2'' @ ''$3'') = g2 @ [CHR 0x22]"
    by (simp add: is_digit_def digit_val_def match_groups_def)
  with expand_plain[OF assms, of "match_groups g1 g2" pre suf "''$2'' @ ''$3''"] show ?thesis
    by (simp add: is_digit_def digit_val_def match_groups_def)
qed

lemma match_at_None: "\<not> sublist (''='' @ [CHR 0x22] @ ''/'') s \<Longrightarrow> match_at prev s = None"
proof -
  assume s: "\<not> sublist (''='' @ [CHR 0x22] @ ''/'') s"
  have "\<not> prefix (''='' @ [CHR 0x22] @ ''/'') (dropWhile is_alpha s)"
  proof
    assume "prefix (''='' @ [CHR 0x22] @ ''/'') (dropWhile is_alpha s)"
    then obtain t where "dropWhile is_alpha s = (''='' @ [CHR 0x22] @ ''/'') @ t" by (auto simp: prefix_def)
    then have "s = takeWhile is_alpha s @ (''='' @ [CHR 0x22] @ ''/'') @ t"
      by (metis takeWhile_dropWhile_id)
    then have "sublist (''='' @ [CHR 0x22] @ ''/'') s" by (metis sublist_appendI)
    with s show False by simp
  qed
  then show ?thesis by (simp add: match_at_def Let_def)
qed

lemma replace_none:
  "\<not> sublist (''='' @ [CHR 0x22] @ ''/'') s \<Longrightarrow> replace_matches fmt prev pre s = pre @ s"
proof (induction s arbitrary: prev pre)
  case Nil
  then show ?case by (subst replace_matches.simps) (simp add: match_at_None)
next
  case (Cons c s)
  then have "\<not> sublist (''='' @ [CHR 0x22] @ ''/'') s" by (auto simp: sublist_Cons_right)
  with Cons show ?case by (subst replace_matches.simps) (simp add: match_at_None)
qed

text \<open>Text without an equals sign or a letter at its end is copied up to the attribute.\<close>

lemma match_at_no_equals:
  assumes "CHR ''='' \<notin> set u" and "u \<noteq> []" and "\<not> is_alpha (last u)"
  shows "match_at prev (u @ s) = None"
proof -
  have "dropWhile is_alpha u \<noteq> []" using assms(2,3) by (auto simp: dropWhile_eq_Nil_conv)
  then obtain c r where r: "dropWhile is_alpha u = c # r" by (cases "dropWhile is_alpha u") auto
  then have "c \<in> set u" by (metis list.set_intros(1) set_dropWhileD)
  then have "c \<noteq> CHR ''=''" using assms(1) by auto
  moreover have "dropWhile is_alpha (u @ s) = c # r @ s"
    using r by (metis append_Cons dropWhile_append list.discI dropWhile_eq_Nil_conv)
  ultimately show ?thesis by (simp add: match_at_def Let_def)
qed

lemma replace_copy:
  "CHR ''='' \<notin> set u \<Longrightarrow> u = [] \<or> \<not> is_alpha (last u) \<Longrightarrow>
   replace_matches fmt prev pre (u @ s) =
   replace_matches fmt (if u = [] then prev else Some (last u)) (pre @ u) s"
proof (induction u arbitrary: prev pre)
  case (Cons c u)
  from match_at_no_equals[of "c # u" prev s] Cons.prems have "match_at prev (c # u @ s) = None" by auto
  then have "replace_matches fmt prev pre (c # u @ s) = replace_matches fmt (Some c) (pre @ [c]) (u @ s)"
    by (subst replace_matches.simps) simp
  moreover have "CHR ''='' \<notin> set u" "u = [] \<or> \<not> is_alpha (last u)"
    using Cons.prems by (auto split: if_splits)
  ultimately show ?case using Cons.IH[of "Some c" "pre @ [c]"] by auto
qed simp

lemma no_quote_rest: "CHR 0x22 \<notin> set (takeWhile (\<lambda>c. c \<noteq> CHR 0x0A \<and> c \<noteq> CHR 0x0D) v) \<Longrightarrow> split_last_quote v = None"
  by (induction v) (auto split: if_splits)

lemma split_last_quote_found:
  "one_line p \<Longrightarrow> CHR 0x22 \<notin> set (takeWhile (\<lambda>c. c \<noteq> CHR 0x0A \<and> c \<noteq> CHR 0x0D) v) \<Longrightarrow>
   split_last_quote (p @ CHR 0x22 # v) = Some (p, v)"
  by (induction p) (simp_all add: no_quote_rest)

lemma match_at_link:
  assumes "a \<noteq> []" and "\<forall>c\<in>set a. is_alpha c" and "case prev of None \<Rightarrow> True | Some c \<Rightarrow> \<not> is_wordchar c"
    and "one_line p" and "CHR 0x22 \<notin> set (takeWhile (\<lambda>c. c \<noteq> CHR 0x0A \<and> c \<noteq> CHR 0x0D) v)"
  shows "match_at prev (a @ ''='' @ [CHR 0x22] @ ''/'' @ p @ [CHR 0x22] @ v) =
    Some (a @ ''='' @ [CHR 0x22], CHR ''/'' # p, v)"
proof -
  have eq: "\<not> is_alpha (CHR ''='')" by code_simp
  have a: "takeWhile is_alpha (a @ CHR ''='' # r) = a" "dropWhile is_alpha (a @ CHR ''='' # r) = CHR ''='' # r" for r
    using assms(2) eq by (simp_all add: takeWhile_append2 dropWhile_append2)
  have "boundary prev (a @ r)" for r
    using assms(1-3) by (cases a) (auto simp: boundary_def is_wordchar_def split: option.splits)
  with a split_last_quote_found[OF assms(4,5)] show ?thesis
    by (simp add: match_at_def Let_def)
qed

section \<open>Properties\<close>

text \<open>A body that is not HTML, or holds no attribute whose value starts with a slash, passes the filter
  unchanged.\<close>

theorem filter_leaves_unlinked:
  assumes "\<not> sublist ''text/html'' type \<or> \<not> sublist (''='' @ [CHR 0x22] @ ''/'') body"
  shows "HTMLFilter host body type = body"
  using assms by (auto simp: HTMLFilter_def replace_none str_find_None_iff)

theorem filter_leaves_unlinked_witness: "HTMLFilter ''h'' ''<p>x</p>'' ''text/html'' = ''<p>x</p>''"
  using filter_leaves_unlinked[of "''text/html''" "''<p>x</p>''" "''h''"] by (simp add: sublist_Cons_right)

text \<open>In an HTML body the host is put in front of the value of the first attribute whose value starts
  with a slash, when that attribute is the last one of its line; the text before it is copied and
  the rest of the body is filtered in turn.\<close>

theorem filter_rewrites_link:
  assumes "sublist ''text/html'' type" and "CHR ''$'' \<notin> set host"
    and "CHR ''='' \<notin> set u" and "u = [] \<or> \<not> is_wordchar (last u)"
    and "a \<noteq> []" and "\<forall>c\<in>set a. is_alpha c"
    and "one_line p" and "CHR 0x22 \<notin> set (takeWhile (\<lambda>c. c \<noteq> CHR 0x0A \<and> c \<noteq> CHR 0x0D) v)"
    and "\<not> sublist (''='' @ [CHR 0x22] @ ''/'') v"
  shows "HTMLFilter host (u @ a @ ''='' @ [CHR 0x22] @ ''/'' @ p @ [CHR 0x22] @ v) type =
    u @ a @ ''='' @ [CHR 0x22] @ ''http://'' @ host @ ''/'' @ p @ [CHR 0x22] @ v"
proof -
  let ?fmt = "''$1'' @ ''http://'' @ host @ ''$2'' @ ''$3''"
  let ?link = "a @ ''='' @ [CHR 0x22] @ ''/'' @ p @ [CHR 0x22] @ v"
  let ?prev = "if u = [] then None else Some (last u)"
  have "u = [] \<or> \<not> is_alpha (last u)" using assms(4) by (auto simp: is_wordchar_def)
  from replace_copy[OF assms(3) this, of ?fmt None "[]" ?link]
  have "HTMLFilter host (u @ ?link) type = replace_matches ?fmt ?prev u ?link"
    using assms(1) by (simp add: HTMLFilter_def str_find_None_iff)
  also have "match_at ?prev ?link = Some (a @ ''='' @ [CHR 0x22], CHR ''/'' # p, v)"
    using assms(4-8) by (intro match_at_link) auto
  then have "replace_matches ?fmt ?prev u ?link = u @ expand_format
      (match_groups (a @ ''='' @ [CHR 0x22]) (CHR ''/'' # p)) u v ?fmt @
      replace_matches ?fmt (Some (CHR 0x22)) [] v"
    by (subst replace_matches.simps) (simp only: option.case prod.case)
  also have "replace_matches ?fmt (Some (CHR 0x22)) [] v = v"
    using replace_none[OF assms(9)] by simp
  finally show ?thesis unfolding expand_replacement[OF assms(2)] by simp
qed

theorem filter_rewrites_link_witness:
  "HTMLFilter ''ucla.edu'' (''<a href='' @ [CHR 0x22] @ ''/x'' @ [CHR 0x22] @ ''>'') ''text/html'' =
   ''<a href='' @ [CHR 0x22] @ ''http://ucla.edu/x'' @ [CHR 0x22] @ ''>''"
proof -
  have "\<not> is_wordchar (last ''<a '')" "\<forall>c\<in>set ''href''. is_alpha c" by code_simp+
  with filter_rewrites_link[of "''text/html''" "''ucla.edu''" "''<a ''" "''href''" "''x''" "''>''"]
  show ?thesis by (simp add: sublist_Cons_right)
qed

text \<open>Of two links on one line only the first is rewritten: the expression takes everything up to the
  last quote of the line as one value.\<close>

theorem filter_one_link_per_line:
  "HTMLFilter ''h'' (''src='' @ [CHR 0x22] @ ''/x'' @ [CHR 0x22] @ '' src='' @ [CHR 0x22] @ ''/y'' @ [CHR 0x22])
     ''text/html'' =
   ''src='' @ [CHR 0x22] @ ''http://h/x'' @ [CHR 0x22] @ '' src='' @ [CHR 0x22] @ ''/y'' @ [CHR 0x22]"
  by code_simp

end
