(* ===== verification/Proxy_Handler.thy ===== *)
theory Proxy_Handler
  imports Cpp_Stream Html_Filter Environment Simple_Handlers
begin

text \<open>
  \<^verbatim>\<open>src/proxy_handler.cc\<close>, \<^verbatim>\<open>include/proxy_handler.h\<close>: a request to a fixed host, whose answer
  is sent on. Connecting, writing and reading are operations of the environment and may throw;
  \<^verbatim>\<open>boost::asio::streambuf\<close> is the text of the unread bytes, shared with the stream on it.
\<close>

record proxy_handler =
  ph_root :: string
  ph_uri :: string
  ph_host :: string
  ph_path :: string
  ph_port :: string

definition ProxyHandler_create :: "config \<Rightarrow> string \<Rightarrow> proxy_handler res" where
  "ProxyHandler_create config path =
     bind_res (GetAttribute config ''url'') (\<lambda>url.
     bind_res (GetAttribute config ''host'') (\<lambda>host.
     bind_res (GetAttribute config ''path'') (\<lambda>p.
     bind_res (GetAttribute config ''port'') (\<lambda>port.
     Inr \<lparr>ph_root = path, ph_uri = url, ph_host = host, ph_path = p, ph_port = port\<rparr>))))"

text \<open>
  \<^verbatim>\<open>while (std::getline(response_stream, header) && header != "\r")\<close>: the announced length (-1
  when there is none) and the map, which gets the content type.
\<close>

function read_headers ::
  "string \<Rightarrow> istream \<Rightarrow> int \<Rightarrow> string std_map \<Rightarrow> (istream \<times> int \<times> string std_map) res" where
  "read_headers header st c_length_val to_return =
     (case getline header st of (header, st1) \<Rightarrow>
      if is_fail st1 \<or> header = [CHR 0x0D] then Inr (st1, c_length_val, to_return)
      else
        bind_res
          (if str_find header ''Content-Length:'' \<noteq> None
           then bind_res (substr header 16 (-1)) stoi else Inr c_length_val) (\<lambda>c_length_val.
        bind_res
          (if str_find header ''Content-Type:'' \<noteq> None
           then bind_res (substr header 14 (-1)) (\<lambda>v. Inr (map_set ''Content-Type'' v to_return))
           else Inr to_return) (\<lambda>to_return.
        read_headers header st1 c_length_val to_return)))"
  by pat_completeness auto
termination
  by (relation "measure (\<lambda>(header, st, n, m). length (is_buf st))") (auto intro: getline_shorter[OF sym])

declare read_headers.simps [simp del]

text \<open>
  The loop that reads until the end of the connection. The buffer is never consumed, so every
  round appends all of it again; the loop ends when a read delivers nothing.
\<close>

partial_function (option) read_rest ::
  "'w env \<Rightarrow> string \<Rightarrow> string \<Rightarrow> 'w \<Rightarrow> (string \<times> 'w) option" where
  "read_rest env response res_body w =
     (case net_read env response w of (n, response, w) \<Rightarrow>
      if n = 0 then Some (res_body, w) else read_rest env response (res_body @ response) w)"

definition proxy_request :: "proxy_handler \<Rightarrow> string" where
  "proxy_request h =
     ''GET '' @ ph_path h @ '' HTTP/1.1'' @ crlf @
     ''Host: '' @ ph_host h @ crlf @
     ''Accept: */*'' @ crlf @
     ''Connection: close'' @ crlf @ crlf"

text \<open>\<^verbatim>\<open>ProxyHandler::HTTPRequest\<close>; \<open>proxy_body\<close> is its part behind the headers.\<close>

definition proxy_body ::
  "'w env \<Rightarrow> proxy_handler \<Rightarrow> string \<Rightarrow> int \<Rightarrow> string std_map \<Rightarrow> 'w \<Rightarrow> (string std_map \<times> 'w) res" where
  "proxy_body env h response c_length_val to_return w =
     (let last_portion = (if length response > 0 then response else []);
          res_body = last_portion in
      bind_res
        (if int (length last_portion) \<noteq> c_length_val
         then (case read_rest env response res_body w of None \<Rightarrow> Inl Diverges | Some r \<Rightarrow> Inr r)
         else Inr (res_body, w)) (\<lambda>(res_body, w).
      Inr (map_set ''Body'' (HTMLFilter (ph_host h) res_body (map_index to_return ''Content-Type''))
             to_return, w)))"

definition HTTPRequest :: "'w env \<Rightarrow> proxy_handler \<Rightarrow> 'w \<Rightarrow> (string std_map \<times> 'w) res" where
  "HTTPRequest env h w =
     (let to_return = map_set ''Content-Type'' ''text/plain'' [] in
      bind_res (net_connect env (ph_host h) (ph_port h) w) (\<lambda>w.
      bind_res (net_write env (proxy_request h) w) (\<lambda>w.
      bind_res (net_read_until env [] crlf w) (\<lambda>(response, w).
      let (http_version, st) = read_word [] (new_stream response);
          (status_code, st) = read_unsigned st;
          (status_message, st) = getline [] st in
      if is_fail st \<or> take 5 http_version \<noteq> ''HTTP/'' then
        Inr (map_set ''Body'' (''Invalid response'' @ [CHR 0x0A]) to_return, w)
      else if status_code \<noteq> 200 then
        Inr (map_set ''Body''
          (''Response returned with status code '' @ to_string (unat status_code) @ [CHR 0x0A]) to_return, w)
      else
        bind_res (net_read_until env (is_buf st) (crlf @ crlf) w) (\<lambda>(response, w).
        bind_res (read_headers [] (st\<lparr>is_buf := response\<rparr>) (-1) to_return) (\<lambda>(st, c_length_val, to_return).
        proxy_body env h (is_buf st) c_length_val to_return w))))))"

definition ProxyHandler_HandleRequest ::
  "'w env \<Rightarrow> proxy_handler \<Rightarrow> request \<Rightarrow> 'w \<Rightarrow> (response \<times> string list \<times> 'w) res" where
  "ProxyHandler_HandleRequest env h request w =
     bind_res (HTTPRequest env h w) (\<lambda>(mapz, w).
     let response = SetStatus MOVED_TEMPORARILY new_Response;
         response = ReSetHeader ''Content-Type'' (map_index mapz ''Content-Type'') response;
         response = SetHeader ''Content-Length'' (to_string (length (map_index mapz ''Body''))) response;
         response = SetBody (map_index mapz ''Body'') response
     in Inr (response, [''::HandlerMetrics:: handler:proxy'',
                        ''::ResponseMetrics:: response_code:302''], w))"

section \<open>The contract of a handler\<close>

lemma ProxyHandler_response:
  "ProxyHandler_HandleRequest env h q w =
     bind_res (HTTPRequest env h w) (\<lambda>(m, w). Inr (build_response MOVED_TEMPORARILY
       (map_index m ''Content-Type'') (map_index m ''Body''),
       [''::HandlerMetrics:: handler:proxy'', ''::ResponseMetrics:: response_code:302''], w))"
  by (simp add: ProxyHandler_HandleRequest_def build_response_def)

interpretation proxy: handler_contract
  "\<lambda>(env, h, q, w) r log. \<exists>w'. ProxyHandler_HandleRequest env h q w = Inr (r, log, w')"
  by unfold_locales
    (auto simp: ProxyHandler_response code_strings
      logs_status_two[where c = MOVED_TEMPORARILY and code = "''302''", simplified])

end
