(* ===== verification/Dispatcher.thy ===== *)
theory Dispatcher
  imports Static_Handler Meme_Handler Proxy_Handler
begin

text \<open>
  \<^verbatim>\<open>src/handler_manager.cc\<close> and \<^verbatim>\<open>src/dispatcher.cc\<close>: from the path of a request to the
  handler of its first segment, built for this one request, and its response. The two static
  members of \<^verbatim>\<open>StatusObject\<close> are the record \<open>process\<close>.
\<close>

record process =
  status_entries :: "status_entry list"
  url_handlers :: "string std_map"

section \<open>Creating a handler by its name\<close>

datatype handler =
    Echo simple_handler | Static static_handler | Error simple_handler | Status simple_handler
  | Proxy proxy_handler | Meme meme_handler | Health simple_handler | Bad simple_handler

text \<open>\<^verbatim>\<open>HandlerManager::createByName\<close>; \<open>None\<close> is the null pointer.\<close>

definition createByName :: "string \<Rightarrow> config \<Rightarrow> string \<Rightarrow> handler option res" where
  "createByName name config path =
     (if name = ''echo'' then bind_res (EchoHandler_create config path) (\<lambda>h. Inr (Some (Echo h)))
      else if name = ''static'' then bind_res (StaticHandler_create config path) (\<lambda>h. Inr (Some (Static h)))
      else if name = ''error'' then bind_res (ErrorHandler_create config path) (\<lambda>h. Inr (Some (Error h)))
      else if name = ''status'' then bind_res (StatusHandler_create config path) (\<lambda>h. Inr (Some (Status h)))
      else if name = ''proxy'' then bind_res (ProxyHandler_create config path) (\<lambda>h. Inr (Some (Proxy h)))
      else if name = ''meme'' then bind_res (MemeHandler_create config path) (\<lambda>h. Inr (Some (Meme h)))
      else if name = ''health'' then bind_res (HealthHandler_create config path) (\<lambda>h. Inr (Some (Health h)))
      else if name = ''bad'' then bind_res (BadHandler_create config path) (\<lambda>h. Inr (Some (Bad h)))
      else Inr None)"

text \<open>The virtual function \<^verbatim>\<open>RequestHandler::HandleRequest\<close>.\<close>

definition HandleRequest ::
  "'w env \<Rightarrow> process \<Rightarrow> handler \<Rightarrow> request \<Rightarrow> 'w \<Rightarrow> (response \<times> string list \<times> 'w) res" where
  "HandleRequest env proc h request w =
     (case h of
        Echo _ \<Rightarrow> (case EchoHandler_HandleRequest request of (r, log) \<Rightarrow> Inr (r, log, w))
      | Static s \<Rightarrow> bind_res (StaticHandler_HandleRequest (env_file env) s request) (\<lambda>(r, log). Inr (r, log, w))
      | Error _ \<Rightarrow> (case ErrorHandler_HandleRequest request of (r, log) \<Rightarrow> Inr (r, log, w))
      | Status _ \<Rightarrow> (case StatusHandler_HandleRequest (status_entries proc) (url_handlers proc) request of
                      (r, log) \<Rightarrow> Inr (r, log, w))
      | Proxy p \<Rightarrow> ProxyHandler_HandleRequest env p request w
      | Meme m \<Rightarrow> MemeHandler_HandleRequest env m request w
      | Health _ \<Rightarrow> (case HealthHandler_HandleRequest request of (r, log) \<Rightarrow> Inr (r, log, w))
      | Bad _ \<Rightarrow> (case BadHandler_HandleRequest request of (r, log) \<Rightarrow> Inr (r, log, w)))"

section \<open>The dispatcher\<close>

record dispatcher =
  disp_root :: string
  disp_configTable :: "config std_map"
  disp_handlerTable :: "string std_map"

text \<open>The constructor: it also fills the static map of the status object.\<close>

definition new_Dispatcher :: "config \<Rightarrow> process \<Rightarrow> (dispatcher \<times> process) res" where
  "new_Dispatcher config proc =
     bind_res (GetRoot config) (\<lambda>root.
     bind_res (ParseString config \<lparr>configTable = [], handlerTable = [],
                 url_handlers_map = url_handlers proc\<rparr>) (\<lambda>tb.
     Inr (\<lparr>disp_root = root, disp_configTable = configTable tb, disp_handlerTable = handlerTable tb\<rparr>,
          proc\<lparr>url_handlers := url_handlers_map tb\<rparr>)))"

text \<open>\<^verbatim>\<open>int i = 1; for (i; i < full_url.length(); i++) if (full_url[i] == '/') break;\<close>\<close>

function scan_segment :: "string \<Rightarrow> nat \<Rightarrow> nat" where
  "scan_segment full_url i =
     (if i < length full_url then if full_url ! i = CHR ''/'' then i else scan_segment full_url (i + 1)
      else i)"
  by pat_completeness auto
termination
  by (relation "measure (\<lambda>(s, i). length s - i)") auto

declare scan_segment.simps [simp del]

definition url_prefix :: "string \<Rightarrow> string" where
  "url_prefix full_url = take (scan_segment full_url 1) full_url"

text \<open>
  \<^verbatim>\<open>Dispatcher::generateResponse\<close>. Following a null handler, or the end iterator of the table
  of configurations, is undefined.
\<close>

definition generateResponse ::
  "'w env \<Rightarrow> dispatcher \<Rightarrow> process \<Rightarrow> request \<Rightarrow> 'w \<Rightarrow> (response \<times> string list \<times> 'w) res" where
  "generateResponse env d proc req w =
     (let uri = url_prefix (req_uri_path req); path = disp_root d in
      case map_of (disp_handlerTable d) uri of
        Some name \<Rightarrow>
          (case map_of (disp_configTable d) uri of
             None \<Rightarrow> Inl Undefined
           | Some nginxconfig \<Rightarrow>
               bind_res (createByName name nginxconfig path) (\<lambda>handler.
               case handler of None \<Rightarrow> Inl Undefined | Some h \<Rightarrow> HandleRequest env proc h req w))
      | None \<Rightarrow>
          bind_res (createByName ''error'' [] path) (\<lambda>handler.
          case handler of None \<Rightarrow> Inl Undefined | Some h \<Rightarrow> HandleRequest env proc h req w))"

section \<open>What the dispatcher does\<close>

lemma scan_segment_eq:
  "i \<le> length s \<Longrightarrow> scan_segment s i = i + length (takeWhile (\<lambda>c. c \<noteq> CHR ''/'') (drop i s))"
proof (induction s i rule: scan_segment.induct)
  case (1 s i)
  then show ?case
    by (subst scan_segment.simps) (auto simp: Cons_nth_drop_Suc[symmetric])
qed

text \<open>The first segment of a path: the first byte, and what follows it up to a slash.\<close>

fun first_segment :: "string \<Rightarrow> string" where
  "first_segment [] = []"
| "first_segment (c # s) = c # takeWhile (\<lambda>d. d \<noteq> CHR ''/'') s"

lemma url_prefix_first_segment: "url_prefix s = first_segment s"
proof (cases s)
  case (Cons c r)
  then show ?thesis
    using scan_segment_eq[of 1 "c # r"] takeWhile_eq_take[of "\<lambda>c. c \<noteq> CHR ''/''" r]
    by (simp add: url_prefix_def)
qed (simp add: url_prefix_def)

lemma HandleRequest_contract:
  assumes "HandleRequest env proc h q w = Inr (r, log, w')"
  shows "well_formed r" and "logs_status r log"
proof -
  have "well_formed r \<and> logs_status r log"
  proof (cases h)
    case (Echo s)
    with assms echo.complete echo.logged show ?thesis by (auto simp: HandleRequest_def split: prod.splits)
  next
    case (Static s)
    with assms have "(case (env_file env, s, q) of (fs, h, q) \<Rightarrow>
        \<lambda>r log. StaticHandler_HandleRequest fs h q = Inr (r, log)) r log"
      by (auto simp: HandleRequest_def)
    with static.complete static.logged show ?thesis by blast
  next
    case (Error s)
    with assms error.complete error.logged show ?thesis by (auto simp: HandleRequest_def split: prod.splits)
  next
    case (Status s)
    with assms have "(case (status_entries proc, url_handlers proc, q) of (es, m, q) \<Rightarrow>
        \<lambda>r log. StatusHandler_HandleRequest es m q = (r, log)) r log"
      by (auto simp: HandleRequest_def split: prod.splits)
    with status.complete status.logged show ?thesis by blast
  next
    case (Proxy p)
    with assms have "(case (env, p, q, w) of (env, h, q, w) \<Rightarrow>
        \<lambda>r log. \<exists>w'. ProxyHandler_HandleRequest env h q w = Inr (r, log, w')) r log"
      by (auto simp: HandleRequest_def)
    with proxy.complete proxy.logged show ?thesis by blast
  next
    case (Meme m)
    with assms have "(case (env, m, q, w) of (env, h, q, w) \<Rightarrow>
        \<lambda>r log. \<exists>w'. MemeHandler_HandleRequest env h q w = Inr (r, log, w')) r log"
      by (auto simp: HandleRequest_def)
    with meme.complete meme.logged show ?thesis by blast
  next
    case (Health s)
    with assms health.complete health.logged show ?thesis by (auto simp: HandleRequest_def split: prod.splits)
  next
    case (Bad s)
    with assms bad.complete bad.logged show ?thesis by (auto simp: HandleRequest_def split: prod.splits)
  qed
  then show "well_formed r" and "logs_status r log" by simp_all
qed

text \<open>The codes the handlers send.\<close>

definition sent_codes :: "statuscode set" where
  "sent_codes = {OK, MOVED_TEMPORARILY, BAD_REQUEST, NOT_FOUND}"

lemma sent_codes_simps [simp]:
  "OK \<in> sent_codes" "MOVED_TEMPORARILY \<in> sent_codes" "BAD_REQUEST \<in> sent_codes" "NOT_FOUND \<in> sent_codes"
  by (simp_all add: sent_codes_def)

lemma sent_error_codes: "c \<in> sent_codes \<Longrightarrow> BAD_REQUEST \<le> c \<longleftrightarrow> c \<in> {BAD_REQUEST, NOT_FOUND}"
  by (auto simp: sent_codes_def code_of_error)

lemma HandleRequest_status:
  assumes "HandleRequest env proc h q w = Inr (r, log, w')" and "rsp_status r = Some c"
  shows "c \<in> sent_codes"
proof (cases h)
  case (Static s)
  with assms show ?thesis
    by (auto simp: HandleRequest_def static_cases static_not_found_eq static_ok_def Let_def
        split: if_splits option.splits)
next
  case (Proxy p)
  with assms show ?thesis by (auto simp: HandleRequest_def ProxyHandler_response)
next
  case (Meme m)
  with assms show ?thesis
    by (auto simp: HandleRequest_def MemeHandler_HandleRequest_def meme_response_eq Let_def split: if_splits)
qed (use assms in \<open>auto simp: HandleRequest_def simple_responses\<close>)

lemma createByName_error: "createByName ''error'' c path = Inr (Some (Error \<lparr>root = path, uri = ''''\<rparr>))"
  by (simp add: createByName_def ErrorHandler_create_def)

lemma generateResponse_InrD:
  assumes "generateResponse env d proc req w = Inr (r, log, w')"
  shows "\<exists>h. HandleRequest env proc h req w = Inr (r, log, w')"
  using assms by (auto simp: generateResponse_def Let_def split: option.splits)

interpretation dispatch: handler_contract
  "\<lambda>(env, d, proc, q, w) r log. \<exists>w'. generateResponse env d proc q w = Inr (r, log, w')"
proof (unfold_locales, goal_cases)
  case (1 i r log)
  obtain env d proc q w where "i = (env, d, proc, q, w)" by (cases i)
  with 1 show ?case by (auto dest!: generateResponse_InrD intro: HandleRequest_contract(1))
next
  case (2 i r log)
  obtain env d proc q w where "i = (env, d, proc, q, w)" by (cases i)
  with 2 show ?case by (auto dest!: generateResponse_InrD intro: HandleRequest_contract(2))
qed

text \<open>
  The specification of routing: the first handler statement, in the order of registration,
  whose URL is the first segment of the path.
\<close>

definition route :: "config \<Rightarrow> string \<Rightarrow> (string \<times> config) option" where
  "route c path = map_of (map (\<lambda>(u, b, n). (u, (n, b))) (handlers c)) (first_segment path)"

lemma map_of_route:
  "map_of (map (\<lambda>(u, b, n). (u, n)) hs) u = map_option fst (map_of (map (\<lambda>(u, b, n). (u, (n, b))) hs) u)"
  "map_of (map (\<lambda>(u, b, n). (u, b)) hs) u = map_option snd (map_of (map (\<lambda>(u, b, n). (u, (n, b))) hs) u)"
  by (induction hs) auto

lemma new_Dispatcher_InrD:
  assumes "new_Dispatcher c proc = Inr (d, proc')"
  shows "GetRoot c = Inr (disp_root d)"
    and "map_of (disp_handlerTable d) (url_prefix path) = map_option fst (route c path)"
    and "map_of (disp_configTable d) (url_prefix path) = map_option snd (route c path)"
    and "status_entries proc' = status_entries proc"
    and "ascending (url_handlers proc) \<Longrightarrow> ascending (url_handlers proc')"
    and "ascending (url_handlers proc) \<Longrightarrow> map_of (url_handlers proc') u =
      (case map_of (url_handlers proc) u of None \<Rightarrow> map_of (map (\<lambda>(u, b, n). (u, n)) (handlers c)) u
       | Some n \<Rightarrow> Some n)"
proof -
  obtain tb where "GetRoot c = Inr (disp_root d)" and tb: "ParseString c
      \<lparr>configTable = [], handlerTable = [], url_handlers_map = url_handlers proc\<rparr> = Inr tb"
    and d: "disp_configTable d = configTable tb" "disp_handlerTable d = handlerTable tb"
      "proc' = proc\<lparr>url_handlers := url_handlers_map tb\<rparr>"
    using assms by (auto simp: new_Dispatcher_def)
  then show "GetRoot c = Inr (disp_root d)"
    and "map_of (disp_handlerTable d) (url_prefix path) = map_option fst (route c path)"
    and "map_of (disp_configTable d) (url_prefix path) = map_option snd (route c path)"
    and "status_entries proc' = status_entries proc"
    and "ascending (url_handlers proc) \<Longrightarrow> ascending (url_handlers proc')"
    and "ascending (url_handlers proc) \<Longrightarrow> map_of (url_handlers proc') u =
      (case map_of (url_handlers proc) u of None \<Rightarrow> map_of (map (\<lambda>(u, b, n). (u, n)) (handlers c)) u
       | Some n \<Rightarrow> Some n)"
    using routing_tables[OF tb] by (simp_all add: route_def map_of_route url_prefix_first_segment)
qed

text \<open>The dispatcher of a configuration is the same for every request.\<close>

lemma new_Dispatcher_again:
  assumes "new_Dispatcher c proc = Inr (d, proc1)"
  shows "\<exists>proc2. new_Dispatcher c proc' = Inr (d, proc2)"
proof -
  obtain tb where r: "GetRoot c = Inr (disp_root d)" and tb: "ParseString c
      \<lparr>configTable = [], handlerTable = [], url_handlers_map = url_handlers proc\<rparr> = Inr tb"
    and d: "d = \<lparr>disp_root = disp_root d, disp_configTable = configTable tb, disp_handlerTable = handlerTable tb\<rparr>"
    using assms by (auto simp: new_Dispatcher_def)
  have reg: "list_all registrable c" using ParseString_Inr_registrable(1)[OF tb] .
  then have "tb = insert_all (handlers c) \<lparr>configTable = [], handlerTable = [], url_handlers_map = url_handlers proc\<rparr>"
    using ParseString_insert_all(1) tb by auto
  then show ?thesis
    using r d ParseString_insert_all(1)[OF reg] by (simp add: new_Dispatcher_def insert_all_tables)
qed

lemma generateResponse_route:
  assumes "new_Dispatcher c proc = Inr (d, proc')"
  shows "generateResponse env d proc' q w =
    (case route c (req_uri_path q) of
       None \<Rightarrow> HandleRequest env proc' (Error \<lparr>root = disp_root d, uri = ''''\<rparr>) q w
     | Some (name, block) \<Rightarrow> bind_res (createByName name block (disp_root d)) (\<lambda>h.
         case h of None \<Rightarrow> Inl Undefined | Some h \<Rightarrow> HandleRequest env proc' h q w))"
  using new_Dispatcher_InrD(2,3)[OF assms, of "req_uri_path q"]
  by (auto simp: generateResponse_def createByName_error Let_def split: option.split)

end
