(* ===== verification/Session.thy ===== *)
theory Session
  imports Dispatcher
begin

text \<open>
  \<^verbatim>\<open>src/session.cc\<close>, \<^verbatim>\<open>src/server.cc\<close> and \<^verbatim>\<open>include/server.h\<close>: the callbacks of a connection, and
  the server as a step relation over the events the I/O service reports. The trace log and the
  lookups of the remote address are left out.
\<close>

section \<open>A connection\<close>

datatype io_error = No_error | Eof | Failure

text \<open>What a read callback does: nothing more, destroy the session, or start to write.\<close>

datatype session_action = Dropped | Deleted | Write_response string

text \<open>
  \<^verbatim>\<open>session::handle_read\<close> with the bytes in the buffer: the action, the lines printed, and
  the two states it changes. The dispatcher is built anew for every request.
\<close>

definition handle_read ::
  "'w env \<Rightarrow> config \<Rightarrow> process \<Rightarrow> io_error \<Rightarrow> string \<Rightarrow> 'w \<Rightarrow>
   (session_action \<times> string list \<times> process \<times> 'w) res" where
  "handle_read env config proc err buffer w =
     (case err of
        Eof \<Rightarrow> Inr (Dropped, [], proc, w)
      | Failure \<Rightarrow> Inr (Deleted, [], proc, w)
      | No_error \<Rightarrow>
          bind_res (request_handler (env_split env) buffer) (\<lambda>req.
          let path_line = ''::PathMetrics:: path:'' @ req_uri_path req in
          bind_res (new_Dispatcher config proc) (\<lambda>(dispatcher, proc).
          bind_res (generateResponse env dispatcher proc req w) (\<lambda>(resp, log, w).
          bind_res (Output resp) (\<lambda>httpresponse.
          bind_res (getStatusCode resp) (\<lambda>code.
          bind_res (addStatusEntry (req_uri_path req) (to_string (code_of code)) (status_entries proc))
            (\<lambda>entries.
          Inr (Write_response httpresponse, path_line # log, proc\<lparr>status_entries := entries\<rparr>, w))))))))"

text \<open>\<^verbatim>\<open>session::handle_write\<close>: the connection is shut down, or the session destroyed.\<close>

datatype write_action = Shut_down | Destroyed

definition handle_write :: "io_error \<Rightarrow> write_action" where
  "handle_write err = (if err = No_error then Shut_down else Destroyed)"

section \<open>The server\<close>

text \<open>
  A connection waits for a request, is being answered, or is given up. \<^verbatim>\<open>session::start\<close>
  catches what looking up the remote address throws; what is left is the read it starts.
\<close>

datatype connection = Reading | Writing string | Closed

definition session_start :: connection where
  "session_start = Reading"

text \<open>\<^verbatim>\<open>server::handle_accept\<close>: without an error a session starts; the next accept always does.\<close>

definition handle_accept :: "io_error \<Rightarrow> connection list \<Rightarrow> connection list" where
  "handle_accept err conns = (if err = No_error then conns @ [session_start] else conns)"

text \<open>
  \<open>Running\<close>, and the three ways a callback may end the process: an exception that leaves
  \<^verbatim>\<open>io_service::run\<close> (\<open>Ended\<close>, \<^verbatim>\<open>main\<close> returns), undefined behaviour, and a callback that
  does not return. \<open>Stopped\<close> is the I/O service after \<^verbatim>\<open>handle_stop\<close>.
\<close>

datatype run_state = Running | Ended fault | Broken | Stuck | Stopped

record 'w server =
  srv_conns :: "connection list"
  srv_proc :: process
  srv_world :: 'w
  srv_log :: "string list"
  srv_state :: run_state

definition new_server :: "'w \<Rightarrow> 'w server" where
  "new_server w = \<lparr>srv_conns = [], srv_proc = \<lparr>status_entries = [], url_handlers = []\<rparr>,
     srv_world = w, srv_log = [], srv_state = Running\<rparr>"

text \<open>\<^verbatim>\<open>server::handle_stop\<close>; the program registers it with no signal, so no event calls it.\<close>

definition handle_stop :: "'w server \<Rightarrow> 'w server" where
  "handle_stop s = s\<lparr>srv_state := Stopped\<rparr>"

datatype event =
    Accept io_error
  | Read nat io_error string
  | Written nat io_error

definition run_state_of :: "fault \<Rightarrow> run_state" where
  "run_state_of e = (case e of Undefined \<Rightarrow> Broken | Diverges \<Rightarrow> Stuck | _ \<Rightarrow> Ended e)"

text \<open>
  What the two actions of a session do to the server. A dropped connection is closed with the
  last shared pointer to its session. \<^verbatim>\<open>delete this\<close> destroys a session that the callback still
  holds a \<^verbatim>\<open>shared_ptr\<close> to, which destroys it again: undefined behaviour.
\<close>

definition after_read :: "nat \<Rightarrow> session_action \<Rightarrow> 'w server \<Rightarrow> 'w server" where
  "after_read i act s = (case act of
     Dropped \<Rightarrow> s\<lparr>srv_conns := (srv_conns s)[i := Closed]\<rparr>
   | Deleted \<Rightarrow> s\<lparr>srv_state := Broken\<rparr>
   | Write_response out \<Rightarrow> s\<lparr>srv_conns := (srv_conns s)[i := Writing out]\<rparr>)"

definition after_write :: "nat \<Rightarrow> write_action \<Rightarrow> 'w server \<Rightarrow> 'w server" where
  "after_write i act s = (case act of
     Shut_down \<Rightarrow> s\<lparr>srv_conns := (srv_conns s)[i := Closed]\<rparr>
   | Destroyed \<Rightarrow> s\<lparr>srv_state := Broken\<rparr>)"

text \<open>
  The callbacks the I/O service runs, one at a time. \<^verbatim>\<open>async_read_until\<close> completes without an
  error only when the buffer holds the delimiter. A fault ends the run; the components of the last
  state are then those from before the callback, without the effects it had up to the fault (a row
  it stored, the monitoring lines it wrote).
\<close>

inductive server_step :: "'w env \<Rightarrow> config \<Rightarrow> event \<Rightarrow> 'w server \<Rightarrow> 'w server \<Rightarrow> bool"
  for env config where
  accept: "srv_state s = Running \<Longrightarrow>
    server_step env config (Accept err) s (s\<lparr>srv_conns := handle_accept err (srv_conns s)\<rparr>)"
| read: "srv_state s = Running \<Longrightarrow> i < length (srv_conns s) \<Longrightarrow> srv_conns s ! i = Reading \<Longrightarrow>
    err = No_error \<longrightarrow> str_find buffer (crlf @ crlf) \<noteq> None \<Longrightarrow>
    handle_read env config (srv_proc s) err buffer (srv_world s) = Inr (act, log, proc, w) \<Longrightarrow>
    server_step env config (Read i err buffer) s
      (after_read i act (s\<lparr>srv_proc := proc, srv_world := w, srv_log := srv_log s @ log\<rparr>))"
| read_fault: "srv_state s = Running \<Longrightarrow> i < length (srv_conns s) \<Longrightarrow> srv_conns s ! i = Reading \<Longrightarrow>
    err = No_error \<longrightarrow> str_find buffer (crlf @ crlf) \<noteq> None \<Longrightarrow>
    handle_read env config (srv_proc s) err buffer (srv_world s) = Inl e \<Longrightarrow>
    server_step env config (Read i err buffer) s (s\<lparr>srv_state := run_state_of e\<rparr>)"
| written: "srv_state s = Running \<Longrightarrow> i < length (srv_conns s) \<Longrightarrow> srv_conns s ! i = Writing out \<Longrightarrow>
    server_step env config (Written i err) s (after_write i (handle_write err) s)"

inductive_cases server_stepE [elim]: "server_step env config ev s s'"

inductive_simps server_step_simps:
  "server_step env config (Accept err) s s'"
  "server_step env config (Read i err buffer) s s'"
  "server_step env config (Written i err) s s'"

lemma stopped_is_final: "\<not> server_step env config ev (handle_stop s) s'"
  by (cases ev) (simp_all add: server_step_simps handle_stop_def)

text \<open>The states reachable from a start, with the events on the way.\<close>

inductive server_run :: "'w env \<Rightarrow> config \<Rightarrow> 'w \<Rightarrow> event list \<Rightarrow> 'w server \<Rightarrow> bool"
  for env config w where
  start: "server_run env config w [] (new_server w)"
| step: "server_run env config w evs s \<Longrightarrow> server_step env config ev s s' \<Longrightarrow>
    server_run env config w (evs @ [ev]) s'"

section \<open>What a request does\<close>

lemma handle_read_Write:
  assumes "handle_read env config proc No_error buffer w = Inr (Write_response out, log, proc', w')"
  shows "\<exists>req d proc1 r log1 c es.
    request_handler (env_split env) buffer = Inr req \<and>
    new_Dispatcher config proc = Inr (d, proc1) \<and>
    generateResponse env d proc1 req w = Inr (r, log1, w') \<and>
    Output r = Inr out \<and> getStatusCode r = Inr c \<and>
    addStatusEntry (req_uri_path req) (to_string (code_of c)) (status_entries proc1) = Inr es \<and>
    log = (''::PathMetrics:: path:'' @ req_uri_path req) # log1 \<and>
    proc' = proc1\<lparr>status_entries := es\<rparr>"
  using assms by (fastforce simp: handle_read_def Let_def)

text \<open>The requests that were answered on a run.\<close>

definition is_request :: "event \<Rightarrow> bool" where
  "is_request ev \<longleftrightarrow> (case ev of Read i No_error b \<Rightarrow> True | _ \<Rightarrow> False)"

lemma handle_read_cases:
  assumes "handle_read env config proc err buffer w = Inr (act, log, proc', w')"
  shows "(case act of Write_response out \<Rightarrow> err = No_error
     | Dropped \<Rightarrow> err = Eof \<and> log = [] \<and> proc' = proc \<and> w' = w
     | Deleted \<Rightarrow> err = Failure \<and> log = [] \<and> proc' = proc \<and> w' = w)"
  using assms by (cases err) (auto simp: handle_read_def Let_def)

lemma status_table_step:
  assumes "server_step env config ev s s'" and "srv_state s' = Running"
    and "status_entries (srv_proc s) = summary hist" and "length hist < 2 ^ 31 - 1"
  shows "\<exists>hist'. status_entries (srv_proc s') = summary hist' \<and>
    length hist' = length hist + (if is_request ev then 1 else 0)"
  using assms(1)
proof cases
  case (read i err buffer act log proc w)
  note act = handle_read_cases[OF read(7)]
  show ?thesis
  proof (cases act)
    case (Write_response out)
    with act have "err = No_error" by simp
    with read(7) Write_response
    have "handle_read env config (srv_proc s) No_error buffer (srv_world s) =
        Inr (Write_response out, log, proc, w)" by simp
    from handle_read_Write[OF this] obtain req d proc1 c es where
      "request_handler (env_split env) buffer = Inr req" and
      d: "new_Dispatcher config (srv_proc s) = Inr (d, proc1)"
      and es: "addStatusEntry (req_uri_path req) (to_string (code_of c)) (status_entries proc1) = Inr es"
        "proc = proc1\<lparr>status_entries := es\<rparr>"
      by blast
    then have "es = summary (hist @ [(req_uri_path req, to_string (code_of c))])"
      using new_Dispatcher_InrD(4)[OF d] addStatusEntry_summary[OF assms(4)] assms(3) by simp
    with read es Write_response \<open>err = No_error\<close> show ?thesis
      by (intro exI[of _ "hist @ [(req_uri_path req, to_string (code_of c))]"])
        (simp add: is_request_def after_read_def)
  next
    case Dropped
    with act read assms(3) show ?thesis
      by (intro exI[of _ hist]) (simp add: is_request_def after_read_def)
  next
    case Deleted
    with read assms(2) show ?thesis by (simp add: after_read_def)
  qed
next
  case (read_fault i err buffer e)
  with assms(2) show ?thesis by (simp add: run_state_of_def split: fault.splits)
next
  case (written i out err)
  with assms(2,3) show ?thesis
    by (intro exI[of _ hist]) (simp add: is_request_def after_write_def split: write_action.splits)
qed (use assms(3) in \<open>auto simp: is_request_def intro!: exI[of _ hist]\<close>)

lemma running_before: "server_step env config ev s s' \<Longrightarrow> srv_state s = Running"
  by (auto elim: server_step.cases)

lemma status_table_run:
  assumes "server_run env config w evs s"
  shows "srv_state s = Running \<Longrightarrow> length evs < 2 ^ 31 \<Longrightarrow>
    \<exists>hist. status_entries (srv_proc s) = summary hist \<and> length hist = length (filter is_request evs)"
  using assms
proof (induction rule: server_run.induct)
  case start
  show ?case by (intro exI[of _ "[]"]) (simp add: new_server_def summary_def)
next
  case (step evs s ev s')
  from step running_before[OF step.hyps(2)] obtain hist where
    "status_entries (srv_proc s) = summary hist" "length hist = length (filter is_request evs)"
    by auto
  moreover have "length (filter is_request evs) < 2 ^ 31 - 1"
    using le_less_trans[OF length_filter_le, of evs "2 ^ 31 - 1" is_request] step.prems(2) by simp
  ultimately show ?case
    using status_table_step[OF step.hyps(2) step.prems(1), of hist] by auto
qed

text \<open>Every response on its way is a complete message with the announced length.\<close>

definition sound_response :: "string \<Rightarrow> bool" where
  "sound_response out \<longleftrightarrow> (\<exists>r. Output r = Inr out \<and> well_formed r)"

lemma handle_read_sound:
  assumes "handle_read env config proc err buffer w = Inr (Write_response out, log, proc', w')"
  shows "sound_response out"
proof -
  have "err = No_error" using assms by (cases err) (simp_all add: handle_read_def)
  with assms handle_read_Write[of env config proc buffer w out log proc' w']
  obtain d proc1 req r log1 where r: "generateResponse env d proc1 req w = Inr (r, log1, w')" "Output r = Inr out"
    by blast
  from generateResponse_InrD[OF r(1)] obtain h where "HandleRequest env proc1 h req w = Inr (r, log1, w')" ..
  with r(2) show ?thesis unfolding sound_response_def by (blast intro: HandleRequest_contract(1))
qed

definition sound_conn :: "connection \<Rightarrow> bool" where
  "sound_conn c \<longleftrightarrow> (case c of Writing out \<Rightarrow> sound_response out | _ \<Rightarrow> True)"

lemma sound_conns_step:
  assumes "server_step env config ev s s'" and "list_all sound_conn (srv_conns s)"
  shows "list_all sound_conn (srv_conns s')"
  using assms(1)
proof cases
  case (read i err buffer act log proc w)
  with assms(2) handle_read_sound[of env config "srv_proc s" err buffer "srv_world s"] show ?thesis
    by (auto simp: list_all_length sound_conn_def nth_list_update after_read_def split: session_action.splits)
qed (use assms(2) in \<open>auto simp: list_all_length sound_conn_def nth_list_update nth_append
      handle_accept_def session_start_def after_write_def less_Suc_eq split: write_action.splits\<close>)

lemma sound_conns_run: "server_run env config w evs s \<Longrightarrow> list_all sound_conn (srv_conns s)"
  by (induction rule: server_run.induct) (auto simp: new_server_def intro: sound_conns_step)

section \<open>The static data of the process\<close>

text \<open>
  The map of URLs is ordered and lists only what the configuration routes, and the table of
  requests has one entry for each pair of path and code, with a code that a handler sends.
\<close>

definition process_ok :: "config \<Rightarrow> process \<Rightarrow> bool" where
  "process_ok c proc \<longleftrightarrow> ascending (url_handlers proc) \<and> distinct (map snd (status_entries proc)) \<and>
     (\<forall>(n, u, code)\<in>set (status_entries proc). \<exists>c\<in>sent_codes. code = to_string (code_of c)) \<and>
     (\<forall>u n. map_of (url_handlers proc) u = Some n \<longrightarrow>
        map_of (map (\<lambda>(u, b, n). (u, n)) (handlers c)) u = Some n)"

lemma process_ok_new_Dispatcher:
  assumes "new_Dispatcher c proc = Inr (d, proc1)" and "process_ok c proc"
  shows "process_ok c proc1"
  using assms(2) new_Dispatcher_InrD(4-6)[OF assms(1)]
  by (auto simp: process_ok_def split: option.splits)

lemma process_ok_add:
  assumes "addStatusEntry u (to_string (code_of code)) (status_entries proc) = Inr es"
    and "code \<in> sent_codes" and "process_ok c proc"
  shows "process_ok c (proc\<lparr>status_entries := es\<rparr>)"
proof -
  let ?known = "\<lambda>p :: string \<times> string. \<exists>c\<in>sent_codes. snd p = to_string (code_of c)"
  note keys = addStatusEntry_keys[OF assms(1)]
  have "\<forall>p\<in>snd ` set (status_entries proc). ?known p" using assms(3) by (fastforce simp: process_ok_def)
  then have "\<forall>p\<in>set (map snd es). ?known p" using keys assms(2) by (auto split: if_splits)
  moreover have "distinct (map snd es)" using assms(3) keys by (auto simp: process_ok_def)
  ultimately show ?thesis using assms(3) by (fastforce simp: process_ok_def)
qed

lemma process_ok_read:
  assumes "handle_read env c proc err buffer w = Inr (act, log, proc', w')" and "process_ok c proc"
  shows "process_ok c proc'"
proof (cases act)
  case (Write_response out)
  with handle_read_cases[OF assms(1)] have "err = No_error" by simp
  with assms(1) Write_response
  have "handle_read env c proc No_error buffer w = Inr (Write_response out, log, proc', w')" by simp
  from handle_read_Write[OF this] obtain req d proc1 r log1 code es where
    "request_handler (env_split env) buffer = Inr req" and
    d: "new_Dispatcher c proc = Inr (d, proc1)"
    and r: "generateResponse env d proc1 req w = Inr (r, log1, w')" "getStatusCode r = Inr code"
    and es: "addStatusEntry (req_uri_path req) (to_string (code_of code)) (status_entries proc1) = Inr es"
      "proc' = proc1\<lparr>status_entries := es\<rparr>"
    by blast
  from generateResponse_InrD[OF r(1)] r(2) have "code \<in> sent_codes"
    by (auto simp: getStatusCode_def intro: HandleRequest_status split: option.splits)
  then show ?thesis using process_ok_add[OF es(1)] es(2) process_ok_new_Dispatcher[OF d assms(2)] by simp
qed (use handle_read_cases[OF assms(1)] assms(2) in auto)

lemma process_ok_run: "server_run env c w evs s \<Longrightarrow> process_ok c (srv_proc s)"
proof (induction rule: server_run.induct)
  case start
  show ?case by (simp add: new_server_def process_ok_def)
next
  case (step evs s ev s')
  from step.hyps(2) step.IH show ?case
  proof cases
    case (read i err buffer act log proc w)
    with step.IH process_ok_read[OF read(7)] show ?thesis
      by (auto simp: after_read_def split: session_action.splits)
  qed (auto simp: after_write_def split: write_action.splits)
qed

section \<open>A callback always completes\<close>

text \<open>The next state after a read, as a function: the step relation leaves no choice.\<close>

definition read_result :: "'w env \<Rightarrow> config \<Rightarrow> nat \<Rightarrow> io_error \<Rightarrow> string \<Rightarrow> 'w server \<Rightarrow> 'w server" where
  "read_result env config i err buffer s =
     (case handle_read env config (srv_proc s) err buffer (srv_world s) of
        Inl e \<Rightarrow> s\<lparr>srv_state := run_state_of e\<rparr>
      | Inr (act, log, proc, w) \<Rightarrow>
          after_read i act (s\<lparr>srv_proc := proc, srv_world := w, srv_log := srv_log s @ log\<rparr>))"

lemma read_step_iff:
  assumes "srv_state s = Running" and "i < length (srv_conns s)" and "srv_conns s ! i = Reading"
    and "err = No_error \<longrightarrow> str_find buffer (crlf @ crlf) \<noteq> None"
  shows "server_step env config (Read i err buffer) s s' \<longleftrightarrow> s' = read_result env config i err buffer s"
proof
  assume "server_step env config (Read i err buffer) s s'"
  then show "s' = read_result env config i err buffer s"
    by cases (simp_all add: read_result_def)
next
  assume s': "s' = read_result env config i err buffer s"
  show "server_step env config (Read i err buffer) s s'"
  proof (cases "handle_read env config (srv_proc s) err buffer (srv_world s)")
    case (Inl e)
    with server_step.read_fault[OF assms Inl] s' show ?thesis by (simp add: read_result_def)
  next
    case (Inr r)
    obtain act log proc w where "r = (act, log, proc, w)" by (cases r)
    with server_step.read[OF assms, of env config act log proc w] Inr s' show ?thesis
      by (simp add: read_result_def)
  qed
qed

text \<open>Short runs.\<close>

lemma accept_run:
  "server_run env c w evs s \<Longrightarrow> srv_state s = Running \<Longrightarrow>
   server_run env c w (evs @ [Accept No_error]) (s\<lparr>srv_conns := srv_conns s @ [Reading]\<rparr>)"
  using server_run.step[OF _ server_step.accept, of env c w evs s No_error]
  by (simp add: handle_accept_def session_start_def)

lemma accepted_run:
  "server_run env config w [Accept No_error] ((new_server w)\<lparr>srv_conns := [Reading]\<rparr>)"
  using accept_run[OF server_run.start, of w env config] by (simp add: new_server_def)

lemma read_run:
  assumes "str_find buffer (crlf @ crlf) \<noteq> None"
  shows "\<exists>s. server_run env config w [Accept No_error, Read 0 No_error buffer] s"
proof -
  let ?s = "(new_server w)\<lparr>srv_conns := [Reading]\<rparr>"
  have "server_step env config (Read 0 No_error buffer) ?s (read_result env config 0 No_error buffer ?s)"
    using assms read_step_iff[of ?s 0 No_error buffer] by (simp add: new_server_def)
  from server_run.step[OF accepted_run this] show ?thesis by auto
qed

lemma answered_run:
  assumes "str_find buffer (crlf @ crlf) \<noteq> None"
    and "handle_read env config \<lparr>status_entries = [], url_handlers = []\<rparr> No_error buffer w =
      Inr (Write_response out, log, proc, w')"
  shows "server_run env config w [Accept No_error, Read 0 No_error buffer]
    \<lparr>srv_conns = [Writing out], srv_proc = proc, srv_world = w', srv_log = log, srv_state = Running\<rparr>"
proof -
  let ?s = "(new_server w)\<lparr>srv_conns := [Reading]\<rparr>"
  have "server_step env config (Read 0 No_error buffer) ?s (read_result env config 0 No_error buffer ?s)"
    using assms(1) read_step_iff[of ?s 0 No_error buffer] by (simp add: new_server_def)
  from server_run.step[OF accepted_run this] assms(2) show ?thesis
    by (simp add: read_result_def new_server_def after_read_def)
qed

lemma failed_run:
  assumes "str_find buffer (crlf @ crlf) \<noteq> None"
    and "handle_read env config \<lparr>status_entries = [], url_handlers = []\<rparr> No_error buffer w = Inl e"
  shows "\<exists>s. server_run env config w [Accept No_error, Read 0 No_error buffer] s \<and> srv_state s = run_state_of e"
proof -
  let ?s = "(new_server w)\<lparr>srv_conns := [Reading]\<rparr>"
  have "server_step env config (Read 0 No_error buffer) ?s (read_result env config 0 No_error buffer ?s)"
    using assms(1) read_step_iff[of ?s 0 No_error buffer] by (simp add: new_server_def)
  from server_run.step[OF accepted_run this] assms(2) show ?thesis
    by (fastforce simp: read_result_def new_server_def)
qed

end
