(* ===== verification/Server_Main.thy ===== *)
theory Server_Main
  imports Session
begin

text \<open>
  \<^verbatim>\<open>src/server_main.cc\<close>: the set-up of the log, and \<^verbatim>\<open>main\<close> from its arguments to its exit code,
  around the runs of the server.
\<close>

section \<open>The log\<close>

text \<open>\<^verbatim>\<open>boost::log::trivial::severity_level\<close>, in its order.\<close>

datatype severity = Trace | Debug | Info | Warning | Failed | Fatal

fun severity_text :: "severity \<Rightarrow> string" where
  "severity_text Trace = ''trace''"
| "severity_text Debug = ''debug''"
| "severity_text Info = ''info''"
| "severity_text Warning = ''warning''"
| "severity_text Failed = ''error''"
| "severity_text Fatal = ''fatal''"

definition severity_level :: "severity \<Rightarrow> nat" where
  "severity_level s = (case s of Trace \<Rightarrow> 0 | Debug \<Rightarrow> 1 | Info \<Rightarrow> 2 | Warning \<Rightarrow> 3 | Failed \<Rightarrow> 4 | Fatal \<Rightarrow> 5)"

lemma severity_level_inject: "severity_level s = severity_level t \<longleftrightarrow> s = t"
  by (cases s; cases t) (simp_all add: severity_level_def)

instantiation severity :: linorder
begin

definition less_eq_severity :: "severity \<Rightarrow> severity \<Rightarrow> bool" where
  "s \<le> t \<longleftrightarrow> severity_level s \<le> severity_level t"

definition less_severity :: "severity \<Rightarrow> severity \<Rightarrow> bool" where
  "s < t \<longleftrightarrow> severity_level s < severity_level t"

instance
  by standard (auto simp: less_eq_severity_def less_severity_def severity_level_inject)

end

text \<open>A log record, with the time as the library keeps it, and the sink \<^verbatim>\<open>init\<close> adds.\<close>

record 't log_record =
  rec_time :: 't
  rec_thread :: string
  rec_severity :: severity
  rec_message :: string

record 't log_sink =
  sink_file_name :: string
  sink_rotation_size :: nat
  sink_rotation_time :: "nat \<times> nat \<times> nat"
  sink_format :: "(string \<Rightarrow> 't \<Rightarrow> string) \<Rightarrow> 't log_record \<Rightarrow> string"
  sink_auto_flush :: bool

text \<open>The format expression of \<^verbatim>\<open>init\<close>, over \<^verbatim>\<open>format_date_time\<close> of the library.\<close>

definition format_record :: "(string \<Rightarrow> 't \<Rightarrow> string) \<Rightarrow> 't log_record \<Rightarrow> string" where
  "format_record date r =
     date ''%Y-%m-%d %H:%M:%S'' (rec_time r) @ [CHR 0x09] @ ''| '' @
     rec_thread r @ [CHR 0x09] @ ''| '' @
     severity_text (rec_severity r) @ [CHR 0x09] @ ''| '' @
     rec_message r"

text \<open>\<^verbatim>\<open>init\<close>: the sink and the filter of the core.\<close>

definition init :: "'t log_sink \<times> ('t log_record \<Rightarrow> bool)" where
  "init =
     (\<lparr>sink_file_name = ''../logs/server_%Y-%m-%d_%H-%M-%S.%N.log'',
       sink_rotation_size = 10 * 1024 * 1024,
       sink_rotation_time = (0, 0, 0),
       sink_format = format_record,
       sink_auto_flush = True\<rparr>,
      \<lambda>r. Trace \<le> rec_severity r)"

text \<open>What reaches the files: the records the filter lets through, formatted.\<close>

definition logged :: "(string \<Rightarrow> 't \<Rightarrow> string) \<Rightarrow> 't log_record list \<Rightarrow> string list" where
  "logged date rs = map (sink_format (fst init) date) (filter (snd init) rs)"

lemma nothing_is_filtered: "logged date rs = map (format_record date) rs"
proof -
  have "Trace \<le> s" for s by (simp add: less_eq_severity_def severity_level_def)
  then show ?thesis by (simp add: logged_def init_def)
qed

section \<open>The start of the program\<close>

text \<open>
  \<^verbatim>\<open>main\<close> up to \<^verbatim>\<open>io_service.run()\<close>: the exit with a code and a message, or the port and the
  configuration the server starts with. The port is narrowed to \<^verbatim>\<open>short\<close> for the server and
  read as an unsigned number by the endpoint.
\<close>

datatype start_result = Exit_code nat string | Serve "16 word" config

definition main_start :: "(string \<Rightarrow> string option) \<Rightarrow> string list \<Rightarrow> start_result res" where
  "main_start fs argv =
     (if length argv \<noteq> 2 then Inr (Exit_code 1 ''Usage: server_main <config>'')
      else
        bind_res (vec_at argv 1) (\<lambda>file_name.
        bind_res (Parse_file fs file_name []) (\<lambda>(parsed, config).
        if \<not> parsed then Inr (Exit_code 1 ''Bad config file'')
        else
          bind_res (GetPort config) (\<lambda>port.
          if port = 0 then Inr (Exit_code 1 ''No port specified'')
          else Inr (Serve (word_of_int port) config)))))"

section \<open>The whole program\<close>

text \<open>
  \<^verbatim>\<open>std::exception\<close>, which \<^verbatim>\<open>main\<close> catches; \<open>what\<close> is its text. What is caught is reported, and
  the exit code is that of the last line.
\<close>

definition is_exception :: "fault \<Rightarrow> bool" where
  "is_exception e \<longleftrightarrow> e \<noteq> Undefined \<and> e \<noteq> Diverges"

definition exception_line :: "(fault \<Rightarrow> string) \<Rightarrow> fault \<Rightarrow> string" where
  "exception_line what e = ''Exception: '' @ what e @ [CHR 0x0A]"

text \<open>The program has exited with a code and what it wrote to the error stream, or it is at work.\<close>

datatype 'w program = Exited nat string | Serving "'w server"

text \<open>
  The constructor of \<^verbatim>\<open>server\<close>: it opens the acceptor on the port (\<open>listen\<close>, which may throw) and
  waits for a connection.
\<close>

definition start_server :: "(16 word \<Rightarrow> 'w \<Rightarrow> 'w res) \<Rightarrow> 16 word \<Rightarrow> 'w \<Rightarrow> 'w server res" where
  "start_server listen port w = bind_res (listen port w) (\<lambda>w. Inr (new_server w))"

text \<open>
  \<^verbatim>\<open>main\<close>: the exits before the server, the constructor, and the runs of the I/O service, which
  an exception of a callback leaves.
\<close>

definition after_run :: "(fault \<Rightarrow> string) \<Rightarrow> 'w server \<Rightarrow> 'w program" where
  "after_run what s = (case srv_state s of
     Ended e \<Rightarrow> Exited 0 (exception_line what e)
   | Stopped \<Rightarrow> Exited 0 []
   | _ \<Rightarrow> Serving s)"

inductive program_run ::
  "'w env \<Rightarrow> (16 word \<Rightarrow> 'w \<Rightarrow> 'w res) \<Rightarrow> (fault \<Rightarrow> string) \<Rightarrow> (string \<Rightarrow> string option) \<Rightarrow> string list \<Rightarrow> 'w \<Rightarrow>
   event list \<Rightarrow> 'w program \<Rightarrow> bool"
  for env listen what fs argv w where
  refused: "main_start fs argv = Inr (Exit_code n msg) \<Longrightarrow>
    program_run env listen what fs argv w [] (Exited n (msg @ [CHR 0x0A]))"
| start_fault: "main_start fs argv = Inl e \<Longrightarrow> is_exception e \<Longrightarrow>
    program_run env listen what fs argv w [] (Exited 0 (exception_line what e))"
| no_port: "main_start fs argv = Inr (Serve port c) \<Longrightarrow> start_server listen port w = Inl e \<Longrightarrow> is_exception e \<Longrightarrow>
    program_run env listen what fs argv w [] (Exited 0 (exception_line what e))"
| serves: "main_start fs argv = Inr (Serve port c) \<Longrightarrow> start_server listen port w = Inr s0 \<Longrightarrow>
    server_run env c (srv_world s0) evs s \<Longrightarrow>
    program_run env listen what fs argv w evs (after_run what s)"

inductive_cases program_runE: "program_run env listen what fs argv w evs p"

text \<open>
  What the program refuses, and with which message: other than two arguments, a file that cannot be
  read or whose tokens are those of no tree, and a tree in whose text the value of \<^verbatim>\<open>listen\<close> is no
  number or zero.
\<close>

definition configures :: "string \<Rightarrow> config \<Rightarrow> bool" where
  "configures input c \<longleftrightarrow> c \<noteq> [] \<and> list_all printable c \<and> (\<exists>w. tokenize input = flats c @ [(TOKEN_TYPE_EOF, w)])"

inductive start_refused :: "(string \<Rightarrow> string option) \<Rightarrow> string list \<Rightarrow> string \<Rightarrow> bool" for fs where
  wrong_arguments: "length argv \<noteq> 2 \<Longrightarrow> start_refused fs argv ''Usage: server_main <config>''"
| no_file: "fs name = None \<Longrightarrow> start_refused fs [prog, name] ''Bad config file''"
| no_tree: "fs name = Some input \<Longrightarrow> \<forall>c. \<not> configures input c \<Longrightarrow> start_refused fs [prog, name] ''Bad config file''"
| no_port: "fs name = Some input \<Longrightarrow> configures input c \<Longrightarrow> atoi (c_str (port_text c)) = Inr 0 \<Longrightarrow>
    start_refused fs [prog, name] ''No port specified''"

inductive_simps start_refused_simps: "start_refused fs argv msg"

lemma Parse_cases:
  obtains (tree) c where "configures input c" "Parse input [] = Inr (Accepted, c)" "\<forall>d. configures input d \<longleftrightarrow> d = c"
    | (no_tree) r d where "r \<noteq> Accepted" "Parse input [] = Inr (r, d)" "\<forall>c. \<not> configures input c"
proof -
  have iff: "Parse input [] = Inr (Accepted, c) \<longleftrightarrow> configures input c" for c
    by (simp add: configures_def Parse_Accepted_iff)
  obtain r d where p: "Parse input [] = Inr (r, d)" using Parse_total[of "[]" input] by auto
  show ?thesis
  proof (cases "r = Accepted")
    case True
    with p iff[symmetric] show ?thesis by (intro tree[of d]) auto
  next
    case False
    with p iff[symmetric] show ?thesis by (intro no_tree[OF False p]) simp
  qed
qed

text \<open>The start of the program on two arguments, in these terms.\<close>

lemma main_start_two:
  "fs name = None \<Longrightarrow> main_start fs [prog, name] = Inr (Exit_code 1 ''Bad config file'')"
  "fs name = Some input \<Longrightarrow> \<forall>c. \<not> configures input c \<Longrightarrow>
     main_start fs [prog, name] = Inr (Exit_code 1 ''Bad config file'')"
  "fs name = Some input \<Longrightarrow> configures input c \<Longrightarrow> main_start fs [prog, name] =
     bind_res (atoi (c_str (port_text c))) (\<lambda>port.
       if port = 0 then Inr (Exit_code 1 ''No port specified'') else Inr (Serve (word_of_int port) c))"
proof -
  show "fs name = None \<Longrightarrow> main_start fs [prog, name] = Inr (Exit_code 1 ''Bad config file'')"
    by (simp add: main_start_def vec_at_Cons Parse_file_def)
  show "fs name = Some input \<Longrightarrow> \<forall>c. \<not> configures input c \<Longrightarrow>
     main_start fs [prog, name] = Inr (Exit_code 1 ''Bad config file'')"
    by (rule Parse_cases[of input]) (simp_all add: main_start_def vec_at_Cons Parse_file_def)
  show "fs name = Some input \<Longrightarrow> configures input c \<Longrightarrow> main_start fs [prog, name] =
     bind_res (atoi (c_str (port_text c))) (\<lambda>port.
       if port = 0 then Inr (Exit_code 1 ''No port specified'') else Inr (Serve (word_of_int port) c))"
    by (rule Parse_cases[of input]) (auto simp: main_start_def vec_at_Cons Parse_file_def GetPort_eq)
qed

lemma argv_cases:
  obtains "length argv \<noteq> 2" | prog name where "argv = [prog, name]"
proof (cases "length argv = 2")
  case True
  then obtain prog name where "argv = [prog, name]" by (auto simp: length_Suc_conv eval_nat_numeral)
  then show ?thesis by (rule that(2))
qed (rule that(1))

lemma main_start_exit: "main_start fs argv = Inr (Exit_code n msg) \<longleftrightarrow> n = 1 \<and> start_refused fs argv msg"
proof (cases argv rule: argv_cases)
  case 1
  then show ?thesis by (auto simp: main_start_def start_refused_simps)
next
  case (2 prog name)
  show ?thesis
  proof (cases "fs name")
    case None
    with 2 show ?thesis by (auto simp: main_start_two(1) start_refused_simps)
  next
    case (Some input)
    show ?thesis
    proof (cases rule: Parse_cases[of input])
      case (tree c)
      have "start_refused fs argv msg \<longleftrightarrow> msg = ''No port specified'' \<and> atoi (c_str (port_text c)) = Inr 0"
        using 2 Some tree(3) by (auto simp: start_refused_simps)
      with 2 main_start_two(3)[where fs = fs and name = name and c = c, OF Some tree(1)] show ?thesis
        by (cases "atoi (c_str (port_text c))") auto
    next
      case no_tree
      then have "start_refused fs argv msg \<longleftrightarrow> msg = ''Bad config file''"
        using 2 Some by (auto simp: start_refused_simps)
      with 2 main_start_two(2)[where fs = fs and name = name, OF Some no_tree(3)] show ?thesis by auto
    qed
  qed
qed

text \<open>The start throws nothing; a port that is no \<^verbatim>\<open>int\<close> is undefined behaviour of \<^verbatim>\<open>atoi\<close>.\<close>

lemma main_start_fault: "main_start fs argv = Inl e \<Longrightarrow> e = Undefined"
proof (cases argv rule: argv_cases)
  case (2 prog name)
  assume e: "main_start fs argv = Inl e"
  show ?thesis
  proof (cases "fs name")
    case (Some input)
    show ?thesis
    proof (cases rule: Parse_cases[of input])
      case (tree c)
      with e 2 main_start_two(3)[where fs = fs and name = name and c = c, OF Some tree(1)] have "atoi (c_str (port_text c)) = Inl e"
        by (cases "atoi (c_str (port_text c))") (auto split: if_splits)
      then show ?thesis by (auto simp: atoi_def split: option.splits if_splits)
    next
      case no_tree
      with e 2 main_start_two(2)[where fs = fs and name = name, OF Some no_tree(3)] show ?thesis by simp
    qed
  qed (use e 2 main_start_two(1) in simp)
qed (simp add: main_start_def)

lemma ended_by_exception: "server_run env c w evs s \<Longrightarrow> srv_state s = Ended e \<Longrightarrow> is_exception e"
proof (induction rule: server_run.induct)
  case (step evs s ev s')
  from step.hyps(2) step.prems running_before[OF step.hyps(2)] show ?case
    by cases (auto simp: after_read_def after_write_def run_state_of_def is_exception_def
        split: session_action.splits write_action.splits fault.splits)
qed (simp add: new_server_def)

lemma never_stopped: "server_run env c w evs s \<Longrightarrow> srv_state s \<noteq> Stopped"
proof (induction rule: server_run.induct)
  case (step evs s ev s')
  from step.hyps(2) running_before[OF step.hyps(2)] show ?case
    by cases (auto simp: after_read_def after_write_def run_state_of_def
        split: session_action.splits write_action.splits fault.splits)
qed (simp add: new_server_def)

lemma started_run:
  assumes "main_start fs argv = Inr (Serve port c)" and "listen port w = Inr w'" and "server_run env c w' evs s"
  shows "program_run env listen what fs argv w evs (after_run what s)"
proof -
  have "start_server listen port w = Inr (new_server w')" using assms(2) by (simp add: start_server_def)
  moreover have "server_run env c (srv_world (new_server w')) evs s" using assms(3) by (simp add: new_server_def)
  ultimately show ?thesis by (rule program_run.serves[OF assms(1)])
qed

text \<open>The start with a printed configuration.\<close>

lemma main_start_serves:
  assumes "c \<noteq> []" and "list_all printable c" and "fs name = Some (ToString 0 c)"
    and "ToString 0 c = pre @ ''listen '' @ to_string n @ '';'' @ post"
    and "\<not> sublist ''listen'' pre" and "pre = [] \<or> last pre \<notin> set ''listen''"
    and "0 < n" and "n < 2 ^ 31"
  shows "main_start fs [prog, name] = Inr (Serve (word_of_nat n) c)"
proof -
  have "GetPort c = Inr (int n)"
    using assms(4-6,8) by (intro GetPort_first[OF assms(4)] first_at_after) auto
  moreover have "Parse_file fs name [] = Inr (True, c)"
    using Parse_ToString[OF assms(1,2), of 0] assms(3) by (simp add: Parse_file_def)
  ultimately show ?thesis
    using assms(7) by (simp add: main_start_def vec_at_Cons)
qed

end
