(* ===== verification/Proxy_Remote.thy ===== *)
theory Proxy_Remote
  imports Proxy_Handler Meme_Vault
begin

text \<open>
  What the proxy makes of the answer of a remote host. The contract of the connection is the
  locale \<open>remote_host\<close>: the calls of Boost.Asio succeed and deliver the bytes the host sends, in
  portions the caller does not choose. It is interpreted on the peer of the reference
  environment, which sends a list of chunks.
\<close>

section \<open>The connection\<close>

text \<open>
  Reading up to a delimiter takes portion after portion until the buffer holds the delimiter, and
  leaves what follows the delimiter in its last portion in the buffer.
\<close>

fun read_portions :: "string \<Rightarrow> string \<Rightarrow> string list \<Rightarrow> (string \<times> string list) option" where
  "read_portions delim buf [] = (if sublist delim buf then Some (buf, []) else None)"
| "read_portions delim buf (p # ps) =
     (if sublist delim buf then Some (buf, p # ps) else read_portions delim (buf @ p) ps)"

text \<open>
  \<open>up w\<close>: the host can be reached; \<open>portions w\<close>: the bytes it sends on the connection that were
  not read yet, up to its end, in the portions in which they arrive.
\<close>

locale remote_host =
  fixes env :: "'w env" and host :: string and port :: string
    and up :: "'w \<Rightarrow> bool" and portions :: "'w \<Rightarrow> string list"
  assumes connects: "up w \<Longrightarrow> \<exists>w'. net_connect env host port w = Inr w' \<and> up w' \<and> portions w' = portions w"
    and sends: "up w \<Longrightarrow> \<exists>w'. net_write env req w = Inr w' \<and> up w' \<and> portions w' = portions w"
    and reads_until: "up w \<Longrightarrow> read_portions delim buf (portions w) = Some (buf', ps) \<Longrightarrow>
      \<exists>w'. net_read_until env buf delim w = Inr (buf', w') \<and> up w' \<and> portions w' = ps"
    and reads_all: "up w \<Longrightarrow> \<exists>w'. net_read env buf w =
      (length (concat (portions w)), buf @ concat (portions w), w') \<and> up w' \<and> concat (portions w') = []"

lemma ref_read_portions:
  "read_portions delim buf cs = Some (buf', cs') \<Longrightarrow> ref_read_until delim buf cs = Inr (buf', cs')"
proof (induction delim buf cs rule: read_portions.induct)
  case (1 delim buf)
  then show ?case using str_find_None_iff[of buf delim] by (auto split: if_splits)
next
  case (2 delim buf p ps)
  then show ?case using str_find_None_iff[of buf delim] by (auto split: if_splits)
qed

interpretation ref_remote: remote_host "ref_env files" host port "\<lambda>w. True" rw_chunks
proof (unfold_locales, goal_cases)
  case (3 w delim buf buf' ps)
  from ref_read_portions[OF 3(2)] show ?case
    by (intro exI[of _ "w\<lparr>rw_chunks := ps\<rparr>"]) (simp add: ref_env_def)
qed (simp_all add: ref_env_def)

text \<open>
  What comes with the first \<open>n\<close> bytes: the end of the portion that completes them, and the
  portions behind it.
\<close>

fun came_with :: "nat \<Rightarrow> string \<Rightarrow> string list \<Rightarrow> string \<times> string list" where
  "came_with n buf [] = (drop n buf, [])"
| "came_with n buf (p # ps) = (if n \<le> length buf then (drop n buf, p # ps) else came_with n (buf @ p) ps)"

lemma came_with_drop: "n \<le> length buf \<Longrightarrow> came_with m (drop n buf) ps = came_with (n + m) buf ps"
  by (induction "n + m" buf ps arbitrary: n rule: came_with.induct) (auto simp: add.commute)

lemma came_with_add: "came_with n buf ps = (early, qs) \<Longrightarrow> came_with (n + m) buf ps = came_with m early qs"
proof (induction n buf ps rule: came_with.induct)
  case (2 n buf p ps)
  show ?case
  proof (cases "n \<le> length buf")
    case True
    with 2(2) have "early = drop n buf" "qs = p # ps" by auto
    then show ?thesis using came_with_drop[OF True, of m "p # ps"] by (simp only:)
  next
    case False
    with 2 show ?thesis by simp
  qed
qed (auto simp: add.commute)

section \<open>The answer of the host\<close>

definition status_line :: "string \<Rightarrow> nat \<Rightarrow> string \<Rightarrow> string" where
  "status_line ver n reason = ''HTTP/'' @ ver @ '' '' @ to_string n @ '' '' @ reason @ crlf"

text \<open>
  A header line the proxy reads as it is meant: the names of the two fields it looks for occur
  in no other line, and an announced length is a number.
\<close>

definition remote_field :: "string \<times> string \<Rightarrow> bool" where
  "remote_field h \<longleftrightarrow> one_line (fst h) \<and> one_line (snd h) \<and>
     (fst h = ''Content-Length'' \<longrightarrow> (\<exists>n<2 ^ 31. snd h = to_string n)) \<and>
     (sublist ''Content-Length:'' (fst h @ '': '' @ snd h) \<longleftrightarrow> fst h = ''Content-Length'') \<and>
     (sublist ''Content-Type:'' (fst h @ '': '' @ snd h) \<longleftrightarrow> fst h = ''Content-Type'')"

text \<open>The length and the type the proxy takes from the header; the type keeps a carriage return.\<close>

fun announced :: "(string \<times> string) list \<Rightarrow> int \<Rightarrow> int" where
  "announced [] n = n"
| "announced (h # hs) n = announced hs (if fst h = ''Content-Length'' then int (dec_val (snd h)) else n)"

fun announced_type :: "(string \<times> string) list \<Rightarrow> string \<Rightarrow> string" where
  "announced_type [] ty = ty"
| "announced_type (h # hs) ty =
     announced_type hs (if fst h = ''Content-Type'' then snd h @ [CHR 0x0D] else ty)"

section \<open>Reading the header\<close>

lemma str_find_append: "str_find s p = Some i \<Longrightarrow> str_find (s @ t) p = Some i"
proof (induction s arbitrary: i)
  case Nil
  then show ?case by (auto split: if_splits)
next
  case (Cons a s)
  show ?case
  proof (cases "prefix p (a # s)")
    case True
    with Cons.prems have "i = 0" by simp
    moreover have "prefix p (a # s @ t)" using True by (metis append_Cons prefix_prefix)
    ultimately show ?thesis by simp
  next
    case False
    with Cons.prems obtain k where k: "str_find s p = Some k" "i = Suc k" by auto
    with str_find_SomeD(2)[OF k(1)] have "length p \<le> length (a # s)" by simp
    with False have "\<not> prefix p ((a # s) @ t)"
      using prefix_length_prefix[OF _ prefixI[OF refl], of p "a # s" t] by blast
    with Cons.IH[OF k(1)] k show ?thesis by simp
  qed
qed

text \<open>A buffer holds the delimiter once it reaches behind the first occurrence.\<close>

lemma delimiter_in:
  assumes "str_find (buf @ r) delim = Some i"
  shows "sublist delim buf \<longleftrightarrow> i + length delim \<le> length buf"
proof
  assume "sublist delim buf"
  then obtain j where j: "str_find buf delim = Some j" using str_find_None_iff by blast
  with str_find_append[OF j, of r] assms have "j = i" by simp
  with str_find_SomeD(2)[OF j] show "i + length delim \<le> length buf" by simp
next
  assume le: "i + length delim \<le> length buf"
  have "take (i + length delim) (buf @ r) = take i (buf @ r) @ delim"
    by (subst str_find_SomeD(1)[OF assms]) (use le in simp)
  then have "buf = take i buf @ delim @ drop (i + length delim) buf"
    using le append_take_drop_id[of "i + length delim" buf] by simp
  then show "sublist delim buf" by (metis sublist_appendI)
qed

lemma read_portions_found:
  assumes "str_find (buf @ concat ps) delim = Some i" and "came_with (i + length delim) buf ps = (early, qs)"
  shows "read_portions delim buf ps = Some (take (i + length delim) (buf @ concat ps) @ early, qs) \<and>
    early @ concat qs = drop (i + length delim) (buf @ concat ps)"
  using assms
proof (induction delim buf ps rule: read_portions.induct)
  case (1 delim buf)
  then show ?case using delimiter_in[of buf "[]" delim i] str_find_SomeD(2)[of buf delim i] by auto
next
  case (2 delim buf p ps)
  then show ?case using delimiter_in[OF 2(2)] by (auto split: if_splits)
qed

lemma sublist_snoc_other:
  assumes "p \<noteq> []" and "last p \<noteq> c"
  shows "sublist p (s @ [c]) \<longleftrightarrow> sublist p s"
proof
  assume "sublist p (s @ [c])"
  then obtain u v where uv: "s @ [c] = u @ p @ v" by (auto simp: sublist_def)
  show "sublist p s"
  proof (cases v rule: rev_cases)
    case Nil
    with uv have "last (s @ [c]) = last p" using assms(1) by simp
    with assms(2) show ?thesis by simp
  next
    case (snoc v' d)
    with uv have "s = u @ p @ v'" by simp
    then show ?thesis by (simp add: sublist_appendI)
  qed
next
  assume "sublist p s"
  then obtain u v where "s = u @ p @ v" by (auto simp: sublist_def)
  then show "sublist p (s @ [c])" by (simp add: sublist_appendI)
qed

lemma is_fail_new [simp]: "is_fail (new_stream r) = False" "is_buf (new_stream r) = r"
  by (simp_all add: new_stream_def)

lemma read_header_line:
  assumes "remote_field h"
  shows "read_headers l (new_stream (field h @ r)) n [(''Content-Type'', ty)] =
    read_headers (fst h @ '': '' @ snd h @ [CHR 0x0D]) (new_stream r) (announced [h] n)
      [(''Content-Type'', announced_type [h] ty)]"
proof -
  define line where "line = (fst h @ '': '' @ snd h) @ [CHR 0x0D]"
  have "getline l (new_stream (line @ CHR 0x0A # r)) = (line, new_stream r)"
    using assms by (intro getline_line) (auto simp: line_def remote_field_def one_line_def)
  then have get: "getline l (new_stream (field h @ r)) = (line, new_stream r)"
    by (simp add: field_def crlf_def line_def)
  have find: "str_find line ''Content-Length:'' = None \<longleftrightarrow> fst h \<noteq> ''Content-Length''"
    "str_find line ''Content-Type:'' = None \<longleftrightarrow> fst h \<noteq> ''Content-Type''"
    using assms unfolding str_find_None_iff line_def
    by (subst sublist_snoc_other; simp add: remote_field_def)+
  have len: "fst h = ''Content-Length'' \<Longrightarrow> bind_res (substr line 16 (-1)) stoi = Inr (int (dec_val (snd h)))"
    using assms by (auto simp: line_def remote_field_def substr_def stoi_to_string is_digit_def)
  have type: "fst h = ''Content-Type'' \<Longrightarrow> substr line 14 (-1) = Inr (snd h @ [CHR 0x0D])"
    by (simp add: line_def substr_def)
  have "line \<noteq> [CHR 0x0D]" by (simp add: line_def)
  then have "read_headers l (new_stream (field h @ r)) n [(''Content-Type'', ty)] =
      read_headers line (new_stream r) (announced [h] n) [(''Content-Type'', announced_type [h] ty)]"
    by (subst read_headers.simps)
      (cases "fst h = ''Content-Length''"; cases "fst h = ''Content-Type''"; simp add: get find len type del: not_None_eq)
  then show ?thesis by (simp add: line_def)
qed

text \<open>The loop over the lines up to the empty one.\<close>

lemma read_header_lines:
  "list_all remote_field hs \<Longrightarrow>
   read_headers l (new_stream (concat (map field hs) @ crlf @ r)) n [(''Content-Type'', ty)] =
   Inr (new_stream r, announced hs n, [(''Content-Type'', announced_type hs ty)])"
proof (induction hs arbitrary: l n ty)
  case Nil
  have "getline l (new_stream ([CHR 0x0D] @ CHR 0x0A # r)) = ([CHR 0x0D], new_stream r)"
    by (rule getline_line) simp
  then have "getline l (new_stream (crlf @ r)) = ([CHR 0x0D], new_stream r)" by (simp add: crlf_def)
  then show ?case by (subst read_headers.simps) simp
next
  case (Cons h hs)
  then show ?case using read_header_line[of h l "concat (map field hs) @ crlf @ r" n ty] by simp
qed

section \<open>The exchange\<close>

lemma read_status_line:
  assumes "\<forall>c\<in>set ver. \<not> is_space c" and "one_line reason" and "n < 2 ^ 32"
  shows "read_word [] (new_stream (status_line ver n reason @ r)) =
      (''HTTP/'' @ ver, new_stream ('' '' @ to_string n @ '' '' @ reason @ crlf @ r))"
    and "read_unsigned (new_stream ('' '' @ to_string n @ '' '' @ reason @ crlf @ r)) =
      (of_nat n, new_stream ('' '' @ reason @ crlf @ r))"
    and "getline [] (new_stream ('' '' @ reason @ crlf @ r)) = ('' '' @ reason @ [CHR 0x0D], new_stream r)"
proof -
  have "\<forall>c\<in>set (''HTTP/'' @ ver). \<not> is_space c" using assms(1) by (simp add: is_space_def)
  then show "read_word [] (new_stream (status_line ver n reason @ r)) =
      (''HTTP/'' @ ver, new_stream ('' '' @ to_string n @ '' '' @ reason @ crlf @ r))"
    using read_word_word[of "''HTTP/'' @ ver" "CHR '' ''" "[]" "to_string n @ '' '' @ reason @ crlf @ r"]
    by (simp add: status_line_def is_space_def)
  show "read_unsigned (new_stream ('' '' @ to_string n @ '' '' @ reason @ crlf @ r)) =
      (of_nat n, new_stream ('' '' @ reason @ crlf @ r))"
    using read_unsigned_number[OF assms(3), of "CHR '' ''" "reason @ crlf @ r"] by (simp add: is_digit_def)
  show "getline [] (new_stream ('' '' @ reason @ crlf @ r)) = ('' '' @ reason @ [CHR 0x0D], new_stream r)"
    using getline_line[of "'' '' @ reason @ [CHR 0x0D]" "[]" r] assms(2) by (simp add: crlf_def one_line_def)
qed

lemma status_line_end:
  assumes "\<forall>c\<in>set ver. \<not> is_space c" and "one_line reason"
  shows "str_find (status_line ver n reason @ r) crlf = Some (length (status_line ver n reason) - 2)"
proof -
  let ?l = "''HTTP/'' @ ver @ '' '' @ to_string n @ '' '' @ reason"
  have "CHR 0x0D \<notin> set ver" using assms(1) by (auto simp: is_space_def)
  then have "CHR 0x0D \<notin> set ?l" using assms(2) one_line_to_string[of n] by (simp add: one_line_def)
  from str_find_skip_hd[OF this, of "crlf @ r" "[CHR 0x0A]"] show ?thesis
    by (simp add: status_line_def crlf_def)
qed

lemma header_end:
  assumes "hs \<noteq> []" and "list_all remote_field hs"
  shows "str_find (concat (map field hs) @ crlf @ b) (crlf @ crlf) = Some (length (concat (map field hs)) - 2)"
    and "2 \<le> length (concat (map field hs))"
proof -
  let ?ls = "map (\<lambda>h. fst h @ '': '' @ snd h) hs"
  have "concat (map (\<lambda>l. l @ crlf) ?ls) = concat (map field hs)"
    by (simp add: comp_def field_def[abs_def])
  moreover have "\<forall>l\<in>set ?ls. one_line l \<and> l \<noteq> []"
    using assms(2) by (auto simp: list_all_iff remote_field_def)
  ultimately show "str_find (concat (map field hs) @ crlf @ b) (crlf @ crlf) =
      Some (length (concat (map field hs)) - 2)"
    using blank_line_found[of ?ls b] assms(1) by simp
  show "2 \<le> length (concat (map field hs))"
    using assms(1) by (cases hs) (simp_all add: field_def crlf_def)
qed

text \<open>
  The body the proxy sends when \<open>early\<close> came with the header and \<open>late\<close> after it. What came
  early is there twice, unless it has the announced length (then the rest is not read at all).
\<close>

definition sent_body :: "int \<Rightarrow> string \<Rightarrow> string \<Rightarrow> string" where
  "sent_body k early late =
     (if int (length early) = k \<or> late = [] then early else early @ early @ late)"

context remote_host
begin

lemma HTTPRequest_start:
  assumes "up w" and "concat (portions w) = status_line ver n reason @ r"
    and "\<forall>c\<in>set ver. \<not> is_space c" and "one_line reason" and "n < 2 ^ 32"
    and "ph_host h = host" and "ph_port h = port"
    and "came_with (length (status_line ver n reason)) [] (portions w) = (early, ps)"
  shows "\<exists>w'. up w' \<and> portions w' = ps \<and> early @ concat ps = r \<and> HTTPRequest env h w =
    (if n \<noteq> 200 then Inr ([(''Body'', ''Response returned with status code '' @ to_string n @ [CHR 0x0A]),
                          (''Content-Type'', ''text/plain'')], w')
     else bind_res (net_read_until env early (crlf @ crlf) w') (\<lambda>(response, w).
       bind_res (read_headers [] (new_stream response) (-1) [(''Content-Type'', ''text/plain'')])
         (\<lambda>(st, k, m). proxy_body env h (is_buf st) k m w)))"
proof -
  let ?line = "status_line ver n reason"
  obtain w1 where w1: "net_connect env host port w = Inr w1" "up w1" "portions w1 = portions w"
    using connects[OF assms(1)] by blast
  obtain w2 where w2: "net_write env (proxy_request h) w1 = Inr w2" "up w2" "portions w2 = portions w"
    using sends[OF w1(2), of "proxy_request h"] w1(3) by auto
  have len: "length ?line - 2 + length crlf = length ?line" by (simp add: status_line_def crlf_def)
  have "str_find ([] @ concat (portions w)) crlf = Some (length ?line - 2)"
    using status_line_end[OF assms(3,4), of n r] assms(2) by simp
  from read_portions_found[OF this, unfolded len, OF assms(8)]
  have read: "read_portions crlf [] (portions w2) = Some (?line @ early, ps)" and early: "early @ concat ps = r"
    using w2(3) assms(2) by simp_all
  from reads_until[OF w2(2) read] obtain w3 where
    w3: "net_read_until env [] crlf w2 = Inr (?line @ early, w3)" "up w3" "portions w3 = ps" by blast
  have code: "unat (of_nat n :: 32 word) = n"
    using assms(5) by (simp add: unat_of_nat)
  moreover have "unat (200 :: 32 word) = 200" by simp
  ultimately have word: "(of_nat n :: 32 word) = 200 \<longleftrightarrow> n = 200"
    by (metis of_nat_numeral)
  show ?thesis
    using w1 w2 w3 early read_status_line[OF assms(3-5), of early] word code
    by (intro exI[of _ w3]) (simp add: HTTPRequest_def assms(6,7) new_stream_def)
qed

lemma proxy_body_read:
  assumes "up w"
  shows "\<exists>w'. proxy_body env h early k [(''Content-Type'', ty)] w =
    Inr ([(''Body'', HTMLFilter (ph_host h) (sent_body k early (concat (portions w))) ty), (''Content-Type'', ty)], w')"
proof -
  let ?late = "concat (portions w)"
  obtain w1 where w1: "net_read env early w = (length ?late, early @ ?late, w1)" "up w1" "concat (portions w1) = []"
    using reads_all[OF assms, of early] by blast
  obtain w2 where w2: "net_read env (early @ ?late) w1 = (0, early @ ?late, w2)"
    using reads_all[OF w1(2), of "early @ ?late"] unfolding w1(3) by auto
  have "\<exists>w'. read_rest env early early w = Some (if ?late = [] then early else early @ early @ ?late, w')"
    using w1(1) w2
    by (subst read_rest.simps, cases "?late = []") (simp_all add: read_rest.simps[of env "early @ ?late"] del: concat_eq_Nil_conv)
  then show ?thesis
    by (auto simp: proxy_body_def sent_body_def Let_def map_index_def)
qed

lemma ProxyHandler_forwards:
  assumes "up w" and "concat (portions w) = status_line ver 200 reason @ concat (map field hs) @ crlf @ body"
    and "\<forall>c\<in>set ver. \<not> is_space c" and "one_line reason" and "hs \<noteq> []" and "list_all remote_field hs"
    and "ph_host h = host" and "ph_port h = port"
    and "came_with (length (status_line ver 200 reason @ concat (map field hs) @ crlf)) [] (portions w) = (early, late)"
  shows "\<exists>w'. ProxyHandler_HandleRequest env h q w =
    Inr (build_response MOVED_TEMPORARILY (announced_type hs ''text/plain'')
           (HTMLFilter host (sent_body (announced hs (-1)) early (concat late)) (announced_type hs ''text/plain'')),
         [''::HandlerMetrics:: handler:proxy'', ''::ResponseMetrics:: response_code:302''], w')"
proof -
  let ?head = "concat (map field hs)" and ?m = "[(''Content-Type'', ''text/plain'')]"
  have "(200 :: nat) < 2 ^ 32" by simp
  moreover obtain b1 ps where b1: "came_with (length (status_line ver 200 reason)) [] (portions w) = (b1, ps)"
    by fastforce
  ultimately obtain w1 where
    w1: "up w1" "portions w1 = ps" "b1 @ concat ps = ?head @ crlf @ body" and request: "HTTPRequest env h w =
      bind_res (net_read_until env b1 (crlf @ crlf) w1) (\<lambda>(response, w).
      bind_res (read_headers [] (new_stream response) (-1) ?m) (\<lambda>(st, k, m). proxy_body env h (is_buf st) k m w))"
    using HTTPRequest_start[OF assms(1-4) _ assms(7,8)] by fastforce
  note found = header_end[OF assms(5,6)]
  have len: "length ?head - 2 + length (crlf @ crlf) = length (?head @ crlf)"
    using found(2) by (simp add: crlf_def)
  have "came_with (length (?head @ crlf)) b1 ps = (early, late)"
    using came_with_add[OF b1, of "length (?head @ crlf)"] assms(9) by simp
  moreover have "str_find (b1 @ concat ps) (crlf @ crlf) = Some (length ?head - 2)"
    using found(1)[of body] w1(3) by simp
  ultimately have "read_portions (crlf @ crlf) b1 ps = Some ((?head @ crlf) @ early, late)"
    using read_portions_found[of b1 ps "crlf @ crlf" "length ?head - 2" early late] unfolding len w1(3) by simp
  from reads_until[OF w1(1), unfolded w1(2), OF this] obtain w2 where
    w2: "net_read_until env b1 (crlf @ crlf) w1 = Inr ((?head @ crlf) @ early, w2)" "up w2" "portions w2 = late" by blast
  obtain w3 where "proxy_body env h early (announced hs (-1)) [(''Content-Type'', announced_type hs ''text/plain'')] w2 =
      Inr ([(''Body'', HTMLFilter host (sent_body (announced hs (-1)) early (concat late))
        (announced_type hs ''text/plain'')), (''Content-Type'', announced_type hs ''text/plain'')], w3)"
    using proxy_body_read[OF w2(2)] w2(3) assms(7) by blast
  with request w2(1) read_header_lines[OF assms(6), of "[]" early "-1" "''text/plain''"]
  have "HTTPRequest env h w = Inr ([(''Body'', HTMLFilter host (sent_body (announced hs (-1)) early (concat late))
        (announced_type hs ''text/plain'')), (''Content-Type'', announced_type hs ''text/plain'')], w3)"
    by simp
  then show ?thesis by (simp add: ProxyHandler_response map_index_def)
qed

lemma ProxyHandler_refused:
  assumes "up w" and "concat (portions w) = status_line ver n reason @ r"
    and "\<forall>c\<in>set ver. \<not> is_space c" and "one_line reason" and "n < 2 ^ 32" and "n \<noteq> 200"
    and "ph_host h = host" and "ph_port h = port"
  shows "\<exists>w'. ProxyHandler_HandleRequest env h q w =
    Inr (build_response MOVED_TEMPORARILY ''text/plain''
           (''Response returned with status code '' @ to_string n @ [CHR 0x0A]),
         [''::HandlerMetrics:: handler:proxy'', ''::ResponseMetrics:: response_code:302''], w')"
proof -
  obtain early ps where "came_with (length (status_line ver n reason)) [] (portions w) = (early, ps)" by fastforce
  from HTTPRequest_start[OF assms(1-5,7,8) this] assms(6) show ?thesis
    by (auto simp: ProxyHandler_response map_index_def)
qed

end

section \<open>Properties\<close>

text \<open>C11: A good answer of the remote host is sent on with the announced type (with the carriage return
  of its line) and the filtered body. What came in one portion with the end of the header is all that
  is sent when it has the announced length or nothing follows; else it is sent twice, before the rest.\<close>

theorem proxy_forwards_answer:
  assumes "remote_host env (ph_host h) (ph_port h) up portions" and "up w"
    and "concat (portions w) = status_line ver 200 reason @ concat (map field hs) @ crlf @ body"
    and "\<forall>c\<in>set ver. \<not> is_space c" and "one_line reason" and "hs \<noteq> []" and "list_all remote_field hs"
    and "came_with (length (status_line ver 200 reason @ concat (map field hs) @ crlf)) [] (portions w) = (early, late)"
  shows "\<exists>w'. ProxyHandler_HandleRequest env h q w =
    Inr (build_response MOVED_TEMPORARILY (announced_type hs ''text/plain'')
           (HTMLFilter (ph_host h)
             (if int (length early) = announced hs (-1) \<or> concat late = [] then early else early @ early @ concat late)
             (announced_type hs ''text/plain'')),
         [''::HandlerMetrics:: handler:proxy'', ''::ResponseMetrics:: response_code:302''], w')"
  using remote_host.ProxyHandler_forwards[OF assms(1-7) refl refl assms(8)] unfolding sent_body_def .

definition remote_site :: proxy_handler where
  "remote_site = \<lparr>ph_root = '''', ph_uri = ''/proxy'', ph_host = ''h'', ph_path = ''/'', ph_port = ''80''\<rparr>"

definition site_fields :: "(string \<times> string) list" where
  "site_fields = [(''Content-Type'', ''text/html''), (''Content-Length'', to_string 4)]"

definition site_answer :: "nat \<Rightarrow> ref_world" where
  "site_answer n = \<lparr>rw_table = None, rw_seed = 0,
     rw_chunks = [status_line ''1.1'' n ''OK'' @ concat (map field site_fields) @ crlf @ ''ab'', ''cd'']\<rparr>"

lemma site_fields_ok: "list_all remote_field site_fields"
proof -
  have "remote_field (''Content-Type'', ''text/html'')"
    by (simp add: remote_field_def flip: str_find_None_iff)
  moreover have four: "to_string 4 = ''4''" by code_simp
  then have "\<exists>n<2 ^ 31. ''4'' = to_string n" by (intro exI[of _ 4]) simp
  then have "remote_field (''Content-Length'', ''4'')"
    by (simp add: remote_field_def flip: str_find_None_iff)
  ultimately show ?thesis by (simp add: site_fields_def four)
qed

theorem proxy_forwards_answer_witness:
  "\<exists>w'. ProxyHandler_HandleRequest (ref_env (\<lambda>_. None)) remote_site (new_Request []) (site_answer 200) =
     Inr (build_response MOVED_TEMPORARILY (''text/html'' @ [CHR 0x0D])
            (HTMLFilter ''h'' ''ababcd'' (''text/html'' @ [CHR 0x0D])),
          [''::HandlerMetrics:: handler:proxy'', ''::ResponseMetrics:: response_code:302''], w')"
proof -
  have host: "ph_host remote_site = ''h''" by (simp add: remote_site_def)
  have "announced site_fields (-1) = 4" "announced_type site_fields ''text/plain'' = ''text/html'' @ [CHR 0x0D]"
    by (simp_all add: site_fields_def)
  moreover have "concat (rw_chunks (site_answer 200)) =
      status_line ''1.1'' 200 ''OK'' @ concat (map field site_fields) @ crlf @ ''abcd''"
    by (simp add: site_answer_def)
  moreover have "came_with (length (status_line ''1.1'' 200 ''OK'' @ concat (map field site_fields) @ crlf)) []
      (rw_chunks (site_answer 200)) = (''ab'', [''cd''])"
  proof -
    have "came_with (length u) [] [u @ ''ab'', ''cd''] = (''ab'', [''cd''])" if "u \<noteq> []" for u
      using that by simp
    from this[of "status_line ''1.1'' 200 ''OK'' @ concat (map field site_fields) @ crlf"] show ?thesis
      by (simp only: site_answer_def ref_world.simps append_assoc) (simp add: status_line_def)
  qed
  ultimately show ?thesis
    using proxy_forwards_answer[OF ref_remote.remote_host_axioms _ _ _ _ _ site_fields_ok,
      of "site_answer 200" "''1.1''" "''OK''" "''abcd''" "''ab''" "[''cd'']" "\<lambda>_. None" remote_site "new_Request []"] host
    by (simp add: is_space_def) (simp add: site_fields_def)
qed

text \<open>Any other status of the remote host is reported as a text with this status, in a response that
  has the status 302 itself.\<close>

theorem proxy_reports_status:
  assumes "remote_host env (ph_host h) (ph_port h) up portions" and "up w"
    and "concat (portions w) = status_line ver n reason @ r"
    and "\<forall>c\<in>set ver. \<not> is_space c" and "one_line reason" and "n < 2 ^ 32" and "n \<noteq> 200"
  shows "\<exists>w'. ProxyHandler_HandleRequest env h q w =
    Inr (build_response MOVED_TEMPORARILY ''text/plain''
           (''Response returned with status code '' @ to_string n @ [CHR 0x0A]),
         [''::HandlerMetrics:: handler:proxy'', ''::ResponseMetrics:: response_code:302''], w')"
  using remote_host.ProxyHandler_refused[OF assms] by simp

theorem proxy_reports_status_witness:
  "\<exists>w'. ProxyHandler_HandleRequest (ref_env (\<lambda>_. None)) remote_site (new_Request []) (site_answer 503) =
     Inr (build_response MOVED_TEMPORARILY ''text/plain''
            (''Response returned with status code '' @ to_string 503 @ [CHR 0x0A]),
          [''::HandlerMetrics:: handler:proxy'', ''::ResponseMetrics:: response_code:302''], w')"
proof -
  have "concat (rw_chunks (site_answer 503)) =
      status_line ''1.1'' 503 ''OK'' @ concat (map field site_fields) @ crlf @ ''abcd''"
    by (simp add: site_answer_def)
  then show ?thesis
    using proxy_reports_status[OF ref_remote.remote_host_axioms,
      of "site_answer 503" "''1.1''" 503 "''OK''" _ "\<lambda>_. None" remote_site "new_Request []"]
    by (simp add: is_space_def)
qed

end
