(* ===== verification/Request_Path.thy ===== *)
theory Request_Path
  imports Session Proxy_Remote
begin

text \<open>
  The path of one request, from its bytes to the bytes of the response: the composition of the
  parser, the dispatcher, the handler and the bookkeeping in \<^verbatim>\<open>session::handle_read\<close>, with a
  configuration and a world for the examples.
\<close>

section \<open>A configuration and a world for the examples\<close>

definition sample_config :: config where
  "sample_config =
     [Statement [''http''] (Some [Statement [''server''] (Some
        [Statement [''listen'', ''8080''] None,
         Statement [''root'', ''/srv''] None,
         Statement [''handler'', ''echo''] (Some [Statement [''url'', ''/echo''] None]),
         Statement [''handler'', ''health''] (Some [Statement [''url'', ''/health''] None]),
         Statement [''handler'', ''static''] (Some
           [Statement [''location'', ''/files''] None, Statement [''url'', ''/static''] None]),
         Statement [''handler'', ''typo''] (Some [Statement [''url'', ''/typo''] None])])])]"

definition idle :: ref_world where
  "idle = \<lparr>rw_table = None, rw_seed = 0, rw_chunks = []\<rparr>"

definition no_files :: file_system where
  "no_files path = None"

definition fresh_process :: process where
  "fresh_process = \<lparr>status_entries = [], url_handlers = []\<rparr>"

definition sample_dispatcher :: dispatcher where
  "sample_dispatcher = fst (case new_Dispatcher sample_config fresh_process of Inr r \<Rightarrow> r)"

definition sample_process :: process where
  "sample_process = snd (case new_Dispatcher sample_config fresh_process of Inr r \<Rightarrow> r)"

lemma sample_new_Dispatcher:
  "new_Dispatcher sample_config fresh_process = Inr (sample_dispatcher, sample_process)"
proof -
  have "case new_Dispatcher sample_config fresh_process of Inl e \<Rightarrow> False | Inr r \<Rightarrow> True"
    by code_simp
  then show ?thesis
    by (auto simp: sample_dispatcher_def sample_process_def split: sum.splits)
qed

lemma fresh_summary: "status_entries fresh_process = summary []"
  by (simp add: fresh_process_def summary_def)

lemma ref_env_simps [simp]:
  "env_split (ref_env files) = split_compress" "env_file (ref_env files) = files"
  "env_replace_all (ref_env files) = replace_leftmost"
  by (simp_all add: ref_env_def)

definition get_text :: "string \<Rightarrow> string" where
  "get_text path = render_request ''GET'' path ''HTTP/1.1'' [] []"

lemma get_request:
  assumes "word_text p"
  shows "request_handler split_compress (get_text p) =
    Inr \<lparr>req_raw = get_text p, req_method = ''GET'', req_uri_path = p,
         req_http_version = ''HTTP/1.1'', req_body = [], req_header_fields = []\<rparr>"
proof -
  have "word_text ''HTTP/1.1''" "sublist ''HTTP/1.1'' (''HTTP/1.1'' :: string)"
    by (simp_all add: word_text_def)
  with assms show ?thesis
    unfolding get_text_def
    by (intro compress.request_roundtrip[of "''GET''" p "''HTTP/1.1''" "[]" "[]"]) simp_all
qed

section \<open>The path of a request\<close>

lemma handle_read_routed:
  assumes "request_handler (env_split env) buffer = Inr req"
    and "new_Dispatcher c proc = Inr (d, proc1)"
    and "status_entries proc = summary hist" and "length hist < 2 ^ 31 - 1"
  shows "handle_read env c proc No_error buffer w =
    bind_res (generateResponse env d proc1 req w) (\<lambda>(r, log, w).
    bind_res (Output r) (\<lambda>out. bind_res (getStatusCode r) (\<lambda>code.
    Inr (Write_response out, (''::PathMetrics:: path:'' @ req_uri_path req) # log,
         proc1\<lparr>status_entries := summary (hist @ [(req_uri_path req, to_string (code_of code))])\<rparr>, w))))"
  using assms new_Dispatcher_InrD(4)[OF assms(2)] addStatusEntry_summary[OF assms(4)]
  by (simp add: handle_read_def)

text \<open>The callback when the handler answers.\<close>

lemma handle_read_answered:
  assumes "request_handler (env_split env) buffer = Inr req"
    and "new_Dispatcher c proc = Inr (d, proc1)"
    and "status_entries proc = summary hist" and "length hist < 2 ^ 31 - 1"
    and "route c (req_uri_path req) = Some (name, block)"
    and "createByName name block (disp_root d) = Inr (Some h)"
    and "HandleRequest env proc1 h req w = Inr (build_response code ty b, log, w')"
  shows "handle_read env c proc No_error buffer w = Inr
      (Write_response (''HTTP/1.1 '' @ to_string (code_of code) @ crlf @ ''Content-Type: '' @ ty @ crlf @
         ''Content-Length: '' @ to_string (length b) @ crlf @ crlf @ b),
       (''::PathMetrics:: path:'' @ req_uri_path req) # log,
       proc1\<lparr>status_entries := summary (hist @ [(req_uri_path req, to_string (code_of code))])\<rparr>, w')"
  using handle_read_routed[OF assms(1-4), of w] assms(5-7)
  by (simp add: generateResponse_route[OF assms(2)] build_response_sent)

text \<open>The callback when the meme handler has gone through its chain, or ends in a fault.\<close>

lemma meme_page:
  assumes "req_uri_path req = mh_uri h @ ''/'' @ page"
  shows "MemeHandler_HandleRequest env h req w = bind_res (meme_action env (h\<lparr>memepage := page\<rparr>) req w)
    (\<lambda>(err, h, log, w). case meme_response err (memebody h) of (r, lines) \<Rightarrow> Inr (r, log @ lines, w))"
proof -
  have "substr (req_uri_path req) (int (length (mh_uri h)) + 1) (int (length (req_uri_path req))) = Inr page"
    using assms by (simp add: substr_def nat_add_distrib)
  then show ?thesis
    by (cases "meme_action env (h\<lparr>memepage := page\<rparr>) req w")
      (auto simp: MemeHandler_HandleRequest_def Let_def split: prod.splits)
qed

lemma handle_read_meme:
  assumes "request_handler (env_split env) buffer = Inr req"
    and "new_Dispatcher c proc = Inr (d, proc1)"
    and "status_entries proc = summary hist" and "length hist < 2 ^ 31 - 1"
    and "route c (req_uri_path req) = Some (''meme'', block)"
    and "MemeHandler_create block (disp_root d) = Inr h" and "req_uri_path req = mh_uri h @ ''/'' @ page"
    and "meme_action env (h\<lparr>memepage := page\<rparr>) req w = Inr (e, h', log, w')"
  shows "\<exists>out log' code. handle_read env c proc No_error buffer w = Inr (Write_response out, log',
      proc1\<lparr>status_entries := summary (hist @ [(req_uri_path req, code)])\<rparr>, w') \<and> code \<in> {''200'', ''404''}"
proof -
  obtain code ty body log' where code: "code \<in> {OK, NOT_FOUND}"
    and handled: "HandleRequest env proc1 (Meme h) req w = Inr (build_response code ty body, log', w')"
    using assms(8) by (cases e) (auto simp: HandleRequest_def meme_page[OF assms(7)] meme_response_eq)
  have "createByName ''meme'' block (disp_root d) = Inr (Some (Meme h))"
    using assms(6) by (simp add: createByName_def)
  from handle_read_answered[OF assms(1-5) this handled] code show ?thesis
    by (auto simp: code_strings)
qed

lemma handle_read_meme_fault:
  assumes "request_handler (env_split env) buffer = Inr req"
    and "new_Dispatcher c proc = Inr (d, proc1)"
    and "route c (req_uri_path req) = Some (''meme'', block)"
    and "MemeHandler_create block (disp_root d) = Inr h" and "req_uri_path req = mh_uri h @ ''/'' @ page"
    and "meme_action env (h\<lparr>memepage := page\<rparr>) req w = Inl f"
  shows "handle_read env c proc No_error buffer w = Inl f"
  using assms(1,3,4,6)
  by (simp add: handle_read_def assms(2) generateResponse_route[OF assms(2)] createByName_def HandleRequest_def
      meme_page[OF assms(5)])

text \<open>Where a read callback fails, the dispatcher or the handler does.\<close>

lemma handle_read_fault:
  assumes "boost_split (env_split env)" and "status_entries proc = summary hist"
    and "length hist < 2 ^ 31 - 1" and "handle_read env c proc err buffer w = Inl e"
  shows "new_Dispatcher c proc = Inl e \<or>
    (\<exists>d proc1 req. new_Dispatcher c proc = Inr (d, proc1) \<and> generateResponse env d proc1 req w = Inl e)"
proof (cases "new_Dispatcher c proc")
  case (Inl e')
  then show ?thesis
    using assms(4) boost_split.request_handler_total[OF assms(1), of buffer]
    by (cases err) (auto simp: handle_read_def)
next
  case (Inr dp)
  obtain d proc1 where d: "new_Dispatcher c proc = Inr (d, proc1)" using Inr by (cases dp) auto
  obtain req where req: "request_handler (env_split env) buffer = Inr req"
    using boost_split.request_handler_total[OF assms(1)] by blast
  have "err = No_error" using assms(4) by (cases err) (simp_all add: handle_read_def)
  then show ?thesis
    using assms(4) handle_read_routed[OF req d assms(2,3), of w] d
      dispatch.output_defined[of "(env, d, proc1, req, w)"]
    by (cases "generateResponse env d proc1 req w") (auto simp: bind_res_eq_Inl)
qed

text \<open>The callback of a request to the echo handler.\<close>

lemma echo_read:
  assumes "boost_split (env_split env)"
    and "m = ''GET'' \<or> m = ''POST''" and "word_text p" and "word_text v"
    and "sublist ''HTTP/1.1'' v" and "\<forall>h\<in>set hs. field_text h" and "one_line b"
    and "new_Dispatcher c proc = Inr (d, proc1)" and "route c p = Some (''echo'', block)"
    and "GetAttribute block ''url'' = Inr u"
    and "status_entries proc = summary hist" and "length hist < 2 ^ 31 - 1"
  shows "let raw = render_request m p v hs b in
    handle_read env c proc No_error raw w = Inr
      (Write_response (''HTTP/1.1 200'' @ crlf @ ''Content-Type: text/plain'' @ crlf @
         ''Content-Length: '' @ to_string (length raw) @ crlf @ crlf @ raw),
       [''::PathMetrics:: path:'' @ p, ''::HandlerMetrics:: handler:echo'',
        ''::ResponseMetrics:: response_code:200''],
       proc1\<lparr>status_entries := summary (hist @ [(p, ''200'')])\<rparr>, w)"
  using handle_read_routed[OF boost_split.request_roundtrip[OF assms(1-7)] assms(8,11,12)]
    assms(9,10)
  by (simp add: generateResponse_route[OF assms(8)] createByName_def EchoHandler_create_def
      HandleRequest_def simple_responses build_response_sent code_strings Let_def)

section \<open>Properties\<close>

text \<open>C10: A well-formed request whose first path segment is routed to the echo handler is answered with
  status 200 and the bytes of the request as the body, the monitoring gets the path, the handler
  and the code, and the status table counts the request.\<close>

theorem echo_end_to_end:
  assumes "boost_split (env_split env)"
    and "m = ''GET'' \<or> m = ''POST''" and "word_text p" and "word_text v"
    and "sublist ''HTTP/1.1'' v" and "\<forall>h\<in>set hs. field_text h" and "one_line b"
    and "new_Dispatcher c proc = Inr (d, proc1)" and "route c p = Some (''echo'', block)"
    and "GetAttribute block ''url'' = Inr u"
    and "status_entries proc = summary hist" and "length hist < 2 ^ 31 - 1"
  shows "let raw = render_request m p v hs b in
    handle_read env c proc No_error raw w = Inr
      (Write_response (''HTTP/1.1 200'' @ crlf @ ''Content-Type: text/plain'' @ crlf @
         ''Content-Length: '' @ to_string (length raw) @ crlf @ crlf @ raw),
       [''::PathMetrics:: path:'' @ p, ''::HandlerMetrics:: handler:echo'',
        ''::ResponseMetrics:: response_code:200''],
       proc1\<lparr>status_entries := summary (hist @ [(p, ''200'')])\<rparr>, w)"
  using assms by (rule echo_read)

theorem echo_end_to_end_witness:
  "handle_read (ref_env no_files) sample_config fresh_process No_error (get_text ''/echo/x'') idle = Inr
     (Write_response (''HTTP/1.1 200'' @ crlf @ ''Content-Type: text/plain'' @ crlf @
        ''Content-Length: '' @ to_string (length (get_text ''/echo/x'')) @ crlf @ crlf @ get_text ''/echo/x''),
      [''::PathMetrics:: path:/echo/x'', ''::HandlerMetrics:: handler:echo'',
       ''::ResponseMetrics:: response_code:200''],
      sample_process\<lparr>status_entries := summary [(''/echo/x'', ''200'')]\<rparr>, idle)"
proof -
  have "route sample_config ''/echo/x'' = Some (''echo'', [Statement [''url'', ''/echo''] None])"
    by code_simp
  moreover have "GetAttribute [Statement [''url'', ''/echo''] None] ''url'' = Inr ''/echo''"
    by code_simp
  moreover have "boost_split (env_split (ref_env no_files))"
    using compress.boost_split_axioms by simp
  ultimately show ?thesis
    using echo_end_to_end[of "ref_env no_files" "''GET''" "''/echo/x''" "''HTTP/1.1''" "[]" "[]"
      sample_config fresh_process sample_dispatcher sample_process
      "[Statement [''url'', ''/echo''] None]" "''/echo''" "[]" idle]
      sample_new_Dispatcher fresh_summary
    by (simp add: word_text_def get_text_def Let_def)
qed

text \<open>A request whose first segment is no registered URL gets the 404 page of the error handler.\<close>

theorem unrouted_is_not_found:
  assumes "request_handler (env_split env) buffer = Inr req"
    and "new_Dispatcher c proc = Inr (d, proc1)" and "route c (req_uri_path req) = None"
    and "status_entries proc = summary hist" and "length hist < 2 ^ 31 - 1"
  shows "\<exists>log. handle_read env c proc No_error buffer w = Inr
      (Write_response (''HTTP/1.1 404'' @ crlf @ ''Content-Type: text/plain'' @ crlf @
         ''Content-Length: 57'' @ crlf @ crlf @
         ''404: File not found on path. Please provide correct path.''), log,
       proc1\<lparr>status_entries := summary (hist @ [(req_uri_path req, ''404'')])\<rparr>, w)"
proof -
  have "to_string (length ''404: File not found on path. Please provide correct path.'') = ''57''"
    by code_simp
  then show ?thesis
    using handle_read_routed[OF assms(1,2,4,5)] assms(3)
    by (simp add: generateResponse_route[OF assms(2)] HandleRequest_def simple_responses
        build_response_sent code_strings)
qed

theorem unrouted_is_not_found_witness:
  "\<exists>log. handle_read (ref_env no_files) sample_config fresh_process No_error (get_text ''/nowhere'') idle = Inr
      (Write_response (''HTTP/1.1 404'' @ crlf @ ''Content-Type: text/plain'' @ crlf @
         ''Content-Length: 57'' @ crlf @ crlf @
         ''404: File not found on path. Please provide correct path.''), log,
       sample_process\<lparr>status_entries := summary [(''/nowhere'', ''404'')]\<rparr>, idle)"
proof -
  have "route sample_config ''/nowhere'' = None" by code_simp
  moreover have "word_text ''/nowhere''" by (simp add: word_text_def)
  ultimately show ?thesis
    using unrouted_is_not_found[OF _ sample_new_Dispatcher _ fresh_summary, of "ref_env no_files"
      "get_text ''/nowhere''" _ idle] get_request[of "''/nowhere''"]
    by simp
qed

text \<open>A handler statement with a name the factory does not know passes the configuration, and a
  request for its URL follows a null pointer.\<close>

theorem unknown_handler_is_undefined:
  assumes "request_handler (env_split env) buffer = Inr req"
    and "new_Dispatcher c proc = Inr (d, proc1)" and "route c (req_uri_path req) = Some (name, block)"
    and "name \<notin> {''echo'', ''static'', ''error'', ''status'', ''proxy'', ''meme'', ''health'', ''bad''}"
  shows "handle_read env c proc No_error buffer w = Inl Undefined"
  using assms by (simp add: handle_read_def createByName_def generateResponse_route[OF assms(2)])

theorem unknown_handler_is_undefined_witness:
  "handle_read (ref_env no_files) sample_config fresh_process No_error (get_text ''/typo'') idle = Inl Undefined"
proof -
  have "route sample_config ''/typo'' = Some (''typo'', [Statement [''url'', ''/typo''] None])"
    by code_simp
  moreover have "word_text ''/typo''" by (simp add: word_text_def)
  ultimately show ?thesis
    using unknown_handler_is_undefined[OF _ sample_new_Dispatcher, of "ref_env no_files"
      "get_text ''/typo''" _ "''typo''" _ idle] get_request[of "''/typo''"]
    by simp
qed

text \<open>C13: A dispatcher built from a configuration sends a request to the handler of the first handler
  statement whose URL is the first segment of the path (its first character and what follows up to
  the next slash), built from the block of this statement, and to the error handler when there is none.\<close>

theorem dispatcher_follows_route:
  assumes "new_Dispatcher c proc = Inr (d, proc1)"
  shows "generateResponse env d proc1 q w =
    (case map_of (map (\<lambda>(u, b, n). (u, (n, b))) (handlers c)) (first_segment (req_uri_path q)) of
       None \<Rightarrow> HandleRequest env proc1 (Error \<lparr>root = disp_root d, uri = ''''\<rparr>) q w
     | Some (name, block) \<Rightarrow> bind_res (createByName name block (disp_root d)) (\<lambda>h.
         case h of None \<Rightarrow> Inl Undefined | Some h \<Rightarrow> HandleRequest env proc1 h q w))"
  using generateResponse_route[OF assms] unfolding route_def .

theorem dispatcher_follows_route_witness:
  "generateResponse (ref_env no_files) sample_dispatcher sample_process
     ((new_Request [])\<lparr>req_uri_path := ''/health/x''\<rparr>) idle =
   HandleRequest (ref_env no_files) sample_process (Health \<lparr>root = disp_root sample_dispatcher, uri = ''/health''\<rparr>)
     ((new_Request [])\<lparr>req_uri_path := ''/health/x''\<rparr>) idle"
proof -
  have "map_of (map (\<lambda>(u, b, n). (u, (n, b))) (handlers sample_config)) (first_segment ''/health/x'') =
      Some (''health'', [Statement [''url'', ''/health''] None])"
    by code_simp
  moreover have "createByName ''health'' [Statement [''url'', ''/health''] None] (disp_root sample_dispatcher) =
      Inr (Some (Health \<lparr>root = disp_root sample_dispatcher, uri = ''/health''\<rparr>))" by code_simp
  ultimately show ?thesis by (simp add: dispatcher_follows_route[OF sample_new_Dispatcher])
qed

text \<open>The lines of the status page.\<close>

lemma handler_lines_eq:
  "handler_lines m = concat (map (\<lambda>(u, n). ''Handler Type: '' @ n @ '' | URL Prefix: '' @ u @ [CHR 0x0A]) m)"
  by (induction m) auto

lemma count_text: "n < 2 ^ 31 \<Longrightarrow> int_to_string (sint (of_nat n :: 32 word)) = to_string n"
  by (simp add: int_to_string_def signed_of_nat signed_take_bit_int_eq_self)

lemma entry_lines_counts:
  assumes "\<forall>p\<in>set ps. f p < 2 ^ 31"
  shows "entry_lines (map (\<lambda>p. (of_nat (f p), p)) ps) = concat (map (\<lambda>(u, c). ''Request URL: '' @ u @
    '' | Response Code: '' @ c @ '' | Request Count: '' @ to_string (f (u, c)) @ [CHR 0x0A]) ps)"
  using assms by (induction ps) (auto simp: count_text)

lemma entry_lines_summary:
  assumes "length hist < 2 ^ 31"
  shows "entry_lines (summary hist) = concat (map (\<lambda>(u, c). ''Request URL: '' @ u @ '' | Response Code: '' @ c @
    '' | Request Count: '' @ to_string (count_list hist (u, c)) @ [CHR 0x0A]) (rev (remdups (rev hist))))"
proof -
  have "\<forall>p\<in>set (rev (remdups (rev hist))). count_list hist p < 2 ^ 31"
    using le_less_trans[OF count_le_length assms] by blast
  from entry_lines_counts[OF this] show ?thesis by (simp add: summary_def)
qed

text \<open>C27: The status page reports the total number of the requests before it (it does not count itself), one
  line for each registered URL, and one for each pair of path and code, in the order of their first
  requests, with the number of its requests.\<close>

theorem status_page_reports:
  assumes "request_handler (env_split env) buffer = Inr req"
    and "new_Dispatcher c proc = Inr (d, proc1)" and "route c (req_uri_path req) = Some (''status'', block)"
    and "GetAttribute block ''url'' = Inr u"
    and "status_entries proc = summary hist" and "length hist < 2 ^ 31 - 1"
  shows "\<exists>log. handle_read env c proc No_error buffer w = Inr
    (Write_response
      (let body = ''Status Page: git-r-done Server '' @ [CHR 0x0A, CHR 0x0A] @
             ''Request Handlers That Exist and Their Corresponding URL Prefixes:'' @ [CHR 0x0A] @
             concat (map (\<lambda>(u, n). ''Handler Type: '' @ n @ '' | URL Prefix: '' @ u @ [CHR 0x0A])
               (url_handlers proc1)) @ [CHR 0x0A] @
             ''Total Requests Made To git-r-done Server: '' @ to_string (length hist) @ [CHR 0x0A] @
             concat (map (\<lambda>(u, c). ''Request URL: '' @ u @ '' | Response Code: '' @ c @ '' | Request Count: '' @
               to_string (count_list hist (u, c)) @ [CHR 0x0A]) (rev (remdups (rev hist))))
       in ''HTTP/1.1 200'' @ crlf @ ''Content-Type: text/plain'' @ crlf @
          ''Content-Length: '' @ to_string (length body) @ crlf @ crlf @ body), log,
     proc1\<lparr>status_entries := summary (hist @ [(req_uri_path req, ''200'')])\<rparr>, w)"
proof -
  have "status_entries proc1 = summary hist" using new_Dispatcher_InrD(4)[OF assms(2)] assms(5) by simp
  moreover have "getStatusCalls (summary hist) = int (length hist)"
    using getStatusCalls_summary[of hist] assms(6) by simp
  moreover have "to_string 200 = ''200''" by (rule code_strings)
  moreover have "length hist < 2 ^ 31" using assms(6) by simp
  ultimately show ?thesis
    using handle_read_routed[OF assms(1,2,5,6), of w] assms(3,4)
    by (simp add: generateResponse_route[OF assms(2)] createByName_def StatusHandler_create_def
        HandleRequest_def simple_responses build_response_sent status_body_def getStatusEntries_def
        int_to_string_def Let_def entry_lines_summary handler_lines_eq)
qed

definition status_config :: config where
  "status_config = [Statement [''handler'', ''status''] (Some [Statement [''url'', ''/status''] None])]"

definition served :: "(string \<times> string) list" where
  "served = [(''/b'', ''404''), (''/status'', ''200''), (''/b'', ''404'')]"

theorem status_page_reports_witness:
  "\<exists>log d proc1. new_Dispatcher status_config (fresh_process\<lparr>status_entries := summary served\<rparr>) = Inr (d, proc1) \<and>
    handle_read (ref_env no_files) status_config (fresh_process\<lparr>status_entries := summary served\<rparr>) No_error
      (get_text ''/status'') idle = Inr
    (Write_response
      (let body = ''Status Page: git-r-done Server '' @ [CHR 0x0A, CHR 0x0A] @
             ''Request Handlers That Exist and Their Corresponding URL Prefixes:'' @ [CHR 0x0A] @
             ''Handler Type: status | URL Prefix: /status'' @ [CHR 0x0A, CHR 0x0A] @
             ''Total Requests Made To git-r-done Server: 3'' @ [CHR 0x0A] @
             ''Request URL: /b | Response Code: 404 | Request Count: 2'' @ [CHR 0x0A] @
             ''Request URL: /status | Response Code: 200 | Request Count: 1'' @ [CHR 0x0A]
       in ''HTTP/1.1 200'' @ crlf @ ''Content-Type: text/plain'' @ crlf @
          ''Content-Length: '' @ to_string (length body) @ crlf @ crlf @ body), log,
     proc1\<lparr>status_entries := summary (served @ [(''/status'', ''200'')])\<rparr>, idle)"
proof -
  let ?block = "[Statement [''url'', ''/status''] None]"
  let ?proc = "fresh_process\<lparr>status_entries := summary served\<rparr>"
  have d: "new_Dispatcher status_config ?proc = Inr
      (\<lparr>disp_root = '''', disp_configTable = [(''/status'', ?block)], disp_handlerTable = [(''/status'', ''status'')]\<rparr>,
       \<lparr>status_entries = summary served, url_handlers = [(''/status'', ''status'')]\<rparr>)"
    by code_simp
  have route: "route status_config ''/status'' = Some (''status'', ?block)" by code_simp
  have url: "GetAttribute ?block ''url'' = Inr ''/status''" by code_simp
  have word: "word_text ''/status''" by (simp add: word_text_def)
  have few: "length served < 2 ^ 31 - 1" by (simp add: served_def)
  have three: "to_string (length served) = ''3''" by code_simp
  have lines: "concat (map (\<lambda>(u, c). ''Request URL: '' @ u @ '' | Response Code: '' @ c @ '' | Request Count: '' @
      to_string (count_list served (u, c)) @ [CHR 0x0A]) (rev (remdups (rev served)))) =
    ''Request URL: /b | Response Code: 404 | Request Count: 2'' @ [CHR 0x0A] @
    ''Request URL: /status | Response Code: 200 | Request Count: 1'' @ [CHR 0x0A]" by code_simp
  have "status_entries ?proc = summary served" by simp
  from status_page_reports[OF get_request[OF word, folded ref_env_simps(1)[of no_files]] d _ url this few, of idle]
  show ?thesis unfolding three lines using d route by simp
qed

text \<open>C22: A well-formed request for a file below the directory of a static handler, with an extension the
  handler knows, is answered with status 200, the content type of the extension and the bytes of the
  file.\<close>

theorem static_file_end_to_end:
  assumes "boost_split (env_split env)"
    and "m = ''GET'' \<or> m = ''POST''" and "word_text p" and "word_text v"
    and "sublist ''HTTP/1.1'' v" and "\<forall>h\<in>set hs. field_text h" and "one_line b"
    and "new_Dispatcher c proc = Inr (d, proc1)" and "route c p = Some (''static'', block)"
    and "GetAttribute block ''url'' = Inr u" and "GetAttribute block ''location'' = Inr dir"
    and "p = u @ ''/'' @ name" and "name \<noteq> []"
    and "env_file env (''static'' @ dir @ ''/'' @ name) = Some content"
    and "content_type_of (extension name) = Some ty"
    and "status_entries proc = summary hist" and "length hist < 2 ^ 31 - 1"
  shows "handle_read env c proc No_error (render_request m p v hs b) w = Inr
      (Write_response (''HTTP/1.1 200'' @ crlf @ ''Content-Type: '' @ ty @ crlf @
         ''Content-Length: '' @ to_string (length content) @ crlf @ crlf @ content),
       [''::PathMetrics:: path:'' @ p, ''::HandlerMetrics:: handler:static'',
        ''::ResponseMetrics:: response_code:200''],
       proc1\<lparr>status_entries := summary (hist @ [(p, ''200'')])\<rparr>, w)"
proof -
  let ?h = "\<lparr>st_root = disp_root d, st_uri = u, st_filedir = dir\<rparr>"
  have "createByName ''static'' block (disp_root d) = Inr (Some (Static ?h))"
    using assms(10,11) by (simp add: createByName_def StaticHandler_create_def)
  moreover have "HandleRequest env proc1 (Static ?h) req w = Inr (build_response OK ty content,
      [''::HandlerMetrics:: handler:static'', ''::ResponseMetrics:: response_code:200''], w)"
    if "req_uri_path req = p" for req
    using that assms(12-15) by (simp add: HandleRequest_def static_cases static_ok_def Let_def)
  ultimately show ?thesis
    using handle_read_answered[OF boost_split.request_roundtrip[OF assms(1-7)] assms(8,16,17)] assms(9)
    by (simp add: code_strings)
qed

definition one_file :: file_system where
  "one_file path = (if path = ''static/files/a.txt'' then Some ''hello'' else None)"

theorem static_file_end_to_end_witness:
  "handle_read (ref_env one_file) sample_config fresh_process No_error (get_text ''/static/a.txt'') idle = Inr
      (Write_response (''HTTP/1.1 200'' @ crlf @ ''Content-Type: text/plain'' @ crlf @
         ''Content-Length: 5'' @ crlf @ crlf @ ''hello''),
       [''::PathMetrics:: path:/static/a.txt'', ''::HandlerMetrics:: handler:static'',
        ''::ResponseMetrics:: response_code:200''],
       sample_process\<lparr>status_entries := summary [(''/static/a.txt'', ''200'')]\<rparr>, idle)"
proof -
  let ?block = "[Statement [''location'', ''/files''] None, Statement [''url'', ''/static''] None]"
  have split: "boost_split (env_split (ref_env one_file))"
    using compress.boost_split_axioms by simp
  have words: "word_text ''/static/a.txt''" "word_text ''HTTP/1.1''"
    "sublist ''HTTP/1.1'' (''HTTP/1.1'' :: string)" by (simp_all add: word_text_def)
  have route: "route sample_config ''/static/a.txt'' = Some (''static'', ?block)" by code_simp
  have block: "GetAttribute ?block ''url'' = Inr ''/static''" "GetAttribute ?block ''location'' = Inr ''/files''"
    by code_simp+
  have bytes: "env_file (ref_env one_file) (''static'' @ ''/files'' @ ''/'' @ ''a.txt'') = Some ''hello''"
    by (simp add: one_file_def)
  have ty: "content_type_of (extension ''a.txt'') = Some ''text/plain''" by code_simp
  have "''/static/a.txt'' = ''/static'' @ ''/'' @ ''a.txt''" by simp
  from static_file_end_to_end[OF split disjI1 words _ _ sample_new_Dispatcher route block this _ bytes ty fresh_summary,
      of "''GET''" "[]" "[]" idle]
  have "handle_read (ref_env one_file) sample_config fresh_process No_error (get_text ''/static/a.txt'') idle = Inr
      (Write_response (''HTTP/1.1 200'' @ crlf @ ''Content-Type: '' @ ''text/plain'' @ crlf @
         ''Content-Length: '' @ to_string (length ''hello'') @ crlf @ crlf @ ''hello''),
       [''::PathMetrics:: path:'' @ ''/static/a.txt'', ''::HandlerMetrics:: handler:static'',
        ''::ResponseMetrics:: response_code:200''],
       sample_process\<lparr>status_entries := summary ([] @ [(''/static/a.txt'', ''200'')])\<rparr>, idle)"
    unfolding get_text_def by simp
  moreover have "to_string (length ''hello'') = ''5''" by code_simp
  ultimately show ?thesis by (simp only:) simp
qed

text \<open>C9: A form posted to a path of the meme handler, sent as one request, stores the meme: the callback
  returns a response, counts the request, and leaves a table in which the new identifier has the
  texts of the form, encoded, and all other memes are unchanged.\<close>

theorem posted_meme_end_to_end:
  assumes "boost_split (env_split env)" and "word_text p" and "word_text v"
    and "sublist ''HTTP/1.1'' v" and "\<forall>h\<in>set hs. field_text h" and "one_line (form_body plain kvs)"
    and "new_Dispatcher c proc = Inr (d, proc1)" and "route c p = Some (''meme'', block)"
    and "MemeHandler_create block (disp_root d) = Inr h" and "p = mh_uri h @ ''/'' @ page" and "post_page page"
    and "meme_vault env (mh_savedir h) healthy contents" and "healthy w"
    and "meme_form plain kvs m" and "map_of kvs ''posttype'' = Some pt" and "pt \<noteq> ''edit''"
    and "new_identifier (memes (contents w)) = Inr k"
    and "status_entries proc = summary hist" and "length hist < 2 ^ 31 - 1"
  shows "\<exists>out log code w' s. handle_read env c proc No_error (render_request ''POST'' p v hs (form_body plain kvs)) w =
      Inr (Write_response out, log, proc1\<lparr>status_entries := summary (hist @ [(p, code)])\<rparr>, w') \<and>
    code \<in> {''200'', ''404''} \<and>
    memes (contents w') = (memes (contents w))(k \<mapsto> \<lparr>meme_name = meme_name m, meme_img = meme_img m,
      meme_top = meme_top m, meme_bottom = meme_bottom m, meme_token = k @ ''-'' @ s\<rparr>)"
proof -
  let ?q = "\<lparr>req_raw = render_request ''POST'' p v hs (form_body plain kvs), req_method = ''POST'',
    req_uri_path = p, req_http_version = v, req_body = form_body plain kvs, req_header_fields = hs\<rparr>"
  have q: "request_handler (env_split env) (render_request ''POST'' p v hs (form_body plain kvs)) = Inr ?q"
    using boost_split.request_roundtrip[OF assms(1) _ assms(2-6), of "''POST''"] by simp
  obtain e h' log w' s where action: "meme_action env (h\<lparr>memepage := page\<rparr>) ?q w = Inr (e, h', log, w')"
    and table: "memes (contents w') = (memes (contents w))(k \<mapsto> \<lparr>meme_name = meme_name m, meme_img = meme_img m,
      meme_top = meme_top m, meme_bottom = meme_bottom m, meme_token = k @ ''-'' @ s\<rparr>)"
    using post_new[OF assms(12,13,1) _ _ _ assms(14) _ assms(15-17), where h = "h\<lparr>memepage := page\<rparr>" and q = ?q]
      assms(11) by auto
  have path: "req_uri_path ?q = p" by simp
  obtain out log' code where "handle_read env c proc No_error (render_request ''POST'' p v hs (form_body plain kvs)) w =
      Inr (Write_response out, log', proc1\<lparr>status_entries := summary (hist @ [(p, code)])\<rparr>, w')"
    "code \<in> {''200'', ''404''}"
    using handle_read_meme[OF q assms(7,18,19), unfolded path, OF assms(8-10) action] by blast
  with table show ?thesis by blast
qed

definition meme_config :: config where
  "meme_config = [Statement [''handler'', ''meme''] (Some [Statement [''location'', ''/l''] None,
     Statement [''save'', ''/data''] None, Statement [''url'', ''/meme''] None])]"

theorem posted_meme_end_to_end_witness:
  "\<exists>out log proc w' s. handle_read (ref_env no_files) meme_config fresh_process No_error
      (render_request ''POST'' ''/meme/new'' ''HTTP/1.1'' [] (form_body (\<lambda>c. False) new_form)) empty_world =
        Inr (Write_response out, log, proc, w') \<and>
     memes (ref_contents w') ''10000'' = Some \<lparr>meme_name = ''x'', meme_img = ''meme_templates/i'',
       meme_top = ''&lt;b&gt;'', meme_bottom = ''z'', meme_token = ''10000-'' @ s\<rparr>"
proof -
  let ?block = "[Statement [''location'', ''/l''] None, Statement [''save'', ''/data''] None,
    Statement [''url'', ''/meme''] None]"
  let ?h = "\<lparr>mh_root = '''', mh_uri = ''/meme'', mh_filedir = ''/l'', mh_savedir = ''/data'',
    memepage = '''', memebody = '''', errorflag = False\<rparr>"
  have d: "new_Dispatcher meme_config fresh_process = Inr
      (\<lparr>disp_root = '''', disp_configTable = [(''/meme'', ?block)], disp_handlerTable = [(''/meme'', ''meme'')]\<rparr>,
       \<lparr>status_entries = [], url_handlers = [(''/meme'', ''meme'')]\<rparr>)"
    by code_simp
  have route: "route meme_config ''/meme/new'' = Some (''meme'', ?block)" by code_simp
  have create: "MemeHandler_create ?block '''' = Inr ?h" by code_simp
  have page: "post_page ''new''" "one_line (form_body (\<lambda>c. False) new_form)" by code_simp+
  have w: "ref_healthy empty_world" "ref_contents empty_world = None"
    by (simp_all add: empty_world_def ref_healthy_def ref_contents_def)
  then have "new_identifier (memes (ref_contents empty_world)) = Inr ''10000''"
    by (simp add: new_identifier_def)
  moreover have "boost_split (env_split (ref_env no_files))"
    using compress.boost_split_axioms by simp
  moreover have "map_of new_form ''posttype'' = Some ''new''" by (simp add: new_form_def)
  moreover have "word_text ''/meme/new''" "word_text ''HTTP/1.1''" "sublist ''HTTP/1.1'' (''HTTP/1.1'' :: string)"
    by (simp_all add: word_text_def)
  ultimately show ?thesis
    using posted_meme_end_to_end[where plain = "\<lambda>c. False" and kvs = new_form and m = edited and hs = "[]"
        and env = "ref_env no_files" and v = "''HTTP/1.1''" and p = "''/meme/new''" and page = "''new''" and h = ?h
        and contents = ref_contents and healthy = ref_healthy and k = "''10000''" and hist = "[]"
        and pt = "''new''" and w = empty_world, OF _ _ _ _ _ page(2) d route _ _ page(1) _ w(1) new_meme_form]
      create ref_vault.meme_vault_axioms[of no_files "''/data''"] fresh_summary
    by (fastforce simp: edited_def)
qed

end
