(* ===== verification/Meme_Search.thy ===== *)
theory Meme_Search
  imports Meme_Handler
begin

text \<open>
  The pages that list memes. The locale \<open>meme_archive\<close> adds to the contract of the database the
  selection with \<^verbatim>\<open>LIKE\<close>, the ways to order its rows, and the effect of the deletion when the request
  puts the name of the column where the identifier belongs. The search is proved to find exactly
  the memes that contain the term, and the pages to list exactly what is stored or found, with one
  line for each.
\<close>

text \<open>
  A selection changes nothing. On patterns without special characters it gives the rows whose
  name, top or bottom text the first, second or third pattern matches, in no particular order
  unless it ends with an \<^verbatim>\<open>ORDER BY\<close>. \<^verbatim>\<open>MEME_ID = MEME_ID\<close> holds for every row, so
  this deletion empties the table.
\<close>

locale meme_archive = meme_vault env savedir healthy contents
  for env :: "'w env" and savedir :: string and healthy :: "'w \<Rightarrow> bool"
    and contents :: "'w \<Rightarrow> table option" +
  assumes search_prepare: "healthy w \<Longrightarrow> clause \<in> set order_clauses \<Longrightarrow>
      sql_prepare env (like_statement @ clause) w \<longleftrightarrow> contents w \<noteq> None"
    and search_reads: "healthy w \<Longrightarrow> clause \<in> set order_clauses \<Longrightarrow>
      sql_run env (like_statement @ clause) ts w = (rows, fin, w') \<Longrightarrow> healthy w' \<and> contents w' = contents w"
    and search_ok: "healthy w \<Longrightarrow> contents w = Some v \<Longrightarrow> clause \<in> set order_clauses \<Longrightarrow>
      length ts = 3 \<Longrightarrow> list_all ascii_pattern ts \<Longrightarrow>
      \<exists>es w'. sql_run env (like_statement @ clause) ts w = (map (\<lambda>(k, m). meme_row k m) es, True, w') \<and>
        distinct es \<and> set es = {(k, m). v k = Some m \<and> found_by ts m}"
    and name_ascending: "healthy w \<Longrightarrow> sql_run env (like_statement @ '' ORDER BY NAME ASC'') ts w =
      (map (\<lambda>(k, m). meme_row k m) es, fin, w') \<Longrightarrow> sorted (map (\<lambda>(k, m). meme_name m) es)"
    and name_descending: "healthy w \<Longrightarrow> sql_run env (like_statement @ '' ORDER BY NAME DESC'') ts w =
      (map (\<lambda>(k, m). meme_row k m) es, fin, w') \<Longrightarrow> sorted (rev (map (\<lambda>(k, m). meme_name m) es))"
    and id_ascending: "healthy w \<Longrightarrow> sql_run env (like_statement @ '' ORDER BY MEME_ID ASC'') ts w =
      (map (\<lambda>(k, m). meme_row k m) es, fin, w') \<Longrightarrow> sorted (map fst es)"
    and delete_all_ok: "healthy w \<Longrightarrow> \<exists>w'. sql_exec env (sql_delete @ ''MEME_ID'') w =
      (contents w \<noteq> None, [], w') \<and> healthy w' \<and>
      contents w' = map_option (\<lambda>v. Map.empty) (contents w)"

lemma search_rows_memes:
  "search_rows (map (\<lambda>(k, m). meme_row k m) es) True = Inr (map (\<lambda>(k, m). meme_map k m) es)"
  by (induction es) auto

text \<open>
  The order of a list of results: by name or by identifier where this was asked for; else the order
  of the rows of the plain selection, and the reverse of it for the newest.
\<close>

definition listed_as :: "'w env \<Rightarrow> ('w \<Rightarrow> table option) \<Rightarrow> table option \<Rightarrow> string list \<Rightarrow> string \<Rightarrow> (string \<times> meme) list \<Rightarrow> bool" where
  "listed_as env contents c ts sorting es \<longleftrightarrow>
     (if sorting = ''a-z'' then sorted (map (\<lambda>(k, m). meme_name m) es)
      else if sorting = ''z-a'' then sorted (rev (map (\<lambda>(k, m). meme_name m) es))
      else if sorting = ''id'' then sorted (map fst es)
      else c = None \<or> (\<exists>w0 w1. contents w0 = c \<and> sql_run env like_statement ts w0 =
        (map (\<lambda>(k, m). meme_row k m) (if sorting = ''newest'' then rev es else es), True, w1)))"

definition order_clause :: "string \<Rightarrow> string" where
  "order_clause sorting =
     (if sorting = ''a-z'' then '' ORDER BY NAME ASC'' else if sorting = ''z-a'' then '' ORDER BY NAME DESC''
      else if sorting = ''id'' then '' ORDER BY MEME_ID ASC'' else '''')"

lemma sql_search_clause: "sql_search sorting = like_statement @ order_clause sorting"
  by (simp add: sql_search_def like_statement_def order_clause_def)

lemma order_clause_in: "order_clause sorting \<in> set order_clauses"
  by (simp add: order_clause_def order_clauses_def)

context meme_archive
begin

lemma SearchFromDatabase_found:
  assumes "healthy w" and "ascii_pattern (''%'' @ htmlEncode term @ ''%'')"
  defines "t \<equiv> ''%'' @ htmlEncode term @ ''%''"
  shows "\<exists>es w'. SearchFromDatabase env savedir term sorting w = Inr (map (\<lambda>(k, m). meme_map k m) es, w') \<and>
    distinct es \<and> set es = {(k, m). memes (contents w) k = Some m \<and> found_by [t, t, t] m} \<and>
    listed_as env contents (contents w) [t, t, t] sorting es \<and> healthy w' \<and> contents w' = contents w"
proof -
  obtain w1 where w1: "sql_open env (db_path savedir) w = (True, w1)" "healthy w1" "contents w1 = contents w"
    using open_ok[OF assms(1)] by blast
  note prepare = search_prepare[OF w1(2) order_clause_in[of sorting], folded sql_search_clause]
  show ?thesis
  proof (cases "contents w")
    case None
    then have "\<not> sql_prepare env (sql_search sorting) w1" using prepare w1(3) by simp
    with w1 None close_ok[OF w1(2)] show ?thesis
      by (intro exI[of _ "[]"]) (simp add: SearchFromDatabase_def listed_as_def)
  next
    case (Some v)
    then have p: "sql_prepare env (sql_search sorting) w1" using prepare w1(3) by simp
    obtain es w2 where run: "sql_run env (like_statement @ order_clause sorting) [t, t, t] w1 =
        (map (\<lambda>(k, m). meme_row k m) es, True, w2)"
      and es: "distinct es" "set es = {(k, m). v k = Some m \<and> found_by [t, t, t] m}"
      using search_ok[OF w1(2) _ order_clause_in, of v "[t, t, t]" sorting] w1(3) Some assms(2) by (auto simp: t_def)
    have w2: "healthy w2" "contents w2 = contents w" using search_reads[OF w1(2) order_clause_in run] w1(3) by simp_all
    let ?es = "if sorting = ''newest'' then rev es else es"
    have "SearchFromDatabase env savedir term sorting w = Inr (map (\<lambda>(k, m). meme_map k m) ?es, sql_close env w2)"
      using w1(1) p run by (simp add: SearchFromDatabase_def search_rows_memes rev_map sql_search_clause t_def)
    moreover have "listed_as env contents (contents w) [t, t, t] sorting ?es"
    proof (cases "sorting \<in> {''a-z'', ''z-a'', ''id''}")
      case True
      with run name_ascending[OF w1(2), of "[t, t, t]" es True w2] name_descending[OF w1(2), of "[t, t, t]" es True w2]
        id_ascending[OF w1(2), of "[t, t, t]" es True w2]
      show ?thesis by (elim insertE emptyE) (simp_all add: listed_as_def order_clause_def)
    next
      case False
      then have "order_clause sorting = []" by (simp add: order_clause_def)
      then have "sql_run env like_statement [t, t, t] w1 = (map (\<lambda>(k, m). meme_row k m) es, True, w2)"
        using run by (simp only: append_Nil2)
      moreover have "(if sorting = ''newest'' then rev ?es else ?es) = es" by simp
      ultimately have "\<exists>w0 w1. contents w0 = contents w \<and> sql_run env like_statement [t, t, t] w0 =
          (map (\<lambda>(k, m). meme_row k m) (if sorting = ''newest'' then rev ?es else ?es), True, w1)"
        using w1(3) by (intro exI[of _ w1] exI[of _ w2]) (simp only: simp_thms)
      with False show ?thesis unfolding listed_as_def by (simp only: insert_iff empty_iff de_Morgan_disj if_False simp_thms)
    qed
    moreover have "distinct ?es" "set ?es = {(k, m). memes (contents w) k = Some m \<and> found_by [t, t, t] m}"
      using es Some by simp_all
    moreover have "healthy (sql_close env w2)" "contents (sql_close env w2) = contents w"
      using close_ok[OF w2(1)] w2(2) by simp_all
    ultimately show ?thesis by blast
  qed
qed

end

section \<open>The pages\<close>

text \<open>The line of a meme, with its identifier in a link and in the text, and its name.\<close>

definition entry_line :: "string \<times> meme \<Rightarrow> string" where
  "entry_line e = (case e of (k, m) \<Rightarrow>
     ''<a id='' @ [CHR 0x22] @ ''entry'' @ [CHR 0x22] @ '' href='' @ [CHR 0x22] @
     ''http://ss.gitrdone.cs130.org/meme/view?id='' @ c_str k @ [CHR 0x22, CHR ''>''] @
     ''MemeID: '' @ c_str k @ '' :-: Name: '' @ c_str (meme_name m) @ [CHR 0x0A] @ ''</a><br />'' @ [CHR 0x0A])"

text \<open>What follows the template: one line for each meme, in their order, or one that there are none.\<close>

definition listing :: "string \<Rightarrow> (string \<times> meme) list \<Rightarrow> string" where
  "listing found es =
     (if es = [] then ''<p class='' @ [CHR 0x22] @ ''description'' @ [CHR 0x22] @ ''> No results found </p>'' else found) @
     concat (map entry_line es) @
     ''</div>'' @ [CHR 0x0A] @ ''</div>'' @ [CHR 0x0A] @ ''</body>'' @ [CHR 0x0A] @ ''</html>''"

lemma list_entries_lines: "list_entries (map (\<lambda>(k, m). meme_map k m) es) = concat (map entry_line es)"
  by (induction es) (auto simp: entry_line_def meme_map_def map_index_def)

lemma listing_eq:
  "listing found es = (if es = [] then no_results else found) @ list_entries (map (\<lambda>(k, m). meme_map k m) es) @ list_end"
  unfolding listing_def list_entries_lines no_results_def list_end_def by simp

definition found_line :: "nat \<Rightarrow> string" where
  "found_line n = ''<p class='' @ [CHR 0x22] @ ''description'' @ [CHR 0x22] @ ''> Found '' @
     to_string n @ '' current search terms</p>''"

context meme_vault
begin

lemma MemeList_vault:
  assumes "healthy w" and "mh_savedir h = savedir" and "memepage h \<noteq> []" and "memebody h = []"
    and "env_file env ''memes_r_us/list.html'' = Some page"
  shows "\<exists>es w'. MemeList env h w = Inr (False, h\<lparr>memebody := env_replace_all env
      (page @ listing [] es) ''searchterm_replacethis'' []\<rparr>, w') \<and>
    distinct es \<and> set es = {(k, m). memes (contents w) k = Some m} \<and> healthy w' \<and> contents w' = contents w \<and>
    (\<exists>w1 w2. contents w1 = contents w \<and> sql_exec env sql_select_all w1 =
      (contents w \<noteq> None, map (\<lambda>(k, m). zip column_names (meme_row k m)) (rev es), w2))"
proof -
  obtain es w1 where es: "GetAllFromDatabase env savedir w = Inr (map (\<lambda>(k, m). meme_map k m) es, w1)"
    "distinct es" "set es = {(k, m). memes (contents w) k = Some m}" "healthy w1" "contents w1 = contents w"
    "\<exists>w1 w2. contents w1 = contents w \<and> sql_exec env sql_select_all w1 =
      (contents w \<noteq> None, map (\<lambda>(k, m). zip column_names (meme_row k m)) es, w2)"
    using GetAllFromDatabase_vault[OF assms(1)] by blast
  with assms(2-5) show ?thesis
    by (intro exI[of _ "rev es"] exI[of _ w1]) (simp add: MemeList_def append_template_def listing_eq rev_map)
qed

end

text \<open>A search page as the form sends it.\<close>

definition search_page :: "string \<Rightarrow> string \<Rightarrow> string" where
  "search_page q sorting = ''list?q='' @ q @ ''&sort='' @ sorting"

lemma search_page_parts:
  assumes "CHR ''&'' \<notin> set q"
  shows "str_find_int (search_page q sorting) ''list?q='' = 0"
    and "str_find_int (search_page q sorting) ''&'' = int (length q) + 7"
    and "str_find_int (search_page q sorting) ''&sort='' = int (length q) + 7"
    and "substr (search_page q sorting) 7 (int (length q)) = Inr q"
    and "substr (search_page q sorting) (13 + int (length q)) (int (length (search_page q sorting)) - 1) = Inr sorting"
proof -
  have amp: "CHR ''&'' \<notin> set (''list?q='' @ q)" using assms by simp
  have page: "search_page q sorting = (''list?q='' @ q) @ ''&sort='' @ sorting" by (simp add: search_page_def)
  have "str_find (search_page q sorting) ''&sort='' = Some (length (''list?q='' @ q))"
    unfolding page using str_find_skip_hd[OF amp] by simp
  then show "str_find_int (search_page q sorting) ''&sort='' = int (length q) + 7"
    by (simp add: str_find_int_def)
  have "str_find (search_page q sorting) ''&'' = Some (length (''list?q='' @ q))"
    unfolding page using str_find_skip_hd[OF amp] by simp
  then show "str_find_int (search_page q sorting) ''&'' = int (length q) + 7"
    by (simp add: str_find_int_def)
  show "str_find_int (search_page q sorting) ''list?q='' = 0" by (simp add: str_find_int_def search_page_def)
  show "substr (search_page q sorting) 7 (int (length q)) = Inr q"
    by (simp add: substr_def search_page_def)
  have n: "nat (13 + int (length q)) = length q + 13" by (simp add: nat_add_distrib)
  have u: "length (''list?q='' @ q @ ''&sort='') = length q + 13" by simp
  have "drop (length u) (u @ s) = s" for u s :: string by simp
  from this[of "''list?q='' @ q @ ''&sort=''" sorting]
  have "drop (length q + 13) (search_page q sorting) = sorting"
    by (simp only: u search_page_def append_assoc)
  moreover have "length sorting \<le> nat (int (length (search_page q sorting)) - 1)"
    by (simp add: search_page_def)
  ultimately show "substr (search_page q sorting) (13 + int (length q))
      (int (length (search_page q sorting)) - 1) = Inr sorting"
    by (simp add: substr_def n) (simp add: search_page_def)
qed

context meme_archive
begin

lemma MemeSearch_found:
  assumes "healthy w" and "mh_savedir h = savedir" and "memebody h = []"
    and "memepage h = search_page q sorting" and "CHR ''&'' \<notin> set q"
    and "urlDecode (env_replace_all env q ''+'' '' '') = Inr u" and "term = htmlDecode (env_replace_all env) u"
    and "ascii_pattern (''%'' @ htmlEncode term @ ''%'')"
    and "env_file env ''memes_r_us/list.html'' = Some page"
  shows "\<exists>es w'. MemeSearch env h w = Inr (False, h\<lparr>memebody := env_replace_all env (env_replace_all env
      (page @ listing (found_line (length es)) es) ''searchterm_replacethis'' term)
      ''sortterm_replacethis'' sorting\<rparr>, w') \<and>
    distinct es \<and> set es = {(k, m). memes (contents w) k = Some m \<and> found_by (replicate 3 (''%'' @ htmlEncode term @ ''%'')) m} \<and>
    listed_as env contents (contents w) (replicate 3 (''%'' @ htmlEncode term @ ''%'')) sorting es \<and>
    healthy w' \<and> contents w' = contents w"
proof -
  let ?t = "''%'' @ htmlEncode term @ ''%''"
  have three: "[?t, ?t, ?t] = replicate 3 ?t" by (simp add: eval_nat_numeral)
  obtain es w1 where es: "SearchFromDatabase env savedir term sorting w = Inr (map (\<lambda>(k, m). meme_map k m) es, w1)"
    "distinct es" "set es = {(k, m). memes (contents w) k = Some m \<and> found_by (replicate 3 ?t) m}"
    "listed_as env contents (contents w) (replicate 3 ?t) sorting es" "healthy w1" "contents w1 = contents w"
    using SearchFromDatabase_found[OF assms(1,8), of sorting] unfolding three by blast
  have "search_page q sorting \<noteq> []" by (simp add: search_page_def)
  with es(1) assms(2-7,9) search_page_parts[OF assms(5), of sorting]
  have "MemeSearch env h w = Inr (False, h\<lparr>memebody := env_replace_all env (env_replace_all env
      (page @ listing (found_line (length es)) es) ''searchterm_replacethis'' term)
      ''sortterm_replacethis'' sorting\<rparr>, w1)"
    by (simp add: MemeSearch_def append_template_def listing_eq found_line_def Let_def)
  with es(2-6) show ?thesis by blast
qed

lemma delete_all_vault:
  assumes "healthy w"
  shows "\<exists>w'. delete_row env savedir ''MEME_ID'' w = Inr (True, w') \<and> healthy w' \<and>
    memes (contents w') = Map.empty"
proof -
  obtain w1 where w1: "sql_open env (db_path savedir) w = (True, w1)" "healthy w1" "contents w1 = contents w"
    using open_ok[OF assms] by blast
  obtain w2 where w2: "sql_exec env (sql_delete @ ''MEME_ID'') w1 = (contents w1 \<noteq> None, [], w2)"
    "healthy w2" "contents w2 = map_option (\<lambda>v. Map.empty) (contents w)"
    using delete_all_ok[OF w1(2)] w1(3) by auto
  have "c_str (sql_delete @ ''MEME_ID'') = sql_delete @ ''MEME_ID''" by code_simp
  with w1 w2 close_ok[of w2] show ?thesis
    by (cases "contents w") (simp_all add: delete_row_def)
qed

end

section \<open>The reference database has these laws\<close>

lemma ref_order_set: "set (ref_order sql t) = set t" and ref_order_distinct: "distinct (ref_order sql t) = distinct t"
  by (simp_all add: ref_order_def)

lemma ref_order_name: "sorted (map (\<lambda>(k, m). meme_name m) (ref_order (like_statement @ '' ORDER BY NAME ASC'') t))"
  and ref_order_name_desc: "sorted (rev (map (\<lambda>(k, m). meme_name m) (ref_order (like_statement @ '' ORDER BY NAME DESC'') t)))"
  and ref_order_id: "ascending t \<Longrightarrow> sorted (map fst (ref_order (like_statement @ '' ORDER BY MEME_ID ASC'') t))"
  by (auto simp: ref_order_def ascending_def case_prod_unfold rev_map[symmetric] intro: strict_sorted_imp_sorted)

text \<open>What the reference database gives for a search.\<close>

lemma ref_search:
  assumes "clause \<in> set order_clauses"
  shows "sql_run (ref_env files) (like_statement @ clause) ts w = (case rw_table w of None \<Rightarrow> ([], False, w)
    | Some t \<Rightarrow> (map (\<lambda>(k, m). meme_row k m) (ref_order (like_statement @ clause)
        (filter (\<lambda>(k, m). found_by ts m) t)), True, w))"
  using search_statement[OF assms] sql_distinct_search by (auto simp: ref_env_def ref_run_def split: option.split)

lemma ref_search_rows:
  assumes "clause \<in> set order_clauses" and "ref_healthy w"
    and "sql_run (ref_env files) (like_statement @ clause) ts w = (map (\<lambda>(k, m). meme_row k m) es, fin, w')"
  shows "\<exists>t. ascending t \<and> es = ref_order (like_statement @ clause) t"
proof (cases "rw_table w")
  case None
  then have "es = ref_order (like_statement @ clause) []"
    using assms(3) by (simp add: ref_search[OF assms(1)] ref_order_def)
  then show ?thesis using ascending_def by (intro exI[of _ "[]"]) simp
next
  case (Some t)
  then have "es = ref_order (like_statement @ clause) (filter (\<lambda>(k, m). found_by ts m) t)"
    using assms(3) by (simp add: ref_search[OF assms(1)] rows_inject)
  moreover have "ascending (filter (\<lambda>(k, m). found_by ts m) t)"
    using assms(2) Some by (simp add: ref_healthy_def ascending_filter)
  ultimately show ?thesis by blast
qed

lemma clauses_in: "'' ORDER BY NAME ASC'' \<in> set order_clauses" "'' ORDER BY NAME DESC'' \<in> set order_clauses"
  "'' ORDER BY MEME_ID ASC'' \<in> set order_clauses" "'''' \<in> set order_clauses"
  by (simp_all add: order_clauses_def)

interpretation ref_archive: meme_archive "ref_env files" savedir ref_healthy ref_contents
proof (unfold_locales, goal_cases)
  case (1 w clause)
  then show ?case using search_statement[of clause] by (auto simp: ref_defs)
next
  case (2 w clause ts rows fin w')
  then show ?case by (auto simp: ref_search split: option.splits)
next
  case (3 w v clause ts)
  then obtain tb where tb: "rw_table w = Some tb" "ascending tb" "v = map_of tb"
    by (auto simp: ref_defs)
  let ?es = "ref_order (like_statement @ clause) (filter (\<lambda>(k, m). found_by ts m) tb)"
  have "sql_run (ref_env files) (like_statement @ clause) ts w = (map (\<lambda>(k, m). meme_row k m) ?es, True, w)"
    using tb(1) 3(3) by (simp add: ref_search)
  moreover have "distinct ?es" using tb(2) by (simp add: ref_order_distinct ascending_distinct ascending_filter)
  moreover have "set ?es = {(k, m). v k = Some m \<and> found_by ts m}"
    using tb(2,3) by (auto simp: ref_order_set ascending_map_of)
  ultimately show ?case by blast
next
  case (4 w ts es fin w')
  then show ?case using ref_search_rows[OF clauses_in(1) 4] ref_order_name by blast
next
  case (5 w ts es fin w')
  then show ?case using ref_search_rows[OF clauses_in(2) 5] ref_order_name_desc by blast
next
  case (6 w ts es fin w')
  then show ?case using ref_search_rows[OF clauses_in(3) 6] ref_order_id by blast
next
  case (7 w)
  have "sql_delete @ ''MEME_ID'' \<noteq> sql_create" "sql_delete @ ''MEME_ID'' \<noteq> sql_select_all"
    using sql_distinct(3,4) by blast+
  with 7 show ?case by (auto simp: ref_defs ascending_def split: option.splits)
qed

section \<open>Properties\<close>

text \<open>A term without wildcards, in ASCII, that is not too long for SQLite once it is encoded.\<close>

definition term_char :: "char \<Rightarrow> bool" where
  "term_char c \<longleftrightarrow> c \<noteq> CHR ''%'' \<and> c \<noteq> CHR ''_'' \<and> c \<noteq> CHR 0x00 \<and> of_char c < (128 :: nat)"

definition search_term_ok :: "string \<Rightarrow> bool" where
  "search_term_ok term \<longleftrightarrow> length (htmlEncode term) \<le> 49998 \<and> list_all term_char term"

lemma term_char_encoded: "term_char d \<Longrightarrow> list_all term_char (html_char d)"
proof -
  have "list_all (list_all term_char) [''&amp;'', ''&quot;'', ''&apos;'', ''&lt;'', ''&gt;'', ''&nbsp;'']"
    by code_simp
  then show "term_char d \<Longrightarrow> list_all term_char (html_char d)"
    by (auto simp only: html_char_def list.pred_inject split: if_splits)
qed

lemma encoded_term:
  assumes "search_term_ok term"
  shows "no_wildcard (htmlEncode term)" and "ascii_pattern (''%'' @ htmlEncode term @ ''%'')"
proof -
  have *: "\<forall>c\<in>set (htmlEncode term). term_char c"
    using assms term_char_encoded by (auto simp: search_term_ok_def htmlEncode_concat list_all_iff)
  from * show "no_wildcard (htmlEncode term)" unfolding no_wildcard_def term_char_def by blast
  have "CHR ''%'' \<noteq> CHR ''_''" "CHR ''%'' \<noteq> CHR 0x00" "of_char (CHR ''%'') < (128 :: nat)" by code_simp+
  with * show "ascii_pattern (''%'' @ htmlEncode term @ ''%'')"
    using assms unfolding ascii_pattern_def search_term_ok_def term_char_def by auto
qed

text \<open>C15: A search request gives a page with one line for each of exactly the stored memes whose name, top or
  bottom text contains the encoded term, without regard to the case of letters. They are sorted by name,
  backwards by name or by identifier where this is asked for; for the newest, they are in the
  reverse of the order in which the database gives them, and else in this order.\<close>

theorem search_lists_exactly:
  assumes "meme_archive env savedir healthy contents" and "healthy w" and "mh_savedir h = savedir"
    and "memebody h = []" and "memepage h = search_page q sorting" and "CHR ''&'' \<notin> set q"
    and "urlDecode (env_replace_all env q ''+'' '' '') = Inr u" and "term = htmlDecode (env_replace_all env) u"
    and "search_term_ok term" and "env_file env ''memes_r_us/list.html'' = Some page"
  shows "\<exists>es w'. meme_action env h req w = Inr (False, h\<lparr>memebody := env_replace_all env (env_replace_all env
      (page @ listing (found_line (length es)) es) ''searchterm_replacethis'' term)
      ''sortterm_replacethis'' sorting\<rparr>, [], w') \<and>
    distinct es \<and> contents w' = contents w \<and>
    listed_as env contents (contents w) (replicate 3 (''%'' @ htmlEncode term @ ''%'')) sorting es \<and>
    set es = {(k, m). memes (contents w) k = Some m \<and>
      (\<exists>x\<in>{meme_name m, meme_top m, meme_bottom m}. contains_text (htmlEncode term) (c_str x))}"
proof -
  have "found_by (replicate 3 (''%'' @ htmlEncode term @ ''%'')) m \<longleftrightarrow>
      (\<exists>x\<in>{meme_name m, meme_top m, meme_bottom m}. contains_text (htmlEncode term) (c_str x))" for m
    using like_contains[OF encoded_term(1)[OF assms(9)]] by (simp add: found_by_def eval_nat_numeral)
  moreover have "memepage h \<noteq> ''create''" "memepage h \<noteq> ''list''" "take 7 (memepage h) = ''list?q=''"
    using assms(5) by (simp_all add: search_page_def)
  ultimately show ?thesis
    using meme_archive.MemeSearch_found[OF assms(1-8) encoded_term(2)[OF assms(9)] assms(10)]
    by (fastforce simp: meme_action_def)
qed

definition list_file :: file_system where
  "list_file path = (if path = ''memes_r_us/list.html'' then Some ''<ul>'' else None)"

lemma one_meme_iff:
  "memes (ref_contents one_meme) k = Some m \<longleftrightarrow> k = ''10000'' \<and>
     m = \<lparr>meme_name = ''n'', meme_img = ''i'', meme_top = ''t'', meme_bottom = ''b'', meme_token = ''10000-aB3''\<rparr>"
  by (auto simp: one_meme_contents split: if_splits)

definition named :: "string \<Rightarrow> meme" where
  "named n = \<lparr>meme_name = n, meme_img = ''i'', meme_top = ''t'', meme_bottom = ''b'', meme_token = ''00001''\<rparr>"

definition two_memes :: ref_world where
  "two_memes = \<lparr>rw_table = Some [(''10000'', named ''nb''), (''10001'', named ''na'')], rw_seed = 7, rw_chunks = []\<rparr>"

lemma two_sorted:
  assumes "distinct es" and "set es = {a, b}" and "a \<noteq> b" and "sorted (map f es)" and "f b < (f a :: 'b :: linorder)"
  shows "es = [b, a]"
proof -
  have "length es = 2" using assms(1-3) distinct_card[of es] by simp
  then obtain x y where es: "es = [x, y]" by (auto simp: length_Suc_conv eval_nat_numeral)
  with assms(2-5) show ?thesis by (auto simp: doubleton_eq_iff)
qed

theorem search_lists_exactly_witness:
  "\<exists>h' w'. meme_action (ref_env list_file) (view_handler\<lparr>memepage := search_page ''N'' ''a-z''\<rparr>)
     (new_Request []) two_memes = Inr (False, h', [], w') \<and>
     memebody h' = ''<ul>'' @ found_line 2 @ entry_line (''10001'', named ''na'') @ entry_line (''10000'', named ''nb'') @
       ''</div>'' @ [CHR 0x0A] @ ''</div>'' @ [CHR 0x0A] @ ''</body>'' @ [CHR 0x0A] @ ''</html>''"
proof -
  let ?h = "view_handler\<lparr>memepage := search_page ''N'' ''a-z''\<rparr>"
  let ?found = "[(''10001'', named ''na''), (''10000'', named ''nb'')]"
  have env: "env_replace_all (ref_env list_file) = replace_leftmost"
    "env_file (ref_env list_file) ''memes_r_us/list.html'' = Some ''<ul>''"
    by (simp_all add: ref_env_def list_file_def)
  have h: "mh_savedir ?h = ''/data''" "memebody ?h = []" "memepage ?h = search_page ''N'' ''a-z''"
    by (simp_all add: view_handler_def)
  have q: "CHR ''&'' \<notin> set ''N''" by simp
  have u: "urlDecode (env_replace_all (ref_env list_file) ''N'' ''+'' '' '') = Inr ''N''"
    "''N'' = htmlDecode (env_replace_all (ref_env list_file)) ''N''"
    unfolding env by code_simp+
  have ok: "search_term_ok ''N''" by (simp add: search_term_ok_def term_char_def html_char_def)
  have healthy: "ref_healthy two_memes" unfolding ref_healthy_def two_memes_def by code_simp
  have table: "memes (ref_contents two_memes) = [''10000'' \<mapsto> named ''nb'', ''10001'' \<mapsto> named ''na'']"
    by (simp add: two_memes_def ref_contents_def fun_eq_iff)
  have hit: "contains_text (htmlEncode ''N'') (c_str (meme_name (named ''nb'')))"
    "contains_text (htmlEncode ''N'') (c_str (meme_name (named ''na'')))" by code_simp+
  obtain es w' where es: "meme_action (ref_env list_file) ?h (new_Request []) two_memes = Inr (False, ?h\<lparr>memebody :=
      replace_leftmost (replace_leftmost (''<ul>'' @ listing (found_line (length es)) es)
        ''searchterm_replacethis'' ''N'') ''sortterm_replacethis'' ''a-z''\<rparr>, [], w')"
    and distinct: "distinct es" and sorted: "sorted (map (\<lambda>(k, m). meme_name m) es)"
    and set: "set es = {(k, m). memes (ref_contents two_memes) k = Some m \<and>
      (\<exists>x\<in>{meme_name m, meme_top m, meme_bottom m}. contains_text (htmlEncode ''N'') (c_str x))}"
    using search_lists_exactly[OF ref_archive.meme_archive_axioms healthy h q u ok env(2), of "new_Request []"]
    unfolding env listed_as_def by auto
  have "set es = {(''10000'', named ''nb''), (''10001'', named ''na'')}"
    unfolding set table using hit by (auto split: if_splits)
  then have "es = ?found"
    using distinct sorted by (intro two_sorted[where f = "\<lambda>(k, m). meme_name m"]) (simp_all add: named_def)
  moreover have "replace_leftmost (replace_leftmost (''<ul>'' @ listing (found_line 2) ?found)
      ''searchterm_replacethis'' ''N'') ''sortterm_replacethis'' ''a-z'' = ''<ul>'' @ listing (found_line 2) ?found"
    by code_simp
  moreover have "length ?found = 2" by simp
  ultimately have "meme_action (ref_env list_file) ?h (new_Request []) two_memes = Inr (False,
      ?h\<lparr>memebody := ''<ul>'' @ listing (found_line 2) ?found\<rparr>, [], w')"
    using es by (simp only:)
  then show ?thesis by (simp add: listing_def)
qed

text \<open>C34: The list page has one line for every stored meme and nothing else, in the reverse of the order in which
  the database gives the rows.\<close>

theorem list_shows_all_memes:
  assumes "meme_vault env savedir healthy contents" and "healthy w" and "mh_savedir h = savedir"
    and "memebody h = []" and "memepage h = ''list''"
    and "env_file env ''memes_r_us/list.html'' = Some page"
  shows "\<exists>es w'. meme_action env h req w = Inr (False, h\<lparr>memebody := env_replace_all env
      (page @ listing [] es) ''searchterm_replacethis'' []\<rparr>, [], w') \<and>
    distinct es \<and> set es = {(k, m). memes (contents w) k = Some m} \<and> contents w' = contents w \<and>
    (\<exists>w1 w2. contents w1 = contents w \<and> sql_exec env sql_select_all w1 =
      (contents w \<noteq> None, map (\<lambda>(k, m). zip column_names (meme_row k m)) (rev es), w2))"
proof -
  have "memepage h \<noteq> []" using assms(5) by simp
  from meme_vault.MemeList_vault[OF assms(1-3) this assms(4,6)] assms(5) show ?thesis
    by (fastforce simp: meme_action_def)
qed

theorem list_shows_all_memes_witness:
  "\<exists>h' w'. meme_action (ref_env list_file) (view_handler\<lparr>memepage := ''list''\<rparr>) (new_Request []) one_meme =
     Inr (False, h', [], w') \<and> memebody h' = ''<ul>'' @ entry_line (''10000'', named ''n'') @
       ''</div>'' @ [CHR 0x0A] @ ''</div>'' @ [CHR 0x0A] @ ''</body>'' @ [CHR 0x0A] @ ''</html>''"
proof -
  let ?h = "view_handler\<lparr>memepage := ''list''\<rparr>"
  let ?m = "\<lparr>meme_name = ''n'', meme_img = ''i'', meme_top = ''t'', meme_bottom = ''b'', meme_token = ''10000-aB3''\<rparr>"
  have env: "env_replace_all (ref_env list_file) = replace_leftmost"
    "env_file (ref_env list_file) ''memes_r_us/list.html'' = Some ''<ul>''"
    by (simp_all add: ref_env_def list_file_def)
  have h: "mh_savedir ?h = ''/data''" "memebody ?h = []" "memepage ?h = ''list''"
    by (simp_all add: view_handler_def)
  obtain es w' where es: "meme_action (ref_env list_file) ?h (new_Request []) one_meme = Inr (False,
      ?h\<lparr>memebody := replace_leftmost (''<ul>'' @ listing [] es) ''searchterm_replacethis'' []\<rparr>, [], w')"
    "distinct es" "set es = {(k, m). memes (ref_contents one_meme) k = Some m}"
    using list_shows_all_memes[OF ref_vault.meme_vault_axioms one_meme_healthy h env(2), of "new_Request []"]
    unfolding env by blast
  have "set es = {(''10000'', ?m)}" unfolding es(3) by (auto simp: one_meme_iff)
  moreover from this have "length es = 1" using distinct_card[OF es(2)] by simp
  then obtain x where "es = [x]" by (auto simp: length_Suc_conv)
  ultimately have "es = [(''10000'', ?m)]" by simp
  moreover have "replace_leftmost (''<ul>'' @ listing [] [(''10000'', ?m)]) ''searchterm_replacethis'' [] =
      ''<ul>'' @ listing [] [(''10000'', ?m)]" by code_simp
  ultimately show ?thesis using es(1) by (simp add: listing_def entry_line_def named_def)
qed

text \<open>Blanks are stored encoded, so a search for \<open>nbsp\<close> finds every text with a blank.\<close>

theorem entity_name_finds_blanks: "contains_text (htmlEncode ''nbsp'') (htmlEncode (u @ '' '' @ v))"
proof -
  have "htmlEncode (u @ '' '' @ v) = (htmlEncode u @ ''&'') @ htmlEncode ''nbsp'' @ ('';'' @ htmlEncode v)"
    by (simp add: htmlEncode_concat html_char_def)
  then show ?thesis unfolding contains_text_def by (simp only: map_append sublist_appendI)
qed

end
