(* ===== verification/Meme_Access.thy ===== *)
theory Meme_Access
  imports Meme_Search Proxy_Handler
begin

text \<open>
  Which requests change the table of memes. The locale \<open>meme_world\<close> adds to the contract of the
  database that using the network leaves it alone. A request that neither posts nor asks for a
  deletion keeps the table, whatever page it names; two requests that should not be able to do
  harm do: a deletion with the name of the column for an identifier, and an edit of an
  identifier that is no number.
\<close>

locale meme_world = meme_archive env savedir healthy contents
  for env :: "'w env" and savedir :: string and healthy :: "'w \<Rightarrow> bool"
    and contents :: "'w \<Rightarrow> table option" +
  assumes connect_keeps: "healthy w \<Longrightarrow> net_connect env host port w = Inr w' \<Longrightarrow>
      healthy w' \<and> contents w' = contents w"
    and write_keeps: "healthy w \<Longrightarrow> net_write env request w = Inr w' \<Longrightarrow>
      healthy w' \<and> contents w' = contents w"
    and read_until_keeps: "healthy w \<Longrightarrow> net_read_until env buf delim w = Inr (buf', w') \<Longrightarrow>
      healthy w' \<and> contents w' = contents w"
    and read_keeps: "healthy w \<Longrightarrow> net_read env buf w = (n, buf', w') \<Longrightarrow>
      healthy w' \<and> contents w' = contents w"

section \<open>Requests that only read\<close>

definition read_only :: "request \<Rightarrow> bool" where
  "read_only q \<longleftrightarrow> req_method q \<noteq> ''POST'' \<and> \<not> sublist ''delete?id='' (req_uri_path q)"

context meme_archive
begin

definition kept :: "'w \<Rightarrow> 'w \<Rightarrow> bool" where
  "kept w w' \<longleftrightarrow> healthy w' \<and> contents w' = contents w"

lemma kept_trans: "kept w w' \<Longrightarrow> kept w' w'' \<Longrightarrow> kept w w''"
  by (simp add: kept_def)

lemma kept_refl: "healthy w \<Longrightarrow> kept w w"
  by (simp add: kept_def)

lemma open_kept: "healthy w \<Longrightarrow> sql_open env (db_path savedir) w = (opened, w') \<Longrightarrow> opened \<and> kept w w'"
  using open_ok[of w] by (auto simp: kept_def)

lemma close_kept: "kept w w' \<Longrightarrow> kept w (sql_close env w')"
  using close_ok[of w'] by (simp add: kept_def)

lemma select_id_kept:
  "healthy w \<Longrightarrow> sql_prepare env sql_select_id w \<Longrightarrow> sql_run env sql_select_id [k] w = (rows, fin, w') \<Longrightarrow> kept w w'"
  using prepare_ok[of w sql_select_id] select_id_ok[of w "the (contents w)" k] by (auto simp: kept_def)

lemma search_kept:
  "healthy w \<Longrightarrow> sql_run env (sql_search sorting) ts w = (rows, fin, w') \<Longrightarrow> kept w w'"
  using search_reads[OF _ order_clause_in, folded sql_search_clause] by (simp add: kept_def)

lemma GetAll_kept: "healthy w \<Longrightarrow> GetAllFromDatabase env savedir w = Inr (ms, w') \<Longrightarrow> kept w w'"
  using GetAllFromDatabase_vault[of w] by (auto simp: kept_def)

lemma GetMeme_kept: "healthy w \<Longrightarrow> GetMemeFromDatabase env savedir k w = Inr (m, w') \<Longrightarrow> kept w w'"
  using GetMemeFromDatabase_vault[of w k] by (auto simp: kept_def)

lemma Search_kept:
  assumes "healthy w" and "SearchFromDatabase env savedir term sorting w = Inr (ms, w')"
  shows "kept w w'"
proof -
  let ?t = "''%'' @ htmlEncode term @ ''%''"
  obtain w1 where w1: "sql_open env (db_path savedir) w = (True, w1)" "kept w w1"
    using open_ok[OF assms(1)] by (auto simp: kept_def)
  then have h: "healthy w1" by (simp add: kept_def)
  obtain rows fin w2 where r: "sql_run env (sql_search sorting) [?t, ?t, ?t] w1 = (rows, fin, w2)"
    by (cases "sql_run env (sql_search sorting) [?t, ?t, ?t] w1")
  from search_kept[OF h r] w1(2) have "kept w w2" by (rule kept_trans[rotated])
  with w1 r assms(2) show ?thesis
    by (auto simp: SearchFromDatabase_def Let_def split: if_splits intro: close_kept)
qed

lemma View_kept:
  assumes "healthy w" and "mh_savedir h = savedir" and "MemeView env bad h w = Inr (e, h', w')"
  shows "kept w w'"
proof (cases "str_find_int (memepage h) ''id='' = -1")
  case True
  with assms show ?thesis by (simp add: MemeView_def kept_refl)
next
  case False
  then obtain k where k: "page_id h = Inr k" using assms(3) by (auto simp: MemeView_def)
  obtain w1 where w1: "sql_open env (db_path savedir) w = (True, w1)" "kept w w1"
    using open_ok[OF assms(1)] by (auto simp: kept_def)
  then have h: "healthy w1" by (simp add: kept_def)
  obtain rows fin w2 where r: "sql_run env sql_select_id [k] w1 = (rows, fin, w2)"
    by (cases "sql_run env sql_select_id [k] w1")
  show ?thesis
  proof (cases "sql_prepare env sql_select_id w1")
    case True
    have "kept w w2" using kept_trans[OF w1(2) select_id_kept[OF h True r]] .
    with True False k w1 r assms(2,3) show ?thesis
      by (auto simp: MemeView_def split_beta split: step.splits intro: close_kept)
  next
    case no: False
    with False k w1 assms(2,3) show ?thesis
      by (auto simp: MemeView_def split_beta intro: close_kept)
  qed
qed

lemma verify_kept:
  assumes "healthy w" and "mh_savedir h = savedir" and "verifyTokenAuthentication env h q w = Inr (a, log, w')"
  shows "kept w w'"
  using assms GetAll_kept kept_refl
  by (auto simp: verifyTokenAuthentication_def Let_def split: if_splits)

lemma Edit_kept:
  "healthy w \<Longrightarrow> mh_savedir h = savedir \<Longrightarrow> MemeEdit env h w = Inr (e, h', w') \<Longrightarrow> kept w w'"
  by (auto simp: MemeEdit_def append_template_def kept_refl Let_def split: option.splits if_splits intro: GetMeme_kept)

lemma List_kept:
  "healthy w \<Longrightarrow> mh_savedir h = savedir \<Longrightarrow> MemeList env h w = Inr (e, h', w') \<Longrightarrow> kept w w'"
  by (auto simp: MemeList_def append_template_def Let_def split: option.splits if_splits intro: GetAll_kept)

lemma MemeSearch_kept:
  "healthy w \<Longrightarrow> mh_savedir h = savedir \<Longrightarrow> MemeSearch env h w = Inr (e, h', w') \<Longrightarrow> kept w w'"
  by (auto simp: MemeSearch_def append_template_def kept_refl Let_def split: option.splits if_splits intro: Search_kept)

lemma action_kept:
  assumes "healthy w" and "mh_savedir h = savedir" and "req_method q \<noteq> ''POST'' \<or> \<not> post_page (memepage h)"
    and "take 10 (memepage h) \<noteq> ''delete?id=''" and "meme_action env h q w = Inr (e, h', log, w')"
  shows "kept w w'"
proof -
  have verified: "kept w w2" if "verifyTokenAuthentication env h q w = Inr (a, log1, w1)"
    "(if a then MemeEdit env h w1 else MemeView env True h w1) = Inr (e, h', w2)" for a log1 w1 w2
  proof -
    have w1: "kept w w1" using verify_kept[OF assms(1,2) that(1)] .
    then have "healthy w1" by (simp add: kept_def)
    with that(2) have "kept w1 w2" using Edit_kept[of w1 h] View_kept[of w1 h] assms(2) by (auto split: if_splits)
    with w1 show ?thesis by (rule kept_trans)
  qed
  show ?thesis
    using assms List_kept[OF assms(1,2)] MemeSearch_kept[OF assms(1,2)] View_kept[OF assms(1,2)] verified
    by (auto simp: meme_action_def post_page_def kept_refl Let_def split: if_splits prod.splits)
qed

lemma handled_page:
  assumes "substr (req_uri_path q) (int (length (mh_uri h)) + 1) (int (length (req_uri_path q))) = Inr page"
  shows "suffix page (req_uri_path q)"
proof -
  have "page = drop (nat (int (length (mh_uri h)) + 1)) (req_uri_path q)"
    using assms by (auto simp: substr_def split: if_splits)
  then show ?thesis by (simp add: suffix_drop)
qed

lemma MemeHandler_kept:
  assumes "healthy w" and "mh_savedir h = savedir" and "read_only q"
    and "MemeHandler_HandleRequest env h q w = Inr (r, log, w')"
  shows "kept w w'"
proof -
  obtain page e h' log' where page: "substr (req_uri_path q) (int (length (mh_uri h)) + 1)
      (int (length (req_uri_path q))) = Inr page"
    and act: "meme_action env (h\<lparr>memepage := page\<rparr>) q w = Inr (e, h', log', w')"
    using MemeHandler_InrD[OF assms(4)] by blast
  have "take 10 page = ''delete?id='' \<Longrightarrow> sublist ''delete?id='' page"
    by (metis prefix_imp_sublist take_is_prefix)
  then have "take 10 page \<noteq> ''delete?id=''"
    using assms(3) sublist_order.order_trans[OF _ suffix_imp_sublist[OF handled_page[OF page]]]
    by (auto simp: read_only_def)
  with action_kept[OF assms(1) _ _ _ act] assms(2,3) show ?thesis by (simp add: read_only_def)
qed

end

context meme_world
begin

lemma read_rest_kept:
  assumes "read_rest env response body w = Some res" and "healthy w"
  shows "kept w (snd res)"
proof -
  have "env = env \<longrightarrow> healthy w \<longrightarrow> kept w (snd res)"
  proof (rule read_rest.raw_induct[where P = "\<lambda>env' response body w res. env' = env \<longrightarrow> healthy w \<longrightarrow>
      kept w (snd res)", OF _ assms(1)], intro impI)
    fix rd :: "'w env \<Rightarrow> string \<Rightarrow> string \<Rightarrow> 'w \<Rightarrow> (string \<times> 'w) option" and env' response body w and res :: "string \<times> 'w"
    assume IH: "\<And>env' response body w res. rd env' response body w = Some res \<Longrightarrow>
        env' = env \<longrightarrow> healthy w \<longrightarrow> kept w (snd res)"
      and step: "(case net_read env' response w of (n, response, w) \<Rightarrow>
        if n = 0 then Some (body, w) else rd env' response (body @ response) w) = Some res"
      and env': "env' = env" and w: "healthy w"
    obtain n buf w1 where r: "net_read env response w = (n, buf, w1)" by (cases "net_read env response w")
    have w1: "kept w w1" using read_keeps[OF w r] by (simp add: kept_def)
    then have h1: "healthy w1" by (simp add: kept_def)
    show "kept w (snd res)"
    proof (cases "n = 0")
      case True
      with step r env' w1 show ?thesis by auto
    next
      case False
      with step r env' have "rd env buf (body @ buf) w1 = Some res" by simp
      with IH[of env buf "body @ buf" w1 res] h1 kept_trans[OF w1] show ?thesis by blast
    qed
  qed
  with assms(2) show ?thesis by blast
qed

lemma proxy_body_kept:
  assumes "healthy w" and "proxy_body env h response n m w = Inr (m', w')"
  shows "kept w w'"
  using assms read_rest_kept[of response _ w] kept_refl
  by (auto simp: proxy_body_def Let_def split: if_splits option.splits)

lemma HTTPRequest_kept:
  assumes "healthy w" and "HTTPRequest env h w = Inr (m, w')"
  shows "kept w w'"
proof -
  obtain w1 w2 response w3 where c: "net_connect env (ph_host h) (ph_port h) w = Inr w1"
    and s: "net_write env (proxy_request h) w1 = Inr w2" and u: "net_read_until env [] crlf w2 = Inr (response, w3)"
    using assms(2) by (auto simp: HTTPRequest_def Let_def)
  have w1: "kept w w1" using connect_keeps[OF assms(1) c] by (simp add: kept_def)
  have w2: "kept w w2" using write_keeps[OF _ s] w1 by (simp add: kept_def)
  have w3: "kept w w3" using read_until_keeps[OF _ u] w2 by (simp add: kept_def)
  have rest: "kept w w'" if "net_read_until env b (crlf @ crlf) w3 = Inr (response', w4)"
    "proxy_body env h r n m' w4 = Inr (m, w')" for b response' w4 r n m'
  proof -
    have w4: "kept w w4" using read_until_keeps[OF _ that(1)] w3 by (simp add: kept_def)
    then have "kept w4 w'" using proxy_body_kept[OF _ that(2)] by (simp add: kept_def)
    with w4 show ?thesis by (rule kept_trans)
  qed
  show ?thesis
    using assms(2) c s u w3 rest
    by (auto simp: HTTPRequest_def Let_def split: if_splits prod.splits)
qed

lemma ProxyHandler_kept:
  "healthy w \<Longrightarrow> ProxyHandler_HandleRequest env h q w = Inr (r, log, w') \<Longrightarrow> kept w w'"
  by (auto simp: ProxyHandler_HandleRequest_def Let_def intro: HTTPRequest_kept)

end

interpretation ref_world: meme_world "ref_env files" savedir ref_healthy ref_contents
  by unfold_locales (auto simp: ref_defs)

section \<open>An identifier that is no number\<close>

text \<open>Once the largest identifier is no number, there is no new identifier.\<close>

lemma poisoned_identifier:
  assumes "finite (dom v)" and "\<forall>j\<in>dom v. j \<le> k" and "stoi (c_str k) = Inl InvalidArgument"
  shows "new_identifier (v(k \<mapsto> m)) = Inl InvalidArgument"
proof -
  have "Max (dom (v(k \<mapsto> m))) = k"
    using assms(1,2) by (intro Max_eqI) auto
  then show ?thesis using assms(3) by (simp add: new_identifier_def next_id_def)
qed

text \<open>The tokens the test takes, on a table.\<close>

definition token_opens :: "table \<Rightarrow> string \<Rightarrow> bool" where
  "token_opens v tok \<longleftrightarrow> tok = ''partialnotcomplete'' \<or> CHR ''-'' \<in> set tok \<and>
     (\<exists>j m. v j = Some m \<and> c_str (meme_token m) = tok \<and> c_str j = takeWhile (\<lambda>c. c \<noteq> CHR ''-'') tok)"

lemma verify_opens:
  assumes "meme_vault env savedir healthy contents" and "healthy w"
    and "boost_split (env_split env)" and "mh_savedir h = savedir"
    and "parseRequestBody (env_split env) (req_body q) = Inr (mm, log)"
    and "token_opens (memes (contents w)) (map_index mm ''access-token'')"
  shows "\<exists>w'. verifyTokenAuthentication env h q w = Inr (True, log, w') \<and> healthy w' \<and> contents w' = contents w"
proof -
  let ?t = "map_index mm ''access-token''"
  note split = boost_split.split_first[OF assms(3), of "\<lambda>c. c \<in> set ''-''" ?t]
    boost_split.split_nonempty[OF assms(3), of "\<lambda>c. c \<in> set ''-''" ?t]
  obtain w' where "verifyTokenAuthentication env h q w = Inr
      (?t = ''partialnotcomplete'' \<or> CHR ''-'' \<in> set ?t \<and>
         (\<exists>j m. memes (contents w) j = Some m \<and> c_str (meme_token m) = ?t \<and>
            c_str j = env_split env (\<lambda>c. c \<in> set ''-'') ?t ! 0), log, w') \<and>
    healthy w' \<and> contents w' = contents w"
    using meme_vault.verify_vault[OF assms(1,2,4,5) refl split(2)] by blast
  with assms(6) show ?thesis unfolding token_opens_def split(1) by auto
qed

text \<open>The page behind a post shows the token: the mark in the box at its end is replaced, whatever the
  other replacements do.\<close>

lemma infobox_mark:
  "\<exists>u v. infobox k = u @ CHR '' '' # ''meme_object_atoken'' @ CHR ''<'' # v"
proof -
  have "infobox k = (let q = [CHR 0x22] in
      ''<div id='' @ q @ ''infobox'' @ q @ ''>'' @
      ''<a href='' @ q @ ''http://ss.gitrdone.cs130.org/meme/view?id='' @ k @ q @ '' class='' @ q @
      ''description'' @ q @ ''> URL: http://ss.gitrdone.cs130.org/meme/view?id='' @ k @ ''</a><br>'' @
      ''<p>Access Token (Used for Deletion):'') @ CHR '' '' # ''meme_object_atoken'' @ CHR ''<'' #
      (''/p></div>'' @ ''</body></html>'')"
    by (simp add: infobox_def)
  then show ?thesis by blast
qed

lemma token_on_page:
  assumes "boost_replace (env_replace_all env)"
  shows "sublist tok (fill_page env k (name, img, upper, lower, tok) (page @ infobox k))"
proof -
  let ?m = "''meme_object_atoken''"
  note around = boost_replace.replace_around[OF assms, of "CHR '' ''" _ "CHR ''<''" ?m]
  obtain u v where box: "page @ infobox k = u @ CHR '' '' # ?m @ CHR ''<'' # v"
    using infobox_mark[of k] by (metis append_assoc)
  have marks: "\<forall>p\<in>{''meme_object_id'', ''meme_object_name'', ''meme_object_img'', ''meme_object_top'', ''meme_object_bot''}.
      CHR '' '' \<notin> set p \<and> CHR ''<'' \<notin> set p \<and> p \<noteq> [] \<and> \<not> sublist p ?m" by code_simp
  have keep: "\<exists>u' v'. env_replace_all env (u @ CHR '' '' # ?m @ CHR ''<'' # v) p t = u' @ CHR '' '' # ?m @ CHR ''<'' # v'"
    if "p \<in> {''meme_object_id'', ''meme_object_name'', ''meme_object_img'', ''meme_object_top'', ''meme_object_bot''}"
    for p t u v using around[of p] marks that by blast
  obtain u1 v1 where 1: "env_replace_all env (page @ infobox k) ''meme_object_id'' k = u1 @ CHR '' '' # ?m @ CHR ''<'' # v1"
    unfolding box using keep by blast
  obtain u2 v2 where 2: "env_replace_all env (u1 @ CHR '' '' # ?m @ CHR ''<'' # v1) ''meme_object_name'' name =
      u2 @ CHR '' '' # ?m @ CHR ''<'' # v2" using keep by blast
  obtain u3 v3 where 3: "env_replace_all env (u2 @ CHR '' '' # ?m @ CHR ''<'' # v2) ''meme_object_img'' img =
      u3 @ CHR '' '' # ?m @ CHR ''<'' # v3" using keep by blast
  obtain u4 v4 where 4: "env_replace_all env (u3 @ CHR '' '' # ?m @ CHR ''<'' # v3) ''meme_object_top'' upper =
      u4 @ CHR '' '' # ?m @ CHR ''<'' # v4" using keep by blast
  obtain u5 v5 where 5: "env_replace_all env (u4 @ CHR '' '' # ?m @ CHR ''<'' # v4) ''meme_object_bot'' lower =
      u5 @ CHR '' '' # ?m @ CHR ''<'' # v5" using keep by blast
  have 6: "env_replace_all env (u5 @ CHR '' '' # ?m @ CHR ''<'' # v5) ?m tok =
      env_replace_all env u5 ?m tok @ CHR '' '' # tok @ CHR ''<'' # env_replace_all env v5 ?m tok"
    by (rule boost_replace.replace_between[OF assms]) simp_all
  have "fill_page env k (name, img, upper, lower, tok) (page @ infobox k) =
      env_replace_all env u5 ?m tok @ CHR '' '' # tok @ CHR ''<'' # env_replace_all env v5 ?m tok"
    by (simp only: fill_page_def Let_def prod.case 1 2 3 4 5 6)
  also have "sublist tok \<dots>" using sublist_appendI[of tok "env_replace_all env u5 ?m tok @ '' ''"] by simp
  finally show ?thesis .
qed

section \<open>Properties\<close>

text \<open>C17: The DELETE statement takes the identifier of the request as text: whoever has the token of one meme, or the
  master token, empties the whole table with the identifier MEME_ID.\<close>

theorem injected_delete_empties_table:
  assumes "meme_archive env savedir healthy contents" and "healthy w"
    and "boost_split (env_split env)" and "mh_savedir h = savedir" and "memepage h = ''delete?id=MEME_ID''"
    and "parseRequestBody (env_split env) (req_body q) = Inr (mm, log)"
    and "token_opens (memes (contents w)) (map_index mm ''access-token'')"
  shows "\<exists>w1 w2. delete_row env savedir ''MEME_ID'' w1 = Inr (True, w2) \<and> memes (contents w2) = Map.empty \<and>
    meme_action env h q w = (case env_file env ''memes_r_us/delete.html'' of
      None \<Rightarrow> Inr (True, h, log, w2) | Some page \<Rightarrow> Inl Undefined)"
proof -
  note vault = meme_archive.axioms(1)[OF assms(1)]
  obtain w0 where v: "verifyTokenAuthentication env h q w = Inr (True, log, w0)" "healthy w0"
    using verify_opens[OF vault assms(2-4,6,7)] by blast
  obtain mo w1 where w1: "GetMemeFromDatabase env savedir ''MEME_ID'' w0 = Inr (mo, w1)" "healthy w1"
    using meme_vault.GetMemeFromDatabase_vault[OF vault v(2)] by blast
  obtain w2 where w2: "delete_row env savedir ''MEME_ID'' w1 = Inr (True, w2)" "memes (contents w2) = Map.empty"
    using meme_archive.delete_all_vault[OF assms(1) w1(2)] by blast
  have "memepage h = ''delete?'' @ ''id='' @ ''MEME_ID''" using assms(5) by simp
  from page_id_of(1)[OF this] have "page_id h = Inr ''MEME_ID''" by simp
  with v(1) w1(1) w2 assms(4,5) show ?thesis
    by (intro exI[of _ w1] exI[of _ w2])
      (auto simp: meme_action_def MemeDelete_def append_template_def split: option.splits)
qed

theorem injected_delete_empties_table_witness:
  "\<exists>w2. memes (ref_contents w2) = Map.empty \<and>
     meme_action (ref_env view_file) (view_handler\<lparr>memepage := ''delete?id=MEME_ID''\<rparr>)
       ((new_Request [])\<lparr>req_body := ''access-token=10000-aB3''\<rparr>) one_meme =
     Inr (True, view_handler\<lparr>memepage := ''delete?id=MEME_ID''\<rparr>, [], w2)"
proof -
  let ?q = "(new_Request [])\<lparr>req_body := ''access-token=10000-aB3''\<rparr>"
  let ?h = "view_handler\<lparr>memepage := ''delete?id=MEME_ID''\<rparr>"
  have env: "boost_split (env_split (ref_env view_file))" "env_split (ref_env view_file) = split_compress"
    "env_file (ref_env view_file) ''memes_r_us/delete.html'' = None"
    using compress.boost_split_axioms by (simp_all add: ref_env_def view_file_def)
  have h: "mh_savedir ?h = ''/data''" "memepage ?h = ''delete?id=MEME_ID''" by (simp_all add: view_handler_def)
  have "parseRequestBody split_compress ''access-token=10000-aB3'' = Inr ([(''access-token'', ''10000-aB3'')], [])"
    by code_simp
  then have p: "parseRequestBody (env_split (ref_env view_file)) (req_body ?q) =
      Inr ([(''access-token'', ''10000-aB3'')], [])" by (simp add: env(2))
  have "c_str ''10000-aB3'' = ''10000-aB3''" "c_str ''10000'' = ''10000''" by code_simp+
  then have opens: "token_opens (memes (ref_contents one_meme)) (map_index [(''access-token'', ''10000-aB3'')] ''access-token'')"
    by (simp add: token_opens_def one_meme_iff map_index_def)
  show ?thesis
    using injected_delete_empties_table[OF ref_archive.meme_archive_axioms one_meme_healthy env(1) h p opens]
    unfolding env(3) by auto
qed

text \<open>C18: A posted edit of a stored meme, which needs no token, is answered with a page that shows its token.\<close>

theorem edit_reveals_token:
  assumes "meme_vault env savedir healthy contents" and "healthy w"
    and "boost_split (env_split env)" and "boost_replace (env_replace_all env)" and "mh_savedir h = savedir"
    and "post_page (memepage h)" and "req_method q = ''POST''"
    and "meme_form plain kvs m" and "req_body q = form_body plain kvs"
    and "map_of kvs ''posttype'' = Some ''edit''" and "map_of kvs ''meme_id'' = Some k"
    and "memes (contents w) k = Some old" and "c_str (meme_token old) = tok" and "tok \<noteq> []"
    and "memebody h = []" and "memepage h \<noteq> []" and "env_file env ''memes_r_us/view.html'' = Some page"
  shows "\<exists>body log w'. meme_action env h q w = Inr (False, h\<lparr>memebody := body\<rparr>, log, w') \<and> sublist tok body"
proof -
  let ?m = "\<lparr>meme_name = meme_name m, meme_img = meme_img m, meme_top = meme_top m,
    meme_bottom = meme_bottom m, meme_token = tok\<rparr>"
  obtain e h' log w' where act: "meme_action env h q w = Inr (e, h', log, w')"
    and res: "(e, h') = result_page env k (meme_vals ?m) h"
    using post_edit[OF assms(1-3,5-11)] assms(12,13) by force
  have "c_str tok = tok" unfolding assms(13)[symmetric] c_str_def by (rule takeWhile_idem)
  then have "result_page env k (meme_vals ?m) h = (False, h\<lparr>memebody :=
      fill_page env k (c_str (meme_name m), c_str (meme_img m), c_str (meme_top m), c_str (meme_bottom m), tok)
        (page @ infobox k)\<rparr>)"
    using assms(14-17) by (simp add: result_page_def append_template_def meme_vals_def)
  with act res token_on_page[OF assms(4), of tok k _ _ _ _ page] show ?thesis by auto
qed

theorem edit_reveals_token_witness:
  "\<exists>h body log w'. meme_action (ref_env view_file) (view_handler\<lparr>memepage := ''new''\<rparr>)
     ((new_Request [])\<lparr>req_method := ''POST'', req_body := form_body (\<lambda>c. False) edit_form\<rparr>) one_meme =
       Inr (False, h\<lparr>memebody := body\<rparr>, log, w') \<and> sublist ''10000-aB3'' body"
proof -
  let ?q = "(new_Request [])\<lparr>req_method := ''POST'', req_body := form_body (\<lambda>c. False) edit_form\<rparr>"
  let ?h = "view_handler\<lparr>memepage := ''new''\<rparr>"
  let ?old = "\<lparr>meme_name = ''n'', meme_img = ''i'', meme_top = ''t'', meme_bottom = ''b'', meme_token = ''10000-aB3''\<rparr>"
  have env: "boost_split (env_split (ref_env view_file))" "boost_replace (env_replace_all (ref_env view_file))"
    "env_file (ref_env view_file) ''memes_r_us/view.html'' = Some ''meme_object_top''"
    using compress.boost_split_axioms leftmost.boost_replace_axioms by (simp_all add: ref_env_def view_file_def)
  have page: "post_page ''new''" "c_str ''10000-aB3'' = ''10000-aB3''" by code_simp+
  have h: "mh_savedir ?h = ''/data''" "post_page (memepage ?h)" "memebody ?h = []" "memepage ?h \<noteq> []"
    using page(1) by (simp_all add: view_handler_def)
  have q: "req_method ?q = ''POST''" "req_body ?q = form_body (\<lambda>c. False) edit_form" by simp_all
  have kvs: "map_of edit_form ''posttype'' = Some ''edit''" "map_of edit_form ''meme_id'' = Some ''10000''"
    by (simp_all add: edit_form_def)
  have old: "memes (ref_contents one_meme) ''10000'' = Some ?old" "c_str (meme_token ?old) = ''10000-aB3''"
    "''10000-aB3'' \<noteq> []" using page(2) by (simp_all add: one_meme_contents)
  from edit_reveals_token[OF ref_vault.meme_vault_axioms one_meme_healthy env(1,2) h(1,2) q(1) edit_meme_form q(2) kvs
      old h(3,4) env(3)]
  show ?thesis by blast
qed

end
