(* ===== verification/Meme_Machine.thy ===== *)
theory Meme_Machine
  imports Meme_Access
begin

text \<open>
  The memes as an abstract machine: its state is the table, and a step keeps it, adds a meme
  under the new identifier with a token of the right form, or, if that is allowed, removes the
  meme of a numeral. The handler refines this machine on every request that edits nothing and
  names a numeral where it asks for a deletion; what holds of all runs of the machine, that
  identifiers are numerals and tokens carry them, and that adding loses no meme, is proved on
  the machine alone.
\<close>

section \<open>The machine\<close>

definition token_of :: "string \<Rightarrow> meme \<Rightarrow> bool" where
  "token_of k m \<longleftrightarrow> (\<exists>s. meme_token m = k @ ''-'' @ s \<and> set s \<subseteq> set token_alphabet)"

inductive table_step :: "bool \<Rightarrow> table \<Rightarrow> table \<Rightarrow> bool" for deletes where
  keep: "table_step deletes v v"
| add: "new_identifier v = Inr k \<Longrightarrow> token_of k m \<Longrightarrow> table_step deletes v (v(k \<mapsto> m))"
| remove: "deletes \<Longrightarrow> table_step deletes v (v(to_string n := None))"

inductive_cases table_stepE [elim]: "table_step deletes v v'"

text \<open>Every identifier is a numeral from 10000 on, and its token starts with it.\<close>

definition table_ok :: "table \<Rightarrow> bool" where
  "table_ok v \<longleftrightarrow> finite (dom v) \<and>
     (\<forall>k m. v k = Some m \<longrightarrow> (\<exists>n\<ge>10000. k = to_string n) \<and> token_of k m)"

lemma new_identifier_numeral:
  assumes "table_ok v" and "new_identifier v = Inr k"
  shows "\<exists>n\<ge>10000. k = to_string n"
proof (cases "dom v = {}")
  case True
  with assms(2) show ?thesis by (intro exI[of _ 10000]) (simp add: new_identifier_def small_ids)
next
  case False
  then have "Max (dom v) \<in> dom v" using assms(1) by (simp add: table_ok_def)
  then obtain n where n: "n \<ge> 10000" "Max (dom v) = to_string n"
    using assms(1) by (auto simp: table_ok_def)
  with assms(2) False have "next_id (to_string n) = Inr k"
    by (simp add: new_identifier_def c_str_to_string)
  then obtain j where j: "stoi (to_string n) = Inr j" "k = int_to_string (j + 1)"
    by (auto simp: next_id_def split: if_splits)
  have "j = int n"
    using j(1) by (cases "n < 2 ^ 31") (auto simp: stoi_to_string[of n "[]", simplified]
        stoi_def read_int_digits[of "to_string n" "[]", simplified] to_string_digits int_range_def split: if_splits)
  with j(2) n(1) show ?thesis
    by (intro exI[of _ "n + 1"]) (simp add: int_to_string_def nat_add_distrib)
qed

lemma table_ok_step:
  assumes "table_step deletes v v'" and "table_ok v"
  shows "table_ok v'"
  using assms(1)
proof cases
  case (add k m)
  with assms(2) new_identifier_numeral[OF assms(2) add(2)] show ?thesis
    by (auto simp: table_ok_def split: if_splits)
next
  case (remove n)
  with assms(2) show ?thesis by (auto simp: table_ok_def split: if_splits)
qed (use assms(2) in simp)

lemma table_ok_steps: "(table_step deletes ^^ n) v v' \<Longrightarrow> table_ok v \<Longrightarrow> table_ok v'"
  by (induction n arbitrary: v') (auto intro: table_ok_step)

text \<open>While the numerals have five digits, adding a meme replaces none.\<close>

definition ids_below :: "nat \<Rightarrow> table \<Rightarrow> bool" where
  "ids_below n v \<longleftrightarrow> finite (dom v) \<and> dom v \<subseteq> to_string ` {10000..<10000 + n}"

lemma ids_below_add:
  assumes "ids_below n v" and "n \<le> 89999" and "new_identifier v = Inr k"
  shows "ids_below (Suc n) (v(k \<mapsto> m))" and "v k = None"
proof -
  have five: "five_digit_ids v" using assms(1,2) by (force simp: ids_below_def five_digit_ids_def)
  then obtain i where i: "10000 \<le> i" "new_identifier v = Inr (to_string i)"
      "\<forall>m. to_string m \<in> dom v \<longrightarrow> m < i" "to_string i \<notin> dom v"
    and new: "dom v \<noteq> {} \<longrightarrow> (\<exists>j. i = j + 1 \<and> to_string j \<in> dom v)" "dom v = {} \<longrightarrow> i = 10000"
    using new_identifier_next[OF five] by blast
  with assms(3) have k: "k = to_string i" by simp
  have "i < 10000 + Suc n"
  proof (cases "dom v = {}")
    case False
    with new obtain j where "i = j + 1" "to_string j \<in> dom v" by blast
    with assms(1) show ?thesis by (auto simp: ids_below_def to_string_inject)
  qed (use new in simp)
  with assms(1) i(1) k show "ids_below (Suc n) (v(k \<mapsto> m))" by (force simp: ids_below_def)
  show "v k = None" using i(4) k by (simp add: domIff)
qed

lemma adding_keeps:
  "(table_step False ^^ j) v v' \<Longrightarrow> ids_below n v \<Longrightarrow> n + j \<le> 90000 \<Longrightarrow> v \<subseteq>\<^sub>m v' \<and> ids_below (n + j) v'"
proof (induction j arbitrary: v')
  case 0
  then show ?case by simp
next
  case (Suc j)
  then obtain u where u: "(table_step False ^^ j) v u" "table_step False u v'" by auto
  with Suc have IH: "v \<subseteq>\<^sub>m u" "ids_below (n + j) u" by simp_all
  from u(2) show ?case
  proof cases
    case keep
    with IH show ?thesis by (auto simp: ids_below_def)
  next
    case (add k m)
    have "n + j \<le> 89999" using Suc.prems(3) by simp
    then have "ids_below (Suc (n + j)) v'" "u k = None"
      using ids_below_add[OF IH(2) _ add(2)] add(1) by simp_all
    moreover have "v \<subseteq>\<^sub>m v'" using IH(1) \<open>u k = None\<close> add(1) by (force simp: map_le_def dom_def)
    ultimately show ?thesis by simp
  qed simp
qed

section \<open>The handler refines the machine\<close>

text \<open>
  Requests the machine allows: what follows \<^verbatim>\<open>delete?id=\<close> in the path, wherever that is, is a
  numeral below \<open>2 ^ 63\<close>, the bound of an SQLite integer (a larger literal is a real number, and
  compares as its decimal text), and the form of a post is of another type than \<^verbatim>\<open>edit\<close>.
\<close>

definition tame :: "bool \<Rightarrow> ((char \<Rightarrow> bool) \<Rightarrow> string \<Rightarrow> string list) \<Rightarrow> request \<Rightarrow> bool" where
  "tame deletes split q \<longleftrightarrow>
     (\<forall>rest. suffix (''delete?id='' @ rest) (req_uri_path q) \<longrightarrow> deletes \<and> (\<exists>n<2 ^ 63. rest = to_string n)) \<and>
     (req_method q = ''POST'' \<longrightarrow> (\<forall>mm log. parseRequestBody split (req_body q) = Inr (mm, log) \<longrightarrow>
        map_index mm ''posttype'' \<noteq> ''edit''))"

context meme_archive
begin

definition refines :: "bool \<Rightarrow> 'w \<Rightarrow> 'w \<Rightarrow> bool" where
  "refines deletes w w' \<longleftrightarrow> healthy w' \<and> table_step deletes (memes (contents w)) (memes (contents w'))"

lemma kept_refines: "kept w w' \<Longrightarrow> refines deletes w w'"
  by (simp add: kept_def refines_def table_step.keep)

lemma AddToDatabase_refines:
  assumes "healthy w" and "AddToDatabase env savedir j tok n i t b True w = Inr (k, w')"
  shows "refines deletes w w'"
proof (cases "new_identifier (memes (contents w))")
  case (Inl f)
  from AddToDatabase_refused[OF assms(1) Inl] assms(2) show ?thesis by simp
next
  case (Inr k')
  obtain w0 w1 where "AddToDatabase env savedir j tok n i t b True w = Inr (k', w1)" "healthy w1"
    "memes (contents w1) = (memes (contents w))(k' \<mapsto> \<lparr>meme_name = n, meme_img = i, meme_top = t,
      meme_bottom = b, meme_token = k' @ ''-'' @ fst (gen_access_token env (length k') w0)\<rparr>)"
    using AddToDatabase_new[OF assms(1) Inr] by blast
  moreover have "set (fst (gen_access_token env (length k') w0)) \<subseteq> set token_alphabet"
    using scramble_loop_shape[of env _ w0] by (simp add: gen_access_token_def)
  ultimately show ?thesis
    using assms(2) table_step.add[OF Inr] by (simp add: refines_def token_of_def)
qed

lemma post_refines:
  assumes "healthy w" and "mh_savedir h = savedir" and "req_method q = ''POST''" and "post_page (memepage h)"
    and "parseRequestBody (env_split env) (req_body q) = Inr (mm, log1)" and "map_index mm ''posttype'' \<noteq> ''edit''"
    and "meme_action env h q w = Inr (e, h', log, w')"
  shows "refines deletes w w'"
proof -
  obtain k w1 where add: "AddToDatabase env savedir (map_index mm ''meme_id'') (map_index mm ''access_token'')
      (map_index mm ''name'') (map_index mm ''image'') (map_index mm ''top'') (map_index mm ''bottom'') True w = Inr (k, w1)"
    and res: "MemeResult env k h w1 = Inr (e, h', w')"
    using assms(2-7) by (auto simp: meme_action_def post_page_def Let_def)
  have w1: "refines deletes w w1" using AddToDatabase_refines[OF assms(1) add] .
  then have "healthy w1" by (simp add: refines_def)
  from MemeResult_vault[OF this assms(2), of k] res have "healthy w'" "contents w' = contents w1" by auto
  with w1 show ?thesis by (simp add: refines_def)
qed

lemma delete_refines:
  assumes "healthy w" and "mh_savedir h = savedir" and "memepage h = ''delete?id='' @ to_string n"
    and "MemeDelete env h w = Inr (e, h', w')" and "deletes" and "n < 2 ^ 63"
  shows "refines deletes w w'"
proof -
  have "memepage h = ''delete?'' @ ''id='' @ to_string n" using assms(3) by simp
  from page_id_of(1)[OF this] have page: "page_id h = Inr (to_string n)" by simp
  obtain m w1 where w1: "GetMemeFromDatabase env savedir (to_string n) w = Inr (m, w1)" "kept w w1"
    using GetMemeFromDatabase_vault[OF assms(1), of "to_string n"] unfolding kept_def by blast
  then have "healthy w1" by (simp add: kept_def)
  from delete_row_vault[OF this assms(6)] obtain w2 where w2: "delete_row env savedir (to_string n) w1 = Inr (True, w2)"
    "healthy w2" "memes (contents w2) = (memes (contents w))(to_string n := None)"
    using w1(2) by (auto simp: kept_def)
  with page w1(1) assms(2,4) have "w' = w2"
    by (auto simp: MemeDelete_def append_template_def split: option.splits if_splits)
  with w2 table_step.remove[OF assms(5)] show ?thesis by (simp add: refines_def)
qed

lemma action_refines:
  assumes "healthy w" and "mh_savedir h = savedir"
    and "\<And>rest. memepage h = ''delete?id='' @ rest \<Longrightarrow> deletes \<and> (\<exists>n<2 ^ 63. rest = to_string n)"
    and "\<And>mm log. req_method q = ''POST'' \<Longrightarrow> parseRequestBody (env_split env) (req_body q) = Inr (mm, log) \<Longrightarrow>
      map_index mm ''posttype'' \<noteq> ''edit''"
    and "meme_action env h q w = Inr (e, h', log, w')"
  shows "refines deletes w w'"
proof (cases "take 10 (memepage h) = ''delete?id=''")
  case True
  then have page: "memepage h = ''delete?id='' @ drop 10 (memepage h)" by (metis append_take_drop_id)
  from assms(3)[OF this] page obtain n where n: "memepage h = ''delete?id='' @ to_string n" and "deletes"
    and small: "n < 2 ^ 63" by auto
  obtain a log1 w1 where v: "verifyTokenAuthentication env h q w = Inr (a, log1, w1)"
    and r: "(if a then MemeDelete env h w1 else MemeView env True h w1) = Inr (e, h', w')"
    using assms(5) n by (auto simp: meme_action_def)
  have w1: "kept w w1" using verify_kept[OF assms(1,2) v] .
  then have "healthy w1" by (simp add: kept_def)
  with r delete_refines[OF _ assms(2) n _ \<open>deletes\<close> small] View_kept[OF _ assms(2)] kept_refines
  have "refines deletes w1 w'" by (auto split: if_splits)
  with w1 show ?thesis by (simp add: kept_def refines_def)
next
  case no_delete: False
  show ?thesis
  proof (cases "req_method q = ''POST'' \<and> post_page (memepage h)")
    case True
    then obtain mm log1 where "parseRequestBody (env_split env) (req_body q) = Inr (mm, log1)"
      using assms(5) by (auto simp: meme_action_def post_page_def)
    with True assms post_refines show ?thesis by blast
  next
    case False
    then show ?thesis using action_kept[OF assms(1,2) _ no_delete assms(5)] kept_refines by blast
  qed
qed

lemma MemeHandler_refines:
  assumes "healthy w" and "mh_savedir h = savedir" and "tame deletes (env_split env) q"
    and "MemeHandler_HandleRequest env h q w = Inr (r, log, w')"
  shows "refines deletes w w'"
proof -
  obtain page e h' log' where page: "substr (req_uri_path q) (int (length (mh_uri h)) + 1)
      (int (length (req_uri_path q))) = Inr page"
    and act: "meme_action env (h\<lparr>memepage := page\<rparr>) q w = Inr (e, h', log', w')"
    using MemeHandler_InrD[OF assms(4)] by blast
  show ?thesis
    using action_refines[OF assms(1) _ _ _ act, of deletes] handled_page[OF page] assms(2,3)
    by (auto simp: tame_def)
qed

end

end
