(* ===== verification/Server_Memes.thy ===== *)
theory Server_Memes
  imports Request_Path Meme_Machine
begin

text \<open>
  The memes and the running server. What a relation says of a request to a meme handler is lifted
  to the callbacks and the runs of the server: a run in which nobody posts and nobody asks for a
  deletion keeps the table, and a run of tame requests is a run of the machine of the memes. Two
  posts, an edit of an identifier that is no number and a new meme, end the server.
\<close>

section \<open>Requests that keep the table\<close>

text \<open>The meme handlers of a configuration all use the directory of the database.\<close>

definition saves_in :: "string \<Rightarrow> config \<Rightarrow> bool" where
  "saves_in savedir c \<longleftrightarrow>
     (\<forall>(u, block, name)\<in>set (handlers c). name = ''meme'' \<longrightarrow> GetAttribute block ''save'' = Inr savedir)"

context meme_world
begin

text \<open>A relation that includes keeping the table holds of a handler if it holds of the meme handler.\<close>

lemma HandleRequest_related:
  assumes "healthy w" and "\<And>w'. kept w w' \<Longrightarrow> R w w'"
    and "\<And>m r log w'. h = Meme m \<Longrightarrow> MemeHandler_HandleRequest env m q w = Inr (r, log, w') \<Longrightarrow> R w w'"
    and "HandleRequest env proc h q w = Inr (r, log, w')"
  shows "R w w'"
  using assms(4) assms(2)[OF kept_refl[OF assms(1)]] assms(2)[OF ProxyHandler_kept[OF assms(1)]] assms(3)
  by (cases h) (auto simp: HandleRequest_def split: prod.splits)

lemma created_meme_savedir:
  assumes "saves_in savedir c" and "route c path = Some (name, block)"
    and "createByName name block dir = Inr (Some (Meme m))"
  shows "mh_savedir m = savedir"
proof -
  have name: "name = ''meme''" and "MemeHandler_create block dir = Inr m"
    using assms(3) by (auto simp: createByName_def split: if_splits)
  obtain u where "(u, block, name) \<in> set (handlers c)"
    using map_of_SomeD[OF assms(2)[unfolded route_def]] by auto
  with name assms(1) have "GetAttribute block ''save'' = Inr savedir" by (auto simp: saves_in_def)
  with \<open>MemeHandler_create block dir = Inr m\<close> show ?thesis
    by (auto simp: MemeHandler_create_def)
qed

lemma handle_read_related:
  assumes "healthy w" and "saves_in savedir c" and "\<And>w'. kept w w' \<Longrightarrow> R w w'"
    and "\<And>req m r log w'. err = No_error \<Longrightarrow> request_handler (env_split env) buffer = Inr req \<Longrightarrow>
      mh_savedir m = savedir \<Longrightarrow> MemeHandler_HandleRequest env m req w = Inr (r, log, w') \<Longrightarrow> R w w'"
    and "handle_read env c proc err buffer w = Inr (act, log, proc', w')"
  shows "R w w'"
proof (cases act)
  case (Write_response out)
  then have err: "err = No_error" using handle_read_cases[OF assms(5)] by simp
  with assms(5) Write_response
  have "handle_read env c proc No_error buffer w = Inr (Write_response out, log, proc', w')" by simp
  from handle_read_Write[OF this] obtain req d proc1 r log1 where
    q: "request_handler (env_split env) buffer = Inr req" and
    d: "new_Dispatcher c proc = Inr (d, proc1)" and
    g: "generateResponse env d proc1 req w = Inr (r, log1, w')" by blast
  show ?thesis
  proof (cases "route c (req_uri_path req)")
    case None
    with g HandleRequest_related[where R = R, OF assms(1,3), of "Error \<lparr>root = disp_root d, uri = ''''\<rparr>"] show ?thesis
      by (simp add: generateResponse_route[OF d])
  next
    case (Some nb)
    obtain name block where nb: "nb = (name, block)" by (cases nb)
    with g Some obtain h where h: "createByName name block (disp_root d) = Inr (Some h)"
      "HandleRequest env proc1 h req w = Inr (r, log1, w')"
      by (auto simp: generateResponse_route[OF d] split: option.splits)
    have "mh_savedir m = savedir" if "h = Meme m" for m
      using created_meme_savedir[OF assms(2) Some[unfolded nb]] h(1) that by blast
    from HandleRequest_related[where R = R, OF assms(1,3) assms(4)[OF err q this] h(2)] show ?thesis .
  qed
qed (use handle_read_cases[OF assms(5)] assms(3)[OF kept_refl[OF assms(1)]] in auto)

lemma server_step_related:
  assumes "server_step env c ev s s'" and "healthy (srv_world s)" and "saves_in savedir c"
    and "\<And>w'. kept (srv_world s) w' \<Longrightarrow> R (srv_world s) w'"
    and "\<And>i buffer req m r log w'. ev = Read i No_error buffer \<Longrightarrow> request_handler (env_split env) buffer = Inr req \<Longrightarrow>
      mh_savedir m = savedir \<Longrightarrow> MemeHandler_HandleRequest env m req (srv_world s) = Inr (r, log, w') \<Longrightarrow>
      R (srv_world s) w'"
  shows "R (srv_world s) (srv_world s')"
  using assms(1)
proof cases
  case (read i err buffer act log proc w)
  have meme: "R (srv_world s) w'"
    if "err = No_error" "request_handler (env_split env) buffer = Inr req" "mh_savedir m = savedir"
      "MemeHandler_HandleRequest env m req (srv_world s) = Inr (r, log, w')" for req m r log w'
    using assms(5)[OF _ that(2-4)] read(1) that(1) by simp
  have "R (srv_world s) w" by (rule handle_read_related[where R = R, OF assms(2-4) meme read(7)])
  with read(2) show ?thesis by (auto simp: after_read_def split: session_action.splits)
qed (use assms(4)[OF kept_refl[OF assms(2)]] in \<open>auto simp: after_write_def split: write_action.splits\<close>)

lemma server_run_kept:
  assumes "server_run env c w evs s" and "healthy w" and "saves_in savedir c"
  shows "(\<forall>i buffer req. Read i No_error buffer \<in> set evs \<longrightarrow>
      request_handler (env_split env) buffer = Inr req \<longrightarrow> read_only req) \<Longrightarrow> kept w (srv_world s)"
  using assms(1)
proof (induction rule: server_run.induct)
  case start
  show ?case using kept_refl[OF assms(2)] by (simp add: new_server_def)
next
  case (step evs s ev s')
  then have IH: "kept w (srv_world s)" by auto
  then have h: "healthy (srv_world s)" by (simp add: kept_def)
  have "kept (srv_world s) (srv_world s')"
    by (rule server_step_related[where R = kept, OF step.hyps(2) h assms(3)], assumption, rule MemeHandler_kept[OF h])
      (use step.prems in auto)
  with IH show ?case by (rule kept_trans)
qed

lemma server_run_refines:
  assumes "server_run env c w evs s" and "healthy w" and "saves_in savedir c"
  shows "(\<forall>i buffer req. Read i No_error buffer \<in> set evs \<longrightarrow>
      request_handler (env_split env) buffer = Inr req \<longrightarrow> tame deletes (env_split env) req) \<Longrightarrow>
    healthy (srv_world s) \<and>
    (table_step deletes ^^ length evs) (memes (contents w)) (memes (contents (srv_world s)))"
  using assms(1)
proof (induction rule: server_run.induct)
  case start
  show ?case using assms(2) by (simp add: new_server_def)
next
  case (step evs s ev s')
  then have IH: "healthy (srv_world s)"
    "(table_step deletes ^^ length evs) (memes (contents w)) (memes (contents (srv_world s)))" by auto
  have "refines deletes (srv_world s) (srv_world s')"
    by (rule server_step_related[where R = "refines deletes", OF step.hyps(2) IH(1) assms(3)], erule kept_refines,
        rule MemeHandler_refines[OF IH(1)]) (use step.prems in auto)
  with IH(2) show ?case by (auto simp: refines_def)
qed

end

section \<open>Two posts that end the server\<close>

text \<open>The bytes of a request that posts a form to a page of the meme handler.\<close>

definition posts_form :: "'w env \<Rightarrow> config \<Rightarrow> string \<Rightarrow> meme_handler \<Rightarrow> string \<Rightarrow> (char \<Rightarrow> bool) \<Rightarrow>
  (string \<times> string) list \<Rightarrow> meme \<Rightarrow> bool" where
  "posts_form env c dir h buffer plain kvs m \<longleftrightarrow> (\<exists>q block page.
     request_handler (env_split env) buffer = Inr q \<and> req_method q = ''POST'' \<and>
     req_uri_path q = mh_uri h @ ''/'' @ page \<and> post_page page \<and>
     route c (req_uri_path q) = Some (''meme'', block) \<and> MemeHandler_create block dir = Inr h \<and>
     req_body q = form_body plain kvs \<and> meme_form plain kvs m)"

lemma posts_form_rendered:
  assumes "boost_split (env_split env)" and "word_text p" and "word_text v"
    and "sublist ''HTTP/1.1'' v" and "\<forall>h\<in>set hs. field_text h" and "one_line (form_body plain kvs)"
    and "route c p = Some (''meme'', block)" and "MemeHandler_create block dir = Inr h"
    and "p = mh_uri h @ ''/'' @ page" and "post_page page" and "meme_form plain kvs m"
  shows "posts_form env c dir h (render_request ''POST'' p v hs (form_body plain kvs)) plain kvs m"
  using boost_split.request_roundtrip[OF assms(1) _ assms(2-6), of "''POST''"] assms(7-11)
  unfolding posts_form_def by fastforce

lemma posted_edit_read:
  assumes "meme_vault env (mh_savedir h) healthy contents" and "healthy w" and "boost_split (env_split env)"
    and "new_Dispatcher c proc = Inr (d, proc1)" and "status_entries proc = summary hist" and "length hist < 2 ^ 31 - 1"
    and "posts_form env c (disp_root d) h buffer plain kvs m"
    and "map_of kvs ''posttype'' = Some ''edit''" and "map_of kvs ''meme_id'' = Some k"
  shows "\<exists>out log proc2 w' tok. handle_read env c proc No_error buffer w = Inr (Write_response out, log, proc2, w') \<and>
    healthy w' \<and> memes (contents w') = (memes (contents w))(k \<mapsto> \<lparr>meme_name = meme_name m,
      meme_img = meme_img m, meme_top = meme_top m, meme_bottom = meme_bottom m, meme_token = tok\<rparr>)"
proof -
  obtain q block page where q: "request_handler (env_split env) buffer = Inr q" "req_method q = ''POST''"
    "req_uri_path q = mh_uri h @ ''/'' @ page" "post_page page" "route c (req_uri_path q) = Some (''meme'', block)"
    "MemeHandler_create block (disp_root d) = Inr h" "req_body q = form_body plain kvs" "meme_form plain kvs m"
    using assms(7) unfolding posts_form_def by blast
  obtain e h' log w' where act: "meme_action env (h\<lparr>memepage := page\<rparr>) q w = Inr (e, h', log, w')" "healthy w'"
    and table: "memes (contents w') = (memes (contents w))(k \<mapsto> \<lparr>meme_name = meme_name m, meme_img = meme_img m,
      meme_top = meme_top m, meme_bottom = meme_bottom m, meme_token = (case memes (contents w) k of
        None \<Rightarrow> ''00001'' | Some old \<Rightarrow> c_str (meme_token old))\<rparr>)"
    using post_edit[OF assms(1-3), of "h\<lparr>memepage := page\<rparr>", OF _ _ q(2,8,7) assms(8,9)] q(4) by auto
  from handle_read_meme[OF q(1) assms(4-6) q(5,6,3) act(1)] act(2) table show ?thesis by blast
qed

lemma posted_new_read_refused:
  assumes "meme_vault env (mh_savedir h) healthy contents" and "healthy w" and "boost_split (env_split env)"
    and "new_Dispatcher c proc = Inr (d, proc1)"
    and "posts_form env c (disp_root d) h buffer plain kvs m"
    and "map_of kvs ''posttype'' = Some pt" and "pt \<noteq> ''edit''"
    and "new_identifier (memes (contents w)) = Inl f"
  shows "handle_read env c proc No_error buffer w = Inl f"
proof -
  obtain q block page where q: "request_handler (env_split env) buffer = Inr q" "req_method q = ''POST''"
    "req_uri_path q = mh_uri h @ ''/'' @ page" "post_page page" "route c (req_uri_path q) = Some (''meme'', block)"
    "MemeHandler_create block (disp_root d) = Inr h" "req_body q = form_body plain kvs" "meme_form plain kvs m"
    using assms(5) unfolding posts_form_def by blast
  have "meme_action env (h\<lparr>memepage := page\<rparr>) q w = Inl f"
    using post_refused[OF assms(1-3), of "h\<lparr>memepage := page\<rparr>", OF _ _ q(2,8,7) assms(6-8)] q(4) by simp
  from handle_read_meme_fault[OF q(1) assms(4) q(5,6,3) this] show ?thesis .
qed

lemma meme_config_saves: "saves_in ''/data'' meme_config" unfolding saves_in_def by code_simp

definition poison_form :: "(string \<times> string) list" where
  "poison_form = [(''posttype'', ''edit''), (''meme_id'', ''zzz''), (''name'', ''x''), (''image'', ''i''),
     (''top'', ''<b>''), (''bottom'', ''z'')]"

definition form_text :: "(string \<times> string) list \<Rightarrow> string" where
  "form_text kvs = render_request ''POST'' ''/meme/new'' ''HTTP/1.1'' [] (form_body (\<lambda>c. False) kvs)"

section \<open>Properties\<close>

text \<open>C8: On a run of the server in which no request posts and none asks for the deletion of a meme, the table of
  memes stays what it was, whatever else is requested.\<close>

theorem readers_keep_memes:
  assumes "meme_world env savedir healthy contents" and "healthy w" and "saves_in savedir c"
    and "server_run env c w evs s"
    and "\<forall>i buffer req. Read i No_error buffer \<in> set evs \<longrightarrow> request_handler (env_split env) buffer = Inr req \<longrightarrow>
      req_method req \<noteq> ''POST'' \<and> \<not> sublist ''delete?id='' (req_uri_path req)"
  shows "contents (srv_world s) = contents w"
  using meme_world.server_run_kept[OF assms(1,4,2,3)] assms(5)
  by (simp add: read_only_def meme_archive.kept_def[OF meme_world.axioms(1)[OF assms(1)]])

theorem readers_keep_memes_witness:
  "\<exists>s. server_run (ref_env no_files) meme_config one_meme
      [Accept No_error, Read 0 No_error (get_text ''/meme/view?id=10000'')] s \<and>
    ref_contents (srv_world s) = ref_contents one_meme"
proof -
  let ?b = "get_text ''/meme/view?id=10000''"
  have b: "str_find ?b (crlf @ crlf) \<noteq> None" by code_simp
  obtain s where run: "server_run (ref_env no_files) meme_config one_meme [Accept No_error, Read 0 No_error ?b] s"
    using read_run[OF b, of "ref_env no_files" meme_config one_meme] by (elim exE)
  have "word_text ''/meme/view?id=10000''" by (simp add: word_text_def)
  note q = get_request[OF this]
  have "\<not> sublist ''delete?id='' (''/meme/view?id=10000'' :: string)" by code_simp
  with q have only: "\<forall>i buffer req. Read i No_error buffer \<in> set [Accept No_error, Read 0 No_error ?b] \<longrightarrow>
      request_handler (env_split (ref_env no_files)) buffer = Inr req \<longrightarrow>
      req_method req \<noteq> ''POST'' \<and> \<not> sublist ''delete?id='' (req_uri_path req)"
    by simp
  from readers_keep_memes[OF ref_world.meme_world_axioms one_meme_healthy meme_config_saves run only] run
  show ?thesis by blast
qed

text \<open>C5: The memes of the server are a machine with one table: on a run whose posts edit nothing and whose
  requests for a deletion name numerals below 2^63, every callback is a step of the machine, so that
  only new memes under new identifiers are added and only memes of numerals are removed.\<close>

theorem tame_run_refines_machine:
  assumes "meme_world env savedir healthy contents" and "healthy w" and "saves_in savedir c"
    and "server_run env c w evs s"
    and "\<forall>i buffer req. Read i No_error buffer \<in> set evs \<longrightarrow> request_handler (env_split env) buffer = Inr req \<longrightarrow>
      tame deletes (env_split env) req"
  shows "(table_step deletes ^^ length evs) (memes (contents w)) (memes (contents (srv_world s)))"
  using meme_world.server_run_refines[OF assms(1,4,2,3,5)] by simp

lemma posted_new_form:
  "request_handler (env_split (ref_env no_files)) (form_text new_form) =
    Inr \<lparr>req_raw = form_text new_form, req_method = ''POST'', req_uri_path = ''/meme/new'',
         req_http_version = ''HTTP/1.1'', req_body = form_body (\<lambda>c. False) new_form, req_header_fields = []\<rparr>"
proof -
  have "one_line (form_body (\<lambda>c. False) new_form)" by code_simp
  moreover have "word_text ''/meme/new''" "word_text ''HTTP/1.1''" "sublist ''HTTP/1.1'' (''HTTP/1.1'' :: string)"
    by (simp_all add: word_text_def)
  ultimately show ?thesis
    unfolding form_text_def using compress.request_roundtrip[of "''POST''" "''/meme/new''" "''HTTP/1.1''" "[]"] by simp
qed

lemma new_form_tame:
  assumes "Read i No_error buffer \<in> set [Accept No_error, Read 0 No_error (form_text new_form)]"
    and "request_handler (env_split (ref_env no_files)) buffer = Inr q"
  shows "tame deletes (env_split (ref_env no_files)) q"
proof -
  have q: "req_method q = ''POST''" "req_uri_path q = ''/meme/new''" "req_body q = form_body (\<lambda>c. False) new_form"
    using assms posted_new_form by auto
  obtain m log where "parseRequestBody (env_split (ref_env no_files)) (form_body (\<lambda>c. False) new_form) = Inr (m, log)"
    "map_index m ''posttype'' = ''new''"
    using parsed_form[OF compress.boost_split_axioms, of "\<lambda>c. False" new_form] new_meme_form
    by (auto simp: meme_form_def new_form_def)
  then show ?thesis by (simp add: tame_def q suffix_Cons)
qed

lemma new_form_run: "\<exists>s. server_run (ref_env no_files) meme_config w [Accept No_error, Read 0 No_error (form_text new_form)] s"
proof -
  have "str_find (form_text new_form) (crlf @ crlf) \<noteq> None" by code_simp
  then show ?thesis by (rule read_run)
qed

theorem tame_run_refines_machine_witness:
  "\<exists>s. server_run (ref_env no_files) meme_config one_meme [Accept No_error, Read 0 No_error (form_text new_form)] s \<and>
    (table_step False ^^ 2) (memes (ref_contents one_meme)) (memes (ref_contents (srv_world s)))"
proof -
  obtain s where run: "server_run (ref_env no_files) meme_config one_meme
      [Accept No_error, Read 0 No_error (form_text new_form)] s"
    using new_form_run by blast
  have tame: "\<forall>i buffer req. Read i No_error buffer \<in> set [Accept No_error, Read 0 No_error (form_text new_form)] \<longrightarrow>
      request_handler (env_split (ref_env no_files)) buffer = Inr req \<longrightarrow> tame False (env_split (ref_env no_files)) req"
    using new_form_tame by blast
  from tame_run_refines_machine[OF ref_world.meme_world_axioms one_meme_healthy meme_config_saves run tame] run
  show ?thesis by (intro exI[of _ s]) (simp add: numeral_2_eq_2)
qed

text \<open>C6: On every such run the table stays well-formed: an identifier is the numeral of a number from 10000 on, and
  the token of a meme is its identifier, a dash and letters of the alphabet of tokens.\<close>

theorem tame_run_keeps_table_ok:
  assumes "meme_world env savedir healthy contents" and "healthy w" and "saves_in savedir c"
    and "server_run env c w evs s" and "table_ok (memes (contents w))"
    and "\<forall>i buffer req. Read i No_error buffer \<in> set evs \<longrightarrow> request_handler (env_split env) buffer = Inr req \<longrightarrow>
      tame deletes (env_split env) req"
  shows "table_ok (memes (contents (srv_world s)))"
  using meme_world.server_run_refines[OF assms(1,4,2,3,6)] table_ok_steps[OF _ assms(5)] by blast

theorem tame_run_keeps_table_ok_witness:
  "\<exists>s. server_run (ref_env no_files) meme_config one_meme
      [Accept No_error, Read 0 No_error (get_text ''/meme/delete?id=10000'')] s \<and>
    table_ok (memes (ref_contents (srv_world s)))"
proof -
  let ?b = "get_text ''/meme/delete?id=10000''"
  have b: "str_find ?b (crlf @ crlf) \<noteq> None" by code_simp
  obtain s where run: "server_run (ref_env no_files) meme_config one_meme [Accept No_error, Read 0 No_error ?b] s"
    using read_run[OF b, of "ref_env no_files" meme_config one_meme] by (elim exE)
  have "word_text ''/meme/delete?id=10000''" by (simp add: word_text_def)
  note q = get_request[OF this]
  have "\<exists>n<2 ^ 63. (''10000'' :: string) = to_string n" by (intro exI[of _ 10000]) (simp add: small_ids)
  with q have tame: "\<forall>i buffer req. Read i No_error buffer \<in> set [Accept No_error, Read 0 No_error ?b] \<longrightarrow>
      request_handler (env_split (ref_env no_files)) buffer = Inr req \<longrightarrow> tame True (env_split (ref_env no_files)) req"
    by (auto simp: tame_def suffix_Cons)
  have ok: "table_ok (memes (ref_contents one_meme))"
    unfolding table_ok_def one_meme_contents
    by (auto simp: token_of_def token_alphabet_def intro!: exI[of _ 10000] simp: small_ids)
  from tame_run_keeps_table_ok[OF ref_world.meme_world_axioms one_meme_healthy meme_config_saves run ok tame] run
  show ?thesis by blast
qed

text \<open>C7: Posts lose no meme: on a run whose posts edit nothing and in which nobody asks for a deletion, every
  stored meme stays as it is, as long as the identifiers, one for each callback at most, keep five digits.\<close>

theorem posts_lose_no_meme:
  assumes "meme_world env savedir healthy contents" and "healthy w" and "saves_in savedir c"
    and "server_run env c w evs s"
    and "\<forall>i buffer req. Read i No_error buffer \<in> set evs \<longrightarrow> request_handler (env_split env) buffer = Inr req \<longrightarrow>
      tame False (env_split env) req"
    and "dom (memes (contents w)) \<subseteq> to_string ` {10000..<10000 + n}" and "n + length evs \<le> 90000"
  shows "memes (contents w) \<subseteq>\<^sub>m memes (contents (srv_world s))"
proof -
  have "ids_below n (memes (contents w))"
    using assms(6) finite_subset[OF assms(6)] by (simp add: ids_below_def)
  with adding_keeps[OF _ _ assms(7)] meme_world.server_run_refines[OF assms(1,4,2,3,5)] show ?thesis by blast
qed

theorem posts_lose_no_meme_witness:
  "\<exists>s. server_run (ref_env no_files) meme_config one_meme [Accept No_error, Read 0 No_error (form_text new_form)] s \<and>
    memes (ref_contents (srv_world s)) ''10000'' = memes (ref_contents one_meme) ''10000''"
proof -
  obtain s where run: "server_run (ref_env no_files) meme_config one_meme
      [Accept No_error, Read 0 No_error (form_text new_form)] s"
    using new_form_run by blast
  have tame: "\<forall>i buffer req. Read i No_error buffer \<in> set [Accept No_error, Read 0 No_error (form_text new_form)] \<longrightarrow>
      request_handler (env_split (ref_env no_files)) buffer = Inr req \<longrightarrow> tame False (env_split (ref_env no_files)) req"
    using new_form_tame by blast
  have ids: "dom (memes (ref_contents one_meme)) \<subseteq> to_string ` {10000..<10000 + 1}"
    by (simp add: one_meme_contents image_iff small_ids) (intro bexI[of _ 10000], simp_all add: small_ids)
  from posts_lose_no_meme[OF ref_world.meme_world_axioms one_meme_healthy meme_config_saves run tame ids] run
  show ?thesis by (intro exI[of _ s]) (simp add: one_meme_contents map_le_def)
qed

text \<open>C16: Two posts end the server: an edit, without any token, of an identifier that is no number and at least
  every stored one (a word that starts with a letter, beside numerals) stores a meme under it, and
  from then on the next new meme throws invalid_argument, which nothing catches.\<close>

theorem edit_then_post_ends_server:
  assumes "meme_vault env (mh_savedir h) healthy contents" and "healthy (srv_world s)" and "boost_split (env_split env)"
    and "srv_state s = Running" and "i < length (srv_conns s)" and "j < length (srv_conns s)" and "i \<noteq> j"
    and "srv_conns s ! i = Reading" and "srv_conns s ! j = Reading"
    and "str_find b1 (crlf @ crlf) \<noteq> None" and "str_find b2 (crlf @ crlf) \<noteq> None"
    and "new_Dispatcher c (srv_proc s) = Inr (d, proc1)"
    and "status_entries (srv_proc s) = summary hist" and "length hist < 2 ^ 31 - 1"
    and "posts_form env c (disp_root d) h b1 plain1 kvs1 m1" and "posts_form env c (disp_root d) h b2 plain2 kvs2 m2"
    and "map_of kvs1 ''posttype'' = Some ''edit''" and "map_of kvs1 ''meme_id'' = Some k"
    and "map_of kvs2 ''posttype'' = Some pt" and "pt \<noteq> ''edit''"
    and "\<forall>j\<in>dom (memes (contents (srv_world s))). j \<le> k" and "stoi (c_str k) = Inl InvalidArgument"
  shows "\<exists>s1 s2. server_step env c (Read i No_error b1) s s1 \<and> srv_state s1 = Running \<and>
    k \<in> dom (memes (contents (srv_world s1))) \<and>
    server_step env c (Read j No_error b2) s1 s2 \<and> srv_state s2 = Ended InvalidArgument"
proof -
  obtain out log proc2 w' tok where r1: "handle_read env c (srv_proc s) No_error b1 (srv_world s) =
      Inr (Write_response out, log, proc2, w')" and w': "healthy w'"
    and table: "memes (contents w') = (memes (contents (srv_world s)))(k \<mapsto> \<lparr>meme_name = meme_name m1,
      meme_img = meme_img m1, meme_top = meme_top m1, meme_bottom = meme_bottom m1, meme_token = tok\<rparr>)"
    using posted_edit_read[OF assms(1-3,12-15,17,18)] by blast
  let ?s1 = "after_read i (Write_response out)
    (s\<lparr>srv_proc := proc2, srv_world := w', srv_log := srv_log s @ log\<rparr>)"
  have step1: "server_step env c (Read i No_error b1) s ?s1"
    using assms(10) by (intro server_step.read[OF assms(4,5,8) _ r1]) simp
  have "new_identifier (memes (contents w')) = Inl InvalidArgument"
    unfolding table using meme_vault.finite_ok[OF assms(1,2)] assms(21,22) by (intro poisoned_identifier)
  moreover obtain proc3 where "new_Dispatcher c proc2 = Inr (d, proc3)"
    using new_Dispatcher_again[OF assms(12)] by blast
  ultimately have "handle_read env c proc2 No_error b2 w' = Inl InvalidArgument"
    using posted_new_read_refused[OF assms(1) w' assms(3) _ assms(16,19,20)] by blast
  then have r2: "handle_read env c (srv_proc ?s1) No_error b2 (srv_world ?s1) = Inl InvalidArgument"
    by (simp add: after_read_def)
  have s1: "srv_state ?s1 = Running" "j < length (srv_conns ?s1)" "srv_conns ?s1 ! j = Reading"
    "k \<in> dom (memes (contents (srv_world ?s1)))"
    using assms(4,6,7,9) table by (simp_all add: after_read_def)
  have step2: "server_step env c (Read j No_error b2) ?s1 (?s1\<lparr>srv_state := run_state_of InvalidArgument\<rparr>)"
    using assms(11) by (intro server_step.read_fault[OF s1(1-3) _ r2]) simp
  show ?thesis
    by (intro exI conjI, rule step1, rule s1(1), rule s1(4), rule step2) (simp add: run_state_of_def)
qed

lemma posts_form_text:
  assumes "one_line (form_body (\<lambda>c. False) kvs)" and "meme_form (\<lambda>c. False) kvs m"
  shows "posts_form (ref_env no_files) meme_config '''' \<lparr>mh_root = '''', mh_uri = ''/meme'', mh_filedir = ''/l'',
    mh_savedir = ''/data'', memepage = '''', memebody = '''', errorflag = False\<rparr> (form_text kvs) (\<lambda>c. False) kvs m"
proof -
  let ?block = "[Statement [''location'', ''/l''] None, Statement [''save'', ''/data''] None,
    Statement [''url'', ''/meme''] None]"
  let ?h = "\<lparr>mh_root = '''', mh_uri = ''/meme'', mh_filedir = ''/l'', mh_savedir = ''/data'',
    memepage = '''', memebody = '''', errorflag = False\<rparr>"
  have split: "boost_split (env_split (ref_env no_files))" using compress.boost_split_axioms by simp
  have words: "word_text ''/meme/new''" "word_text ''HTTP/1.1''" "sublist ''HTTP/1.1'' (''HTTP/1.1'' :: string)"
    "\<forall>h\<in>set []. field_text h" by (simp_all add: word_text_def)
  have route: "route meme_config ''/meme/new'' = Some (''meme'', ?block)" by code_simp
  have create: "MemeHandler_create ?block '''' = Inr ?h" by code_simp
  have page: "''/meme/new'' = mh_uri ?h @ ''/'' @ ''new''" "post_page ''new''" by simp code_simp
  show ?thesis
    unfolding form_text_def by (rule posts_form_rendered[OF split words assms(1) route create page assms(2)])
qed

theorem edit_then_post_ends_server_witness:
  "\<exists>s s1 s2. server_run (ref_env no_files) meme_config empty_world [Accept No_error, Accept No_error] s \<and>
     server_step (ref_env no_files) meme_config (Read 0 No_error (form_text poison_form)) s s1 \<and>
     server_step (ref_env no_files) meme_config (Read 1 No_error (form_text new_form)) s1 s2 \<and>
     srv_state s2 = Ended InvalidArgument"
proof -
  let ?h = "\<lparr>mh_root = '''', mh_uri = ''/meme'', mh_filedir = ''/l'', mh_savedir = ''/data'',
    memepage = '''', memebody = '''', errorflag = False\<rparr>"
  let ?s = "(new_server empty_world)\<lparr>srv_conns := [Reading, Reading]\<rparr>"
  have run: "server_run (ref_env no_files) meme_config empty_world [Accept No_error, Accept No_error] ?s"
    using accept_run[OF accepted_run[of "ref_env no_files" meme_config empty_world]] by (simp add: new_server_def)
  have w: "ref_healthy (srv_world ?s)" "ref_contents (srv_world ?s) = None"
    by (simp_all add: new_server_def empty_world_def ref_healthy_def ref_contents_def)
  have split: "boost_split (env_split (ref_env no_files))" using compress.boost_split_axioms by simp
  have s: "srv_state ?s = Running" "0 < length (srv_conns ?s)" "1 < length (srv_conns ?s)" "(0::nat) \<noteq> 1"
    "srv_conns ?s ! 0 = Reading" "srv_conns ?s ! 1 = Reading" "status_entries (srv_proc ?s) = summary []"
    by (simp_all add: new_server_def summary_def)
  have b: "str_find (form_text poison_form) (crlf @ crlf) \<noteq> None" "str_find (form_text new_form) (crlf @ crlf) \<noteq> None"
    by code_simp+
  obtain d p where d: "new_Dispatcher meme_config fresh_process = Inr (d, p)" "disp_root d = ''''"
  proof -
    have "case new_Dispatcher meme_config fresh_process of Inl e \<Rightarrow> False | Inr (d, p) \<Rightarrow> disp_root d = ''''" by code_simp
    then show thesis using that by (auto split: sum.splits)
  qed
  then have d': "new_Dispatcher meme_config (srv_proc ?s) = Inr (d, p)" by (simp add: new_server_def fresh_process_def)
  have "one_line (form_body (\<lambda>c. False) poison_form)" "one_line (form_body (\<lambda>c. False) new_form)" by code_simp+
  moreover have "meme_form (\<lambda>c. False) poison_form edited"
    by (simp add: meme_form_def poison_form_def edited_def form_ok_def html_char_def sublist_Cons_right)
  ultimately have posts: "posts_form (ref_env no_files) meme_config (disp_root d) ?h (form_text poison_form) (\<lambda>c. False) poison_form edited"
    "posts_form (ref_env no_files) meme_config (disp_root d) ?h (form_text new_form) (\<lambda>c. False) new_form edited"
    using posts_form_text new_meme_form d(2) by simp_all
  have kvs: "map_of poison_form ''posttype'' = Some ''edit''" "map_of poison_form ''meme_id'' = Some ''zzz''"
    "map_of new_form ''posttype'' = Some ''new''" "''new'' \<noteq> (''edit'' :: string)"
    by (simp_all add: poison_form_def new_form_def)
  have none: "\<forall>j\<in>dom (memes (ref_contents (srv_world ?s))). j \<le> ''zzz''" unfolding w(2) by simp
  have zzz: "stoi (c_str ''zzz'') = Inl InvalidArgument" by code_simp
  have vault: "meme_vault (ref_env no_files) (mh_savedir ?h) ref_healthy ref_contents"
    using ref_vault.meme_vault_axioms .
  have hist: "length ([] :: (string \<times> string) list) < 2 ^ 31 - 1" by simp
  from edit_then_post_ends_server[OF vault w(1) split s(1-6) b d' s(7) hist posts kvs none zzz] run
  show ?thesis by blast
qed

end
