(* ===== verification/Spec2Isabelle.thy ===== *)
theory Spec2Isabelle
  imports Server_Main Server_Memes
begin

text \<open>
  A verification of the web server of this repository: \<^verbatim>\<open>src/*.cc\<close> with \<^verbatim>\<open>include/*.h\<close>.

  \<^bold>\<open>The program.\<close> \<^verbatim>\<open>main\<close> (\<^verbatim>\<open>server_main.cc\<close>) parses a configuration in the syntax of nginx, takes the
  port from it and runs the callbacks of an I/O service. \<^verbatim>\<open>server\<close> accepts connections; a \<^verbatim>\<open>session\<close>
  reads up to an empty line, builds a \<^verbatim>\<open>Request\<close> from the bytes, builds a \<^verbatim>\<open>Dispatcher\<close> from the
  configuration, and writes the \<^verbatim>\<open>Response\<close> of the handler that the first segment of the path is routed
  to. \<^verbatim>\<open>HandlerManager\<close> creates the handler by its name: echo, health, bad, error, status, static, meme
  (pages over an SQLite table) or proxy (a request to another host). Each answered request is counted
  in the static table of \<^verbatim>\<open>StatusObject\<close>.

  \<^bold>\<open>The theories\<close>, from the bottom:
  \<^item> \<open>Cpp_Prelude\<close>: faults, results, and the operations of \<^verbatim>\<open>std::string\<close>; \<open>Std_Map\<close>: \<^verbatim>\<open>std::map\<close>;
    \<open>Cpp_Stream\<close>: \<^verbatim>\<open>std::istream\<close>; \<open>Boost_Strings\<close>: the contracts of \<^verbatim>\<open>boost::split\<close> and
    \<^verbatim>\<open>boost::replace_all\<close>; \<open>Environment\<close>: all that is not in the repository, as the record \<open>'w env\<close>.
  \<^item> \<open>Config_Parser\<close> (\<^verbatim>\<open>config_parser.cc\<close>): the tree, the printer, the lexer (\<open>parse_token\<close> is its state
    machine) and the parser (\<open>parse_step\<close> is the body of its loop). \<open>Config_Grammar\<close> proves that on
    token sequences the parser accepts exactly the trees; \<open>Config_Roundtrip\<close> lifts this to bytes:
    totality, soundness and completeness, and the round trip with the printer.
  \<^item> \<open>Nginx_Config\<close> (\<^verbatim>\<open>config_parser.cc\<close>): \<open>GetPort\<close>, \<open>GetRoot\<close>, \<open>GetAttribute\<close>, \<open>PeekURL\<close> and
    \<open>ParseString\<close>, which search the printed tree; what they find, when they are undefined, and the
    tables \<open>ParseString\<close> fills.
  \<^item> \<open>Request\<close>, \<open>Response\<close>, \<open>Url_Parser\<close>, \<open>Status_Obj\<close> (the files of these names): parsing and
    serialising with their round trips; the status table as a refinement of the history of requests.
  \<^item> \<open>Simple_Handlers\<close>, \<open>Static_Handler\<close>: the handlers without a database or a network. The locale
    \<open>handler_contract\<close> of \<open>Response\<close> (a complete response, a true announced length, a status line that
    agrees with the monitoring) is interpreted for every handler and for the dispatcher.
  \<^item> \<open>Meme_Body\<close>, \<open>Meme_Store\<close>, \<open>Meme_Handler\<close> (\<^verbatim>\<open>meme_handler.cc\<close>): the form parser, the storage, the
    pages and the request chain. \<open>Meme_Vault\<close> states the effect of the SQL statements of the program on
    a table (the locale \<open>meme_vault\<close>), proves the storage operations against it, and interprets it on a
    reference database, \<open>ref_env\<close>. \<open>Page_Template\<close> says what a filled page is, apart from the code that
    fills it: the text of a template with the values at its marks (\<open>page_with\<close>).
  \<^item> \<open>Sql_Like\<close>, \<open>Meme_Search\<close>: the operator \<^verbatim>\<open>LIKE\<close> and the statements of the searches (the locale
    \<open>meme_archive\<close> extends \<open>meme_vault\<close>): what the search and list pages show. \<open>Meme_Access\<close>: which
    requests change the table, which tokens they need, and what an unescaped identifier does (the
    locale \<open>meme_world\<close> adds to \<open>meme_archive\<close> that other effects leave the table alone). \<open>Meme_Machine\<close>:
    the table as an abstract machine, \<open>table_step\<close>, the invariants of its runs, and the proof that the
    handler refines it. \<open>Server_Memes\<close> lifts all this to the runs of the server.
  \<^item> \<open>Html_Filter\<close>, \<open>Proxy_Handler\<close> (\<^verbatim>\<open>proxy_handler.cc\<close>): the regular expression and the exchange.
    \<open>Proxy_Remote\<close> states the behaviour of the connection (the locale \<open>remote_host\<close>: the bytes arrive in
    portions that the program does not choose), proves what the proxy answers, in terms of the portion
    that completes the header, and interprets it on the peer of \<open>ref_env\<close>.
  \<^item> \<open>Dispatcher\<close> (\<^verbatim>\<open>dispatcher.cc\<close>, \<^verbatim>\<open>handler_manager.cc\<close>) and \<open>Session\<close> (\<^verbatim>\<open>session.cc\<close>, \<^verbatim>\<open>server.cc\<close>):
    routing against the specification \<open>route\<close> (the \<open>first_segment\<close> of the path); the callbacks as the step relation
    \<open>server_step\<close>, its runs \<open>server_run\<close>, and the invariants of the reachable states.
  \<^item> \<open>Server_Main\<close> (\<^verbatim>\<open>server_main.cc\<close>): the arguments, the set-up of the log with its filter and format,
    the start of the server and the exit code of the program.
  \<^item> \<open>Request_Path\<close>: the path of one request through all of these, from bytes to bytes; this theory: the
    runs of the whole server and its start.

  \<^bold>\<open>How code is modelled.\<close> A class is a record, a method a function on it with the source's name (the class
  in front where names clash). An exception, undefined behaviour and a call that does not return are
  values of \<open>fault\<close>; undefined behaviour covers reads beyond the terminating byte or a vector, null
  pointers, a missing \<^verbatim>\<open>return\<close>, uninitialised variables, signed overflow and double destruction. A
  fault of a callback ends the run of the server in the state \<open>run_state_of\<close> gives, with the components
  from before the callback (what it did up to the fault, as storing a row, is left out). Loops are
  recursive functions that follow the source's indices; all terminate by a measure but the reading
  loop of the proxy, which is a \<open>partial_function\<close> (\<open>None\<close>, the fault \<open>Diverges\<close>, where it does not
  end), and the one theorem that goes through it proves that it returns. There is no fuel.

  \<^bold>\<open>Assumptions.\<close> Strings are shorter than \<open>2 ^ 31\<close> bytes, so that an \<^verbatim>\<open>int\<close> holds a position, and \<^verbatim>\<open>char\<close>
  is a byte. Counters of the status table are 32-bit words and overflow is a fault; theorems that
  exclude it bound the number of events by \<open>2 ^ 31\<close>. The DELETE statement has the identifier as a
  literal; its law is stated for numerals below \<open>2 ^ 63\<close>, as SQLite reads larger ones as real numbers. One thread runs the I/O service. Boost, SQLite,
  the sockets, \<^verbatim>\<open>rand\<close> and the files are the record \<open>'w env\<close>; what is used of them is an assumption of
  a locale or a premise, and each is shown to be satisfiable on \<open>ref_env\<close>.

  \<^bold>\<open>Not modelled.\<close> The trace messages (of the log, only the records of the monitoring and the set-up are), the diagnostics \<^verbatim>\<open>Request\<close> prints, the lookup
  of remote addresses, the mutex around the storage (one thread), the
  members and friends that exist for the tests, the destruction of objects (but for the double one of a
  session), build files, pages and images.
\<close>

section \<open>Two short runs\<close>

lemma health_read:
  "\<exists>out log proc. handle_read (ref_env no_files) sample_config fresh_process No_error (get_text ''/health'') idle =
     Inr (Write_response out, log, proc, idle)"
proof -
  have "word_text ''/health''" by (simp add: word_text_def)
  note req = get_request[OF this]
  have "route sample_config ''/health'' = Some (''health'', [Statement [''url'', ''/health''] None])"
    by code_simp
  moreover have "GetAttribute [Statement [''url'', ''/health''] None] ''url'' = Inr ''/health''"
    by code_simp
  ultimately show ?thesis
    using handle_read_routed[OF _ sample_new_Dispatcher fresh_summary, of "ref_env no_files"
      "get_text ''/health''" _ idle] req
    by (simp add: createByName_def HealthHandler_create_def HandleRequest_def simple_responses
        generateResponse_route[OF sample_new_Dispatcher] build_response_sent)
qed

lemma health_run:
  "\<exists>s out. server_run (ref_env no_files) sample_config idle
       [Accept No_error, Read 0 No_error (get_text ''/health'')] s \<and>
     srv_state s = Running \<and> srv_conns s = [Writing out]"
proof -
  obtain out log proc where r: "handle_read (ref_env no_files) sample_config fresh_process No_error
      (get_text ''/health'') idle = Inr (Write_response out, log, proc, idle)"
    using health_read by blast
  have b: "str_find (get_text ''/health'') (crlf @ crlf) \<noteq> None"
    unfolding get_text_def by (rule rendered_crlf)
  from answered_run[OF b r[unfolded fresh_process_def]] show ?thesis by fastforce
qed

section \<open>Properties of the whole server\<close>

text \<open>C1: While the server runs, the number of calls its status table reports is the number of
  requests it has answered, for every sequence of fewer than 2^31 events.\<close>

theorem status_counts_requests:
  assumes "server_run env config w evs s" and "srv_state s = Running" and "length evs < 2 ^ 31"
  shows "getStatusCalls (getStatusEntries (status_entries (srv_proc s))) =
    int (length (filter is_request evs))"
proof -
  obtain hist where "status_entries (srv_proc s) = summary hist"
    "length hist = length (filter is_request evs)"
    using status_table_run[OF assms] by blast
  moreover have "length (filter is_request evs) < 2 ^ 31"
    using le_less_trans[OF length_filter_le assms(3)] .
  ultimately show ?thesis
    by (simp add: getStatusCalls_summary getStatusEntries_def)
qed

theorem status_counts_requests_witness:
  "\<exists>s. server_run (ref_env no_files) sample_config idle [Accept No_error, Read 0 No_error (get_text ''/health'')] s \<and>
     getStatusCalls (getStatusEntries (status_entries (srv_proc s))) = 1"
proof -
  obtain s where run: "server_run (ref_env no_files) sample_config idle
      [Accept No_error, Read 0 No_error (get_text ''/health'')] s" and "srv_state s = Running"
    using health_run by blast
  then show ?thesis
    using status_counts_requests[OF run] by (auto simp: is_request_def)
qed

text \<open>C2: Whatever the server hands over to be written on a connection is a complete HTTP/1.1 message: the status line of
  one of the codes, a content type, and a content length that is the length of the body that
  follows the empty line.\<close>

theorem responses_complete:
  assumes "server_run env config w evs s" and "i < length (srv_conns s)"
    and "srv_conns s ! i = Writing out"
  shows "\<exists>c ty b. out = ''HTTP/1.1 '' @ to_string (code_of c) @ crlf @ ''Content-Type: '' @ ty @ crlf @
    ''Content-Length: '' @ to_string (length b) @ crlf @ crlf @ b"
proof -
  have "sound_response out"
    using sound_conns_run[OF assms(1)] assms(2,3) by (auto simp: list_all_length sound_conn_def)
  then obtain r where r: "Output r = Inr out" "well_formed r" by (auto simp: sound_response_def)
  then obtain c ty where "has_fields r c
      [(''Content-Type'', ty), (''Content-Length'', to_string (length (rsp_body r)))] (rsp_body r)"
    by (auto simp: well_formed_def)
  from Output_has_fields[OF this] r(1) show ?thesis
    by (intro exI[of _ c] exI[of _ ty] exI[of _ "rsp_body r"]) (simp add: field_def)
qed

theorem responses_complete_witness:
  "\<exists>s out. server_run (ref_env no_files) sample_config idle
       [Accept No_error, Read 0 No_error (get_text ''/health'')] s \<and> srv_conns s ! 0 = Writing out \<and>
     (\<exists>c ty b. out = ''HTTP/1.1 '' @ to_string (code_of c) @ crlf @ ''Content-Type: '' @ ty @ crlf @
        ''Content-Length: '' @ to_string (length b) @ crlf @ crlf @ b)"
proof -
  obtain s out where run: "server_run (ref_env no_files) sample_config idle
      [Accept No_error, Read 0 No_error (get_text ''/health'')] s"
    and conns: "srv_conns s = [Writing out]"
    using health_run by blast
  have "srv_conns s ! 0 = Writing out" using conns by simp
  moreover from responses_complete[OF run _ this] conns
  have "\<exists>c ty b. out = ''HTTP/1.1 '' @ to_string (code_of c) @ crlf @ ''Content-Type: '' @ ty @ crlf @
      ''Content-Length: '' @ to_string (length b) @ crlf @ crlf @ b" by simp
  ultimately show ?thesis using run by blast
qed

text \<open>C39: A request for exactly the URL of a static or a meme handler, with nothing behind it, throws
  out_of_range in the handler; nothing catches it, so the server ends.\<close>

theorem exact_prefix_ends_server:
  assumes "srv_state s = Running" and "i < length (srv_conns s)" and "srv_conns s ! i = Reading"
    and "str_find buffer (crlf @ crlf) \<noteq> None"
    and "request_handler (env_split env) buffer = Inr req"
    and "new_Dispatcher c (srv_proc s) = Inr (d, proc1)"
    and "route c (req_uri_path req) = Some (name, block)"
    and "name = ''static'' \<and> StaticHandler_create block (disp_root d) = Inr h \<and> st_uri h = req_uri_path req \<or>
         name = ''meme'' \<and> MemeHandler_create block (disp_root d) = Inr h' \<and> mh_uri h' = req_uri_path req"
  shows "\<exists>s'. server_step env c (Read i No_error buffer) s s' \<and> srv_state s' = Ended OutOfRange"
proof -
  from assms(8) have "\<exists>x. createByName name block (disp_root d) = Inr (Some x) \<and>
      HandleRequest env proc1 x req (srv_world s) = Inl OutOfRange"
  proof (elim disjE conjE)
    assume "name = ''static''" "StaticHandler_create block (disp_root d) = Inr h" "st_uri h = req_uri_path req"
    then show ?thesis
      by (intro exI[of _ "Static h"]) (simp add: createByName_def HandleRequest_def static_cases)
  next
    assume "name = ''meme''" "MemeHandler_create block (disp_root d) = Inr h'" "mh_uri h' = req_uri_path req"
    then show ?thesis
      by (intro exI[of _ "Meme h'"])
        (simp add: createByName_def HandleRequest_def MemeHandler_HandleRequest_def substr_def)
  qed
  then have "generateResponse env d proc1 req (srv_world s) = Inl OutOfRange"
    using assms(7) by (auto simp: generateResponse_route[OF assms(6)])
  then have "handle_read env c (srv_proc s) No_error buffer (srv_world s) = Inl OutOfRange"
    using assms(5,6) by (simp add: handle_read_def)
  then have "server_step env c (Read i No_error buffer) s (s\<lparr>srv_state := run_state_of OutOfRange\<rparr>)"
    using server_step.read_fault[OF assms(1-3)] assms(4) by blast
  then show ?thesis
    by (intro exI conjI) (assumption, simp add: run_state_of_def)
qed

theorem exact_prefix_ends_server_witness:
  "\<exists>s s'. server_run (ref_env no_files) sample_config idle [Accept No_error] s \<and>
     server_step (ref_env no_files) sample_config (Read 0 No_error (get_text ''/static'')) s s' \<and>
     srv_state s' = Ended OutOfRange"
proof -
  let ?block = "[Statement [''location'', ''/files''] None, Statement [''url'', ''/static''] None]"
  let ?s = "(new_server idle)\<lparr>srv_conns := [Reading]\<rparr>"
  have route: "route sample_config ''/static'' = Some (''static'', ?block)" by code_simp
  have "GetAttribute ?block ''url'' = Inr ''/static''" "GetAttribute ?block ''location'' = Inr ''/files''"
    by code_simp+
  then have create: "\<exists>h. StaticHandler_create ?block (disp_root sample_dispatcher) = Inr h \<and> st_uri h = ''/static''"
    by (simp add: StaticHandler_create_def)
  have crlf: "str_find (get_text ''/static'') (crlf @ crlf) \<noteq> None"
    by (code_simp)
  have word: "word_text ''/static''" by (simp add: word_text_def)
  have s: "srv_state ?s = Running" "0 < length (srv_conns ?s)" "srv_conns ?s ! 0 = Reading"
    "srv_proc ?s = fresh_process"
    by (simp_all add: new_server_def fresh_process_def)
  have "\<exists>s'. server_step (ref_env no_files) sample_config (Read 0 No_error (get_text ''/static'')) ?s s' \<and>
      srv_state s' = Ended OutOfRange"
    using exact_prefix_ends_server[OF s(1-3) crlf _ _ _ disjI1, of "ref_env no_files" _ sample_config]
      get_request[OF word] sample_new_Dispatcher route create s(4)
    by fastforce
  then show ?thesis using accepted_run[of "ref_env no_files" sample_config idle] by blast
qed

text \<open>A read that fails, or a response that cannot be written, ends in undefined behaviour: the session
  destroys itself while the callback still owns it.\<close>

theorem failed_io_breaks_server:
  assumes "server_step env c ev s s'" and "ev = Read i Failure buffer \<or> ev = Written i err \<and> err \<noteq> No_error"
  shows "srv_state s' = Broken"
  using assms(2,1)
  by (elim disjE conjE) (auto simp: server_step_simps handle_read_def after_read_def after_write_def handle_write_def)

theorem failed_io_breaks_server_witness:
  "\<exists>s s'. server_run (ref_env no_files) sample_config idle [Accept No_error] s \<and>
     server_step (ref_env no_files) sample_config (Read 0 Failure []) s s' \<and> srv_state s' = Broken"
proof -
  let ?s = "(new_server idle)\<lparr>srv_conns := [Reading]\<rparr>"
  have "server_step (ref_env no_files) sample_config (Read 0 Failure []) ?s
      (after_read 0 Deleted (?s\<lparr>srv_proc := srv_proc ?s, srv_world := idle, srv_log := srv_log ?s @ []\<rparr>))"
    by (rule server_step.read) (simp_all add: new_server_def handle_read_def)
  with failed_io_breaks_server[OF this] show ?thesis
    using accepted_run[of "ref_env no_files" sample_config idle] by blast
qed

text \<open>C3: On a server that runs, a complete request on a waiting connection always leads to exactly one next
  state: the response is handed over on this connection, or the server ends with a fault of the
  dispatcher or of the handler.\<close>

theorem request_leads_to_response:
  assumes "boost_split (env_split env)" and "srv_state s = Running" and "i < length (srv_conns s)"
    and "srv_conns s ! i = Reading" and "str_find buffer (crlf @ crlf) \<noteq> None"
    and "status_entries (srv_proc s) = summary hist" and "length hist < 2 ^ 31 - 1"
  shows "\<exists>s'. (\<forall>t. server_step env c (Read i No_error buffer) s t \<longleftrightarrow> t = s') \<and>
    ((\<exists>out. srv_state s' = Running \<and> srv_conns s' = (srv_conns s)[i := Writing out]) \<or>
     (\<exists>e. srv_state s' = run_state_of e \<and> (new_Dispatcher c (srv_proc s) = Inl e \<or>
        (\<exists>d proc1 req. new_Dispatcher c (srv_proc s) = Inr (d, proc1) \<and>
           generateResponse env d proc1 req (srv_world s) = Inl e))))"
proof -
  have step: "server_step env c (Read i No_error buffer) s t \<longleftrightarrow> t = read_result env c i No_error buffer s" for t
    using assms(2-5) by (intro read_step_iff) simp_all
  show ?thesis
  proof (cases "handle_read env c (srv_proc s) No_error buffer (srv_world s)")
    case (Inl e)
    then have "srv_state (read_result env c i No_error buffer s) = run_state_of e"
      by (simp add: read_result_def)
    with step handle_read_fault[OF assms(1,6,7) Inl] show ?thesis by blast
  next
    case (Inr r)
    obtain act log proc w where r: "r = (act, log, proc, w)" by (cases r)
    with handle_read_cases Inr obtain out where "act = Write_response out"
      by (cases act) (fastforce split: session_action.splits)+
    with Inr r assms(2) have "srv_state (read_result env c i No_error buffer s) = Running \<and>
        srv_conns (read_result env c i No_error buffer s) = (srv_conns s)[i := Writing out]"
      by (simp add: read_result_def after_read_def)
    with step show ?thesis by blast
  qed
qed

theorem request_leads_to_response_witness:
  "\<exists>s s'. server_run (ref_env no_files) sample_config idle [Accept No_error] s \<and>
     server_step (ref_env no_files) sample_config (Read 0 No_error (get_text ''/health'')) s s'"
proof -
  let ?s = "(new_server idle)\<lparr>srv_conns := [Reading]\<rparr>"
  have "str_find (get_text ''/health'') (crlf @ crlf) \<noteq> None" by code_simp
  moreover have "boost_split (env_split (ref_env no_files))"
    using compress.boost_split_axioms by simp
  ultimately have "\<exists>s'. server_step (ref_env no_files) sample_config
      (Read 0 No_error (get_text ''/health'')) ?s s'"
    using request_leads_to_response[of "ref_env no_files" ?s 0 "get_text ''/health''" "[]" sample_config]
      fresh_summary by (simp add: new_server_def fresh_process_def) blast
  then show ?thesis using accepted_run[of "ref_env no_files" sample_config idle] by blast
qed

text \<open>C26: On every run the static map of the status object is ordered and holds only URLs that the
  configuration routes, with the handler they are routed to, and the table of requests has one entry
  for each pair of path and code, where the code is one of 200, 302, 400 and 404.\<close>

theorem status_object_well_formed:
  assumes "server_run env c w evs s"
  shows "ascending (url_handlers (srv_proc s)) \<and> distinct (map snd (status_entries (srv_proc s))) \<and>
    (\<forall>(n, u, code)\<in>set (status_entries (srv_proc s)).
       \<exists>c\<in>{OK, MOVED_TEMPORARILY, BAD_REQUEST, NOT_FOUND}. code = to_string (code_of c)) \<and>
    (\<forall>u n. map_of (url_handlers (srv_proc s)) u = Some n \<longrightarrow>
       map_of (map (\<lambda>(u, b, n). (u, n)) (handlers c)) u = Some n)"
  using process_ok_run[OF assms] unfolding process_ok_def sent_codes_def .

theorem status_object_well_formed_witness:
  "\<exists>s. server_run (ref_env no_files) sample_config idle [Accept No_error, Read 0 No_error (get_text ''/health'')] s \<and>
     ascending (url_handlers (srv_proc s))"
proof -
  obtain s where run: "server_run (ref_env no_files) sample_config idle
      [Accept No_error, Read 0 No_error (get_text ''/health'')] s"
    using health_run by blast
  with status_object_well_formed[OF run] show ?thesis by blast
qed

text \<open>C20: Started with a printed configuration that has a listen statement, the program serves this
  configuration on the announced port, taken modulo 2^16.\<close>

theorem main_serves_configuration:
  assumes "c \<noteq> []" and "list_all printable c" and "fs file = Some (ToString 0 c)"
    and "ToString 0 c = pre @ ''listen '' @ to_string n @ '';'' @ post"
    and "\<not> sublist ''listen'' pre" and "pre = [] \<or> last pre \<notin> set ''listen''"
    and "0 < n" and "n < 2 ^ 31"
  shows "\<exists>port. main_start fs [prog, file] = Inr (Serve port c) \<and> uint port = int n mod 2 ^ 16"
proof -
  have "uint (word_of_nat n :: 16 word) = int n mod 2 ^ 16"
    using uint_word_of_int[where 'a = 16, of "int n"] by simp
  with main_start_serves[where fs = fs and name = "file" and prog = prog, OF assms] show ?thesis by blast
qed

theorem main_serves_configuration_witness:
  "\<exists>port. main_start (\<lambda>_. Some (''listen 65616;'' @ [CHR 0x0A])) [''server'', ''conf''] =
     Inr (Serve port [Statement [''listen'', ''65616''] None]) \<and> uint port = 80"
proof -
  let ?c = "[Statement [''listen'', ''65616''] None]"
  have n: "to_string 65616 = ''65616''" by (simp add: to_string.simps[of 65616] to_string.simps[of 6561]
      to_string.simps[of 656] to_string.simps[of 65] to_string.simps[of 6])
  have "ToString 0 ?c = ''listen 65616;'' @ [CHR 0x0A]" by code_simp
  moreover have "list_all printable ?c" by code_simp
  ultimately show ?thesis
    using main_serves_configuration[of ?c "\<lambda>_. Some (''listen 65616;'' @ [CHR 0x0A])" "''conf''"
      "[]" 65616 "[CHR 0x0A]" "''server''"] n by simp
qed

text \<open>C21: The program ends with code 1 exactly when it is not started with two arguments, the file cannot be
  read or its tokens are those of no configuration, or the value of its listen statement is no number
  or zero, with the message for this. Else it ends with code 0: after an exception of the acceptor,
  or one that a callback, and so a request, caused.\<close>

theorem exit_code_hides_failures:
  "program_run env listen what fs argv w evs (Exited n msg) \<longleftrightarrow>
     n = 1 \<and> evs = [] \<and> (\<exists>m. start_refused fs argv m \<and> msg = m @ [CHR 0x0A]) \<or>
     n = 0 \<and> (\<exists>port c e. main_start fs argv = Inr (Serve port c) \<and> msg = ''Exception: '' @ what e @ [CHR 0x0A] \<and>
       (evs = [] \<and> listen port w = Inl e \<and> is_exception e \<or>
        (\<exists>w' s. listen port w = Inr w' \<and> server_run env c w' evs s \<and> srv_state s = Ended e)))"
    (is "?run \<longleftrightarrow> ?refused \<or> ?failed")
proof
  assume ?run
  then show "?refused \<or> ?failed"
  proof (cases rule: program_run.cases)
    case (serves port c s0 s)
    obtain w' where w': "listen port w = Inr w'" "srv_world s0 = w'"
      using serves(3) by (auto simp: start_server_def new_server_def)
    obtain e where "srv_state s = Ended e" "n = 0" "msg = exception_line what e"
      using serves(1) never_stopped[OF serves(4)] by (auto simp: after_run_def split: run_state.splits)
    with serves(2,4) w' show ?thesis by (auto simp: exception_line_def)
  next
    case (start_fault e)
    then show ?thesis using main_start_fault[of fs argv e] by (simp add: is_exception_def)
  next
    case (no_port port c e)
    then have "listen port w = Inl e"
      by (cases "listen port w") (simp_all add: start_server_def)
    with no_port show ?thesis by (auto simp: exception_line_def)
  qed (auto simp: main_start_exit)
next
  assume "?refused \<or> ?failed"
  then show ?run
  proof
    assume ?refused
    then obtain m where m: "start_refused fs argv m" "msg = m @ [CHR 0x0A]" "n = 1" "evs = []" by blast
    then have "main_start fs argv = Inr (Exit_code 1 m)" by (simp add: main_start_exit)
    from program_run.refused[OF this] m show ?thesis by simp
  next
    assume ?failed
    then obtain port c e where start: "main_start fs argv = Inr (Serve port c)" "n = 0"
        "msg = exception_line what e" and how: "evs = [] \<and> listen port w = Inl e \<and> is_exception e \<or>
        (\<exists>w' s. listen port w = Inr w' \<and> server_run env c w' evs s \<and> srv_state s = Ended e)"
      unfolding exception_line_def by blast
    from how show ?thesis
    proof (elim disjE conjE exE)
      assume "evs = []" "listen port w = Inl e" "is_exception e"
      with program_run.no_port[OF start(1), of listen w e] start(2,3) show ?thesis
        by (simp add: start_server_def)
    next
      fix w' s assume "listen port w = Inr w'" "server_run env c w' evs s" "srv_state s = Ended e"
      with started_run[OF start(1), of listen w w' env evs s what] start(2,3) show ?thesis
        by (simp add: after_run_def)
    qed
  qed
qed

lemma static_read_fails:
  "handle_read (ref_env no_files) sample_config fresh_process No_error (get_text ''/static'') idle = Inl OutOfRange"
proof -
  let ?block = "[Statement [''location'', ''/files''] None, Statement [''url'', ''/static''] None]"
  have "word_text ''/static''" by (simp add: word_text_def)
  moreover have "route sample_config ''/static'' = Some (''static'', ?block)" by code_simp
  moreover have "GetAttribute ?block ''url'' = Inr ''/static''" "GetAttribute ?block ''location'' = Inr ''/files''"
    by code_simp+
  ultimately show ?thesis
    using get_request[of "''/static''"]
    by (simp add: handle_read_def sample_new_Dispatcher createByName_def StaticHandler_create_def
        HandleRequest_def static_cases generateResponse_route[OF sample_new_Dispatcher])
qed

definition sample_disk :: "string \<Rightarrow> string option" where
  "sample_disk name = (if name = ''conf'' then Some (ToString 0 sample_config) else None)"

lemma sample_start: "main_start sample_disk [''server'', ''conf''] = Inr (Serve 8080 sample_config)"
  by code_simp

theorem exit_code_hides_failures_witness:
  "program_run (ref_env no_files) (\<lambda>port w. Inr w) (\<lambda>e. ''basic_string::substr'') sample_disk [''server'', ''conf''] idle
     [Accept No_error, Read 0 No_error (get_text ''/static'')] (Exited 0 (''Exception: basic_string::substr'' @ [CHR 0x0A])) \<and>
   program_run (ref_env no_files) (\<lambda>port w. Inr w) (\<lambda>e. []) sample_disk [''server''] idle
     [] (Exited 1 (''Usage: server_main <config>'' @ [CHR 0x0A])) \<and>
   program_run (ref_env no_files) (\<lambda>port w. Inr w) (\<lambda>e. []) sample_disk [''server'', ''other''] idle
     [] (Exited 1 (''Bad config file'' @ [CHR 0x0A])) \<and>
   program_run (ref_env no_files) (\<lambda>port w. Inr w) (\<lambda>e. []) (\<lambda>_. Some (ToString 0 status_config)) [''server'', ''conf''] idle
     [] (Exited 1 (''No port specified'' @ [CHR 0x0A]))"
proof -
  have b: "str_find (get_text ''/static'') (crlf @ crlf) \<noteq> None"
    unfolding get_text_def by (rule rendered_crlf)
  obtain s where s: "server_run (ref_env no_files) sample_config idle
      [Accept No_error, Read 0 No_error (get_text ''/static'')] s" "srv_state s = Ended OutOfRange"
    using failed_run[OF b static_read_fails[unfolded fresh_process_def]] by (auto simp: run_state_of_def)
  have wrong: "start_refused sample_disk [''server''] ''Usage: server_main <config>''"
    by (rule start_refused.wrong_arguments) simp
  have unreadable: "start_refused sample_disk [''server'', ''other''] ''Bad config file''"
    by (rule start_refused.no_file) (simp add: sample_disk_def)
  have "status_config \<noteq> []" "list_all printable status_config" by code_simp+
  then have "configures (ToString 0 status_config) status_config"
    using Parse_ToString[of status_config 0] by (simp add: configures_def Parse_Accepted_iff)
  moreover have "atoi (c_str (port_text status_config)) = Inr 0" by code_simp
  ultimately have portless: "start_refused (\<lambda>_. Some (ToString 0 status_config)) [''server'', ''conf''] ''No port specified''"
    by (intro start_refused.no_port) simp_all
  show ?thesis unfolding exit_code_hides_failures using sample_start s wrong unreadable portless by auto
qed

text \<open>C4: From the bytes of the configuration file and the bytes of a request to the bytes of the response: started on
  a printed configuration whose port can be opened, the program answers a well-formed request to the
  echo handler on the connection it came on with the bytes of the request.\<close>

theorem configured_program_answers:
  assumes "c \<noteq> []" and "list_all printable c" and "fs name = Some (ToString 0 c)"
    and "ToString 0 c = pre @ ''listen '' @ to_string n @ '';'' @ post"
    and "\<not> sublist ''listen'' pre" and "pre = [] \<or> last pre \<notin> set ''listen''"
    and "0 < n" and "n < 2 ^ 31" and "listen (word_of_nat n) w = Inr w'"
    and "boost_split (env_split env)"
    and "m = ''GET'' \<or> m = ''POST''" and "word_text p" and "word_text v"
    and "sublist ''HTTP/1.1'' v" and "\<forall>h\<in>set hs. field_text h" and "one_line b"
    and "new_Dispatcher c fresh_process = Inr (d, proc1)" and "route c p = Some (''echo'', block)"
    and "GetAttribute block ''url'' = Inr u"
  shows "let raw = render_request m p v hs b in
    \<exists>s. program_run env listen what fs [prog, name] w [Accept No_error, Read 0 No_error raw] (Serving s) \<and>
      srv_conns s = [Writing (''HTTP/1.1 200'' @ crlf @ ''Content-Type: text/plain'' @ crlf @
         ''Content-Length: '' @ to_string (length raw) @ crlf @ crlf @ raw)] \<and>
      status_entries (srv_proc s) = summary [(p, ''200'')]"
proof -
  let ?raw = "render_request m p v hs b"
  have "handle_read env c fresh_process No_error ?raw w' = Inr
      (Write_response (''HTTP/1.1 200'' @ crlf @ ''Content-Type: text/plain'' @ crlf @
         ''Content-Length: '' @ to_string (length ?raw) @ crlf @ crlf @ ?raw),
       [''::PathMetrics:: path:'' @ p, ''::HandlerMetrics:: handler:echo'',
        ''::ResponseMetrics:: response_code:200''],
       proc1\<lparr>status_entries := summary [(p, ''200'')]\<rparr>, w')"
    using echo_read[OF assms(10-19) fresh_summary, of w'] by (simp add: Let_def)
  note run = answered_run[OF rendered_crlf this[unfolded fresh_process_def]]
  note start = main_start_serves[where fs = fs and name = name and prog = prog, OF assms(1-8)]
  from started_run[where listen = listen and what = what, OF start assms(9) run]
  show ?thesis by (fastforce simp: after_run_def Let_def)
qed

theorem configured_program_answers_witness:
  "\<exists>s out. program_run (ref_env no_files) (\<lambda>port w. if port = 8080 then Inr w else Inl SystemError) (\<lambda>e. [])
      sample_disk [''server'', ''conf''] idle [Accept No_error, Read 0 No_error (get_text ''/echo/x'')] (Serving s) \<and>
    srv_conns s = [Writing out] \<and> status_entries (srv_proc s) = summary [(''/echo/x'', ''200'')]"
proof -
  let ?listen = "\<lambda>port w. if port = (8080 :: 16 word) then Inr w else Inl SystemError :: ref_world res"
  let ?pre = "''http {'' @ [CHR 0x0A] @ ''    server {'' @ [CHR 0x0A] @ ''        ''"
  let ?post = "drop 40 (ToString 0 sample_config)"
  have c: "sample_config \<noteq> []" "list_all printable sample_config" by code_simp+
  have disk: "sample_disk ''conf'' = Some (ToString 0 sample_config)" by (simp add: sample_disk_def)
  have n: "to_string 8080 = ''8080''"
    by (simp add: to_string.simps[of 8080] to_string.simps[of 808] to_string.simps[of 80] to_string.simps[of 8])
  have printed: "ToString 0 sample_config = ?pre @ ''listen '' @ to_string 8080 @ '';'' @ ?post"
    unfolding n by code_simp
  have pre: "\<not> sublist ''listen'' ?pre" "?pre = [] \<or> last ?pre \<notin> set ''listen''" by code_simp+
  have port: "0 < (8080 :: nat)" "8080 < (2 ^ 31 :: nat)" "?listen (word_of_nat 8080) idle = Inr idle" by simp_all
  have split: "boost_split (env_split (ref_env no_files))" using compress.boost_split_axioms by simp
  have words: "word_text ''/echo/x''" "word_text ''HTTP/1.1''" "sublist ''HTTP/1.1'' (''HTTP/1.1'' :: string)"
    "\<forall>h\<in>set []. field_text h" "one_line []"
    by (simp_all add: word_text_def)
  have route: "route sample_config ''/echo/x'' = Some (''echo'', [Statement [''url'', ''/echo''] None])"
    and url: "GetAttribute [Statement [''url'', ''/echo''] None] ''url'' = Inr ''/echo''" by code_simp+
  from configured_program_answers[where fs = sample_disk and listen = ?listen and what = "\<lambda>e. []" and prog = "''server''",
      OF c disk printed pre port split disjI1[OF refl] words sample_new_Dispatcher route url]
  show ?thesis unfolding get_text_def Let_def by blast
qed

end
